theory Spec2Isabelle
  imports Complex_Main "HOL-Library.Word"
begin

section \<open>Tensors and errors\<close>

text \<open>
  The exceptions the program can raise.  \<open>AssertionError\<close> comes from the
  \<^verbatim>\<open>assert\<close> statements of the source; the other three are raised by the tensor
  library on the paths the source takes: \<open>RuntimeError\<close> (a reduction over a tensor
  with no element, a batch-size mismatch in the recurrent cell, stacking tensors of
  different sizes), \<open>AttributeError\<close> (the recurrent cell called on \<^verbatim>\<open>None\<close>) and
  \<open>ValueError\<close> (a sample outside the support of a categorical distribution).
\<close>

datatype error = AssertionError | RuntimeError | AttributeError | ValueError

text \<open>
  A tensor as the observation arrives: its shape and its elements in row-major order.
  Real numbers stand for the floating-point numbers of the source.
\<close>

record tensor =
  shape :: "nat list"
  elems :: "real list"

definition wf_tensor :: "tensor \<Rightarrow> bool" where
  "wf_tensor t \<longleftrightarrow> length (elems t) = prod_list (shape t)"

type_synonym plane = "real list list"
type_synonym image = "real list list list"

text \<open>Consecutive blocks of \<open>k\<close> elements: the row-major reading of one more axis.\<close>

definition chunks :: "nat \<Rightarrow> 'a list \<Rightarrow> 'a list list" where
  "chunks k xs = map (\<lambda>i. take k (drop (i * k) xs)) [0..<length xs div k]"

text \<open>The elements of a tensor of shape \<open>(N, 3, 64, 64)\<close> as \<open>N\<close> images of three 64 x 64 planes.\<close>

definition images_of :: "tensor \<Rightarrow> image list" where
  "images_of t = map (\<lambda>img. map (chunks 64) (chunks (64 * 64) img)) (chunks (3 * 64 * 64) (elems t))"

definition img_shape :: "nat \<Rightarrow> nat \<Rightarrow> nat \<Rightarrow> 'a list list list \<Rightarrow> bool" where
  "img_shape c h w x \<longleftrightarrow>
     length x = c \<and> list_all (\<lambda>p. length p = h \<and> list_all (\<lambda>r. length r = w) p) x"

definition mat_shape :: "nat \<Rightarrow> nat \<Rightarrow> 'a list list \<Rightarrow> bool" where
  "mat_shape r c xs \<longleftrightarrow> length xs = r \<and> list_all (\<lambda>row. length row = c) xs"

section \<open>The network: \<open>ActorCritic\<close>\<close>

record ActorCriticOutput =
  logits_actions0 :: "real list list list"
  logits_actions1 :: "real list list list"
  means_values :: "real list list list"

text \<open>
  The module's learned weights and its two mutable fields \<open>hx\<close>, \<open>cx\<close>
  (\<^verbatim>\<open>None\<close> or a tensor of shape \<open>(n, 512)\<close>).
\<close>

record ActorCritic =
  conv1_weight :: "real list list list list"
  conv1_bias :: "real list"
  conv2_weight :: "real list list list list"
  conv2_bias :: "real list"
  conv3_weight :: "real list list list list"
  conv3_bias :: "real list"
  conv4_weight :: "real list list list list"
  conv4_bias :: "real list"
  lstm_weight_ih :: "real list list"
  lstm_weight_hh :: "real list list"
  lstm_bias_ih :: "real list"
  lstm_bias_hh :: "real list"
  critic_weight :: "real list list"
  critic_bias :: "real list"
  actor0_weight :: "real list list"
  actor0_bias :: "real list"
  actor1_weight :: "real list list"
  actor1_bias :: "real list"
  hx :: "real list list option"
  cx :: "real list list option"

definition lstm_dim :: nat where
  "lstm_dim = 512"

definition conv_shape :: "nat \<Rightarrow> nat \<Rightarrow> real list list list list \<Rightarrow> real list \<Rightarrow> bool" where
  "conv_shape cout cin w b \<longleftrightarrow>
     length w = cout \<and> length b = cout \<and> list_all (img_shape cin 3 3) w"

definition linear_shape :: "nat \<Rightarrow> nat \<Rightarrow> real list list \<Rightarrow> real list \<Rightarrow> bool" where
  "linear_shape nout nin w b \<longleftrightarrow> mat_shape nout nin w \<and> length b = nout"

text \<open>The shapes the constructor \<^verbatim>\<open>__init__\<close> gives the weights.\<close>

definition wf_weights :: "ActorCritic \<Rightarrow> bool" where
  "wf_weights m \<longleftrightarrow>
     conv_shape 32 3 (conv1_weight m) (conv1_bias m) \<and>
     conv_shape 32 32 (conv2_weight m) (conv2_bias m) \<and>
     conv_shape 64 32 (conv3_weight m) (conv3_bias m) \<and>
     conv_shape 64 64 (conv4_weight m) (conv4_bias m) \<and>
     linear_shape (4 * 512) 1024 (lstm_weight_ih m) (lstm_bias_ih m) \<and>
     linear_shape (4 * 512) 512 (lstm_weight_hh m) (lstm_bias_hh m) \<and>
     linear_shape 1 512 (critic_weight m) (critic_bias m) \<and>
     linear_shape 7 512 (actor0_weight m) (actor0_bias m) \<and>
     linear_shape 7 512 (actor1_weight m) (actor1_bias m)"

text \<open>The state machine of the hidden state: absent, or present for a batch of \<open>n\<close>.\<close>

definition absent :: "ActorCritic \<Rightarrow> bool" where
  "absent m \<longleftrightarrow> hx m = None \<and> cx m = None"

definition present :: "nat \<Rightarrow> ActorCritic \<Rightarrow> bool" where
  "present n m \<longleftrightarrow>
     (case (hx m, cx m) of
        (Some h, Some c) \<Rightarrow> mat_shape n 512 h \<and> mat_shape n 512 c
      | _ \<Rightarrow> False)"

definition clear :: "ActorCritic \<Rightarrow> ActorCritic" where
  "clear m = m\<lparr>hx := None, cx := None\<rparr>"

definition reset :: "nat \<Rightarrow> ActorCritic \<Rightarrow> ActorCritic" where
  "reset n m = m\<lparr>hx := Some (replicate n (replicate lstm_dim 0)),
                 cx := Some (replicate n (replicate lstm_dim 0))\<rparr>"

subsection \<open>Layers\<close>

definition img_height :: "image \<Rightarrow> nat" where
  "img_height x = (case x of [] \<Rightarrow> 0 | p # _ \<Rightarrow> length p)"

definition img_width :: "image \<Rightarrow> nat" where
  "img_width x = (case x of (r # _) # _ \<Rightarrow> length r | _ \<Rightarrow> 0)"

text \<open>Zero padding of one pixel on each side of a plane (\<^verbatim>\<open>padding=1\<close>).\<close>

definition pad1 :: "nat \<Rightarrow> plane \<Rightarrow> plane" where
  "pad1 w p = replicate (w + 2) 0 # map (\<lambda>r. 0 # r @ [0]) p @ [replicate (w + 2) 0]"

text \<open>One output pixel of a 3 x 3 convolution with stride 1, before the bias.\<close>

definition conv_at :: "real list list list \<Rightarrow> image \<Rightarrow> nat \<Rightarrow> nat \<Rightarrow> real" where
  "conv_at k x i j =
     (\<Sum>c\<leftarrow>[0..<length x]. \<Sum>di\<leftarrow>[0..<3]. \<Sum>dj\<leftarrow>[0..<3].
        k ! c ! di ! dj * pad1 (img_width x) (x ! c) ! (i + di) ! (j + dj))"

definition conv2d :: "real list list list list \<Rightarrow> real list \<Rightarrow> image \<Rightarrow> image" where
  "conv2d w b x =
     map2 (\<lambda>k bo. map (\<lambda>i. map (\<lambda>j. conv_at k x i j + bo) [0..<img_width x]) [0..<img_height x]) w b"

fun pool_row :: "real list \<Rightarrow> real list" where
  "pool_row (a # b # xs) = max a b # pool_row xs"
| "pool_row _ = []"

text \<open>\<^verbatim>\<open>MaxPool2d(2, 2)\<close> on one plane: the maximum of each 2 x 2 window.\<close>

fun max_pool :: "plane \<Rightarrow> plane" where
  "max_pool (r # s # rs) = pool_row (map2 max r s) # max_pool rs"
| "max_pool _ = []"

definition relu :: "real \<Rightarrow> real" where
  "relu v = max v 0"

definition maxp :: "image \<Rightarrow> image" where
  "maxp x = map max_pool x"

definition relu_img :: "image \<Rightarrow> image" where
  "relu_img x = map (map (map relu)) x"

definition linear :: "real list list \<Rightarrow> real list \<Rightarrow> real list \<Rightarrow> real list" where
  "linear w b x = map2 (\<lambda>row bi. (\<Sum>(wi, xi)\<leftarrow>zip row x. wi * xi) + bi) w b"

definition sigmoid :: "real \<Rightarrow> real" where
  "sigmoid v = 1 / (1 + exp (- v))"

text \<open>\<^verbatim>\<open>LSTMCell\<close> on one sample: the gates in the order input, forget, cell, output.\<close>

definition lstm_cell :: "ActorCritic \<Rightarrow> real list \<Rightarrow> real list \<times> real list \<Rightarrow> real list \<times> real list" where
  "lstm_cell m x hc =
     (let gates = map2 plus (linear (lstm_weight_ih m) (lstm_bias_ih m) x)
                            (linear (lstm_weight_hh m) (lstm_bias_hh m) (fst hc));
          ig = map sigmoid (take lstm_dim gates);
          fg = map sigmoid (take lstm_dim (drop lstm_dim gates));
          gg = map tanh (take lstm_dim (drop (2 * lstm_dim) gates));
          og = map sigmoid (take lstm_dim (drop (3 * lstm_dim) gates));
          c' = map2 plus (map2 times fg (snd hc)) (map2 times ig gg);
          h' = map2 times og (map tanh c')
      in (h', c'))"

text \<open>
  The recurrent cell on a batch.  The library raises \<open>AttributeError\<close> when the
  hidden state is \<^verbatim>\<open>None\<close>, and \<open>RuntimeError\<close> when the input does not have 1024
  features or its batch size differs from the hidden state's.
\<close>

definition lstm :: "ActorCritic \<Rightarrow> real list list \<Rightarrow> real list list option \<times> real list list option
    \<Rightarrow> error + (real list list \<times> real list list)" where
  "lstm m xs hc =
     (case hc of
        (Some h, Some c) \<Rightarrow>
          if \<not> list_all (\<lambda>x. length x = 1024) xs then Inl RuntimeError
          else if length xs \<noteq> length h \<or> length xs \<noteq> length c then Inl RuntimeError
          else (let r = map2 (lstm_cell m) xs (zip h c) in Inr (map fst r, map snd r))
      | _ \<Rightarrow> Inl AttributeError)"

subsection \<open>\<open>forward\<close>\<close>

text \<open>\<^verbatim>\<open>x.mul(2).sub(1)\<close> on every element.\<close>

definition rescale :: "image \<Rightarrow> image" where
  "rescale x = map (map (map (\<lambda>v. v * 2 - 1))) x"

text \<open>One stage as the source writes it: convolution, then max-pooling, then ReLU.\<close>

definition stage :: "real list list list list \<Rightarrow> real list \<Rightarrow> image \<Rightarrow> image" where
  "stage w b x = relu_img (maxp (conv2d w b x))"

definition flatten :: "image \<Rightarrow> real list" where
  "flatten x = concat (concat x)"

text \<open>Lines 78 to 84 of the source on one image of the batch.\<close>

definition features :: "ActorCritic \<Rightarrow> image \<Rightarrow> real list" where
  "features m x =
     flatten (stage (conv4_weight m) (conv4_bias m)
       (stage (conv3_weight m) (conv3_bias m)
         (stage (conv2_weight m) (conv2_bias m)
           (stage (conv1_weight m) (conv1_bias m) (rescale x)))))"

text \<open>
  \<open>forward\<close> returns its result, or the exception it raised, and the module after the
  call.  The two assertions come first; \<^verbatim>\<open>inputs.min()\<close> raises \<open>RuntimeError\<close> on
  a tensor with no element.  The fields \<open>hx\<close> and \<open>cx\<close> are assigned only when the
  recurrent cell has returned.
\<close>

definition forward :: "ActorCritic \<Rightarrow> tensor \<Rightarrow> (error + ActorCriticOutput) \<times> ActorCritic" where
  "forward m inputs =
     (if \<not> (length (shape inputs) = 4 \<and> tl (shape inputs) = [3, 64, 64]) then (Inl AssertionError, m)
      else if elems inputs = [] then (Inl RuntimeError, m)
      else if \<not> (0 \<le> Min (set (elems inputs)) \<and> Min (set (elems inputs)) \<le> 1 \<and>
                  0 \<le> Max (set (elems inputs)) \<and> Max (set (elems inputs)) \<le> 1)
        then (Inl AssertionError, m)
      else
        (case lstm m (map (features m) (images_of inputs)) (hx m, cx m) of
           Inl e \<Rightarrow> (Inl e, m)
         | Inr (h', c') \<Rightarrow>
             (Inr \<lparr>logits_actions0 = map (\<lambda>a. [a]) (map (linear (actor0_weight m) (actor0_bias m)) h'),
                   logits_actions1 = map (\<lambda>a. [a]) (map (linear (actor1_weight m) (actor1_bias m)) h'),
                   means_values = map (\<lambda>v. [v]) (map (linear (critic_weight m) (critic_bias m)) h')\<rparr>,
              m\<lparr>hx := Some h', cx := Some c'\<rparr>)))"

text \<open>
  The feature extractor as the specification words it: in each stage the convolution,
  then ReLU, then max-pooling.
\<close>

definition spec_stage :: "real list list list list \<Rightarrow> real list \<Rightarrow> image \<Rightarrow> image" where
  "spec_stage w b x = maxp (relu_img (conv2d w b x))"

definition spec_features :: "ActorCritic \<Rightarrow> image \<Rightarrow> real list" where
  "spec_features m x =
     flatten (spec_stage (conv4_weight m) (conv4_bias m)
       (spec_stage (conv3_weight m) (conv3_bias m)
         (spec_stage (conv2_weight m) (conv2_bias m)
           (spec_stage (conv1_weight m) (conv1_bias m) (rescale x)))))"

section \<open>Collecting a rollout: \<open>batch_rollout\<close>\<close>

text \<open>
  The trajectory bundle.  The logits and the values are of a type \<open>'a\<close> of numbers:
  \<open>batch_rollout\<close> is modelled on the reals, \<open>compute_loss\<close> on numbers that carry a
  derivative.
\<close>

record 'a RolloutOutput =
  observations :: "8 word list list list list list"
  actions0 :: "nat list list"
  actions1 :: "nat list list"
  logits_actions0 :: "'a list list list"
  logits_actions1 :: "'a list list list"
  "values" :: "'a list list"
  rewards :: "real list list"
  ends :: "bool list list"

text \<open>
  The environment is an external collaborator: its batch size, \<^verbatim>\<open>reset()\<close> and
  \<^verbatim>\<open>step(actions)\<close>, which returns two observation batches, the rewards and the
  termination flags, over a state \<open>'e\<close> of its own.
\<close>

record 'e ParallelEnv =
  env_n :: nat
  env_reset :: "'e \<Rightarrow> 'e"
  env_step :: "nat list list \<Rightarrow> 'e \<Rightarrow> (tensor \<times> tensor \<times> real list \<times> bool list) \<times> 'e"

text \<open>
  \<^verbatim>\<open>Categorical(logits=...).sample()\<close> draws from the random number generator: a
  function \<open>smp\<close> from the generator's state and one logit vector to the index drawn
  and the next state, applied to every distribution of the batch in turn.
\<close>

fun sample_list :: "('g \<Rightarrow> real list \<Rightarrow> nat \<times> 'g) \<Rightarrow> 'g \<Rightarrow> real list list \<Rightarrow> nat list \<times> 'g" where
  "sample_list smp g [] = ([], g)"
| "sample_list smp g (l # ls) =
     (case smp g l of (a, g') \<Rightarrow> (case sample_list smp g' ls of (as, g'') \<Rightarrow> (a # as, g'')))"

fun sample :: "('g \<Rightarrow> real list \<Rightarrow> nat \<times> 'g) \<Rightarrow> 'g \<Rightarrow> real list list list \<Rightarrow> nat list list \<times> 'g" where
  "sample smp g [] = ([], g)"
| "sample smp g (r # rs) =
     (case sample_list smp g r of (as, g') \<Rightarrow> (case sample smp g' rs of (bs, g'') \<Rightarrow> (as # bs, g'')))"

text \<open>The lists the loop appends to, one entry per step.\<close>

record collected =
  all_observations0 :: "tensor list"
  all_actions0 :: "nat list list list"
  all_actions1 :: "nat list list list"
  all_logits_actions0 :: "real list list list list"
  all_logits_actions1 :: "real list list list list"
  all_values0 :: "real list list list list"
  all_rewards :: "real list list list"
  all_ends :: "bool list list list"

definition no_records :: collected where
  "no_records = \<lparr>all_observations0 = [], all_actions0 = [], all_actions1 = [],
     all_logits_actions0 = [], all_logits_actions1 = [], all_values0 = [],
     all_rewards = [], all_ends = []\<rparr>"

text \<open>The appends of lines 145 to 152, and those of lines 158 and 159.\<close>

definition record_step :: "collected \<Rightarrow> tensor \<Rightarrow> ActorCriticOutput \<Rightarrow> nat list list \<Rightarrow> nat list list \<Rightarrow> collected" where
  "record_step acc obss0 outputs_ac0 action_token0 action_token1 =
     acc\<lparr>all_observations0 := all_observations0 acc @ [obss0],
         all_actions0 := all_actions0 acc @ [action_token0],
         all_logits_actions0 := all_logits_actions0 acc @ [ActorCriticOutput.logits_actions0 outputs_ac0],
         all_values0 := all_values0 acc @ [means_values outputs_ac0],
         all_actions1 := all_actions1 acc @ [action_token1],
         all_logits_actions1 := all_logits_actions1 acc @ [ActorCriticOutput.logits_actions1 outputs_ac0]\<rparr>"

definition record_outcome :: "collected \<Rightarrow> real list \<Rightarrow> bool list \<Rightarrow> collected" where
  "record_outcome acc step_rewards dones =
     acc\<lparr>all_rewards := all_rewards acc @ [map (\<lambda>r. [r]) step_rewards],
         all_ends := all_ends acc @ [map (\<lambda>d. [d]) dones]\<rparr>"

text \<open>
  One pass through the body of the loop (lines 138 to 165): the error raised, or
  whether the loop breaks, the lists and the next observation; and the module, the
  environment and the generator after it.
\<close>

definition loop_body :: "'e ParallelEnv \<Rightarrow> ('g \<Rightarrow> real list \<Rightarrow> nat \<times> 'g) \<Rightarrow> collected \<Rightarrow> tensor
    \<Rightarrow> ActorCritic \<times> 'e \<times> 'g \<Rightarrow> (error + bool \<times> collected \<times> tensor) \<times> (ActorCritic \<times> 'e \<times> 'g)" where
  "loop_body envs smp acc obss0 w =
     (case w of (actor0, s, g) \<Rightarrow>
       (case forward actor0 obss0 of
          (Inl e, actor0') \<Rightarrow> (Inl e, (actor0', s, g))
        | (Inr outputs_ac0, actor0') \<Rightarrow>
            (case sample smp g (ActorCriticOutput.logits_actions0 outputs_ac0) of (action_token0, g1) \<Rightarrow>
             case sample smp g1 (ActorCriticOutput.logits_actions1 outputs_ac0) of (action_token1, g2) \<Rightarrow>
             case env_step envs (map2 append action_token0 action_token1) s of
               ((obss0', obss1', step_rewards, dones), s') \<Rightarrow>
                 (let acc' = record_outcome
                       (record_step acc obss0 outputs_ac0 action_token0 action_token1) step_rewards dones
                  in if list_ex id dones
                     then (if list_all id dones then (Inr (True, acc', obss0'), (actor0', s', g2))
                           else (Inl AssertionError, (actor0', s', g2)))
                     else (Inr (False, acc', obss0'), (actor0', s', g2))))))"

text \<open>\<^verbatim>\<open>for _ in range(200)\<close>, with the number of passes left as the first argument.\<close>

fun rollout_loop :: "'e ParallelEnv \<Rightarrow> ('g \<Rightarrow> real list \<Rightarrow> nat \<times> 'g) \<Rightarrow> nat \<Rightarrow> collected \<Rightarrow> tensor
    \<Rightarrow> ActorCritic \<times> 'e \<times> 'g \<Rightarrow> (error + collected) \<times> (ActorCritic \<times> 'e \<times> 'g)" where
  "rollout_loop envs smp 0 acc obss0 w = (Inr acc, w)"
| "rollout_loop envs smp (Suc k) acc obss0 w =
     (case loop_body envs smp acc obss0 w of
        (Inl e, w') \<Rightarrow> (Inl e, w')
      | (Inr (stop, acc', obss0'), w') \<Rightarrow>
          if stop then (Inr acc', w') else rollout_loop envs smp k acc' obss0' w')"

text \<open>
  \<^verbatim>\<open>torch.stack(xs, dim=1)\<close> and \<^verbatim>\<open>torch.cat(xs, dim=1)\<close> on tensors given by
  their entries along the first axis.  Both raise \<open>RuntimeError\<close> on an empty list
  and when the sizes of the first axis differ.
\<close>

definition stack_dim1 :: "'a list list \<Rightarrow> error + 'a list list" where
  "stack_dim1 xs =
     (case xs of
        [] \<Rightarrow> Inl RuntimeError
      | x # _ \<Rightarrow> if list_all (\<lambda>y. length y = length x) xs
                 then Inr (map (\<lambda>b. map (\<lambda>y. y ! b) xs) [0..<length x])
                 else Inl RuntimeError)"

definition cat_dim1 :: "'a list list list \<Rightarrow> error + 'a list list" where
  "cat_dim1 xs =
     (case xs of
        [] \<Rightarrow> Inl RuntimeError
      | x # _ \<Rightarrow> if list_all (\<lambda>y. length y = length x) xs
                 then Inr (map (\<lambda>b. concat (map (\<lambda>y. y ! b) xs)) [0..<length x])
                 else Inl RuntimeError)"

text \<open>\<^verbatim>\<open>.mul(255).byte()\<close>: the product, truncated towards zero, as an unsigned byte.\<close>

definition byte :: "real \<Rightarrow> 8 word" where
  "byte v = word_of_int (if 0 \<le> v * 255 then \<lfloor>v * 255\<rfloor> else \<lceil>v * 255\<rceil>)"

text \<open>\<^verbatim>\<open>rearrange(x, 'b t 1 -> b t')\<close>: raises (a \<open>RuntimeError\<close>) unless the last axis has size 1.\<close>

definition squeeze_last :: "'a list list list \<Rightarrow> error + 'a list list" where
  "squeeze_last x =
     (if list_all (list_all (\<lambda>v. length v = 1)) x then Inr (map (map hd) x) else Inl RuntimeError)"

text \<open>The construction of the result (lines 168 to 177), field by field.\<close>

definition build_output :: "collected \<Rightarrow> error + real RolloutOutput" where
  "build_output acc =
     (if \<not> list_all (\<lambda>t. shape t = shape (hd (all_observations0 acc))) (all_observations0 acc)
      then Inl RuntimeError else
      case stack_dim1 (map images_of (all_observations0 acc)) of Inl e \<Rightarrow> Inl e | Inr obs \<Rightarrow>
      case cat_dim1 (all_actions0 acc) of Inl e \<Rightarrow> Inl e | Inr a0 \<Rightarrow>
      case cat_dim1 (all_actions1 acc) of Inl e \<Rightarrow> Inl e | Inr a1 \<Rightarrow>
      case cat_dim1 (all_logits_actions0 acc) of Inl e \<Rightarrow> Inl e | Inr l0 \<Rightarrow>
      case cat_dim1 (all_logits_actions1 acc) of Inl e \<Rightarrow> Inl e | Inr l1 \<Rightarrow>
      case cat_dim1 (all_values0 acc) of Inl e \<Rightarrow> Inl e | Inr v3 \<Rightarrow>
      case squeeze_last v3 of Inl e \<Rightarrow> Inl e | Inr v \<Rightarrow>
      case cat_dim1 (all_rewards acc) of Inl e \<Rightarrow> Inl e | Inr r \<Rightarrow>
      case cat_dim1 (all_ends acc) of Inl e \<Rightarrow> Inl e | Inr en \<Rightarrow>
        Inr \<lparr>observations = map (map (map (map (map byte)))) obs,
             actions0 = a0, actions1 = a1,
             logits_actions0 = l0, logits_actions1 = l1,
             values = v, rewards = r, ends = en\<rparr>)"

text \<open>
  Lines 122 to 165: reset the hidden state and the environment, take the first
  observation with a null action pair, and run the loop.
\<close>

definition collect :: "'e ParallelEnv \<Rightarrow> ('g \<Rightarrow> real list \<Rightarrow> nat \<times> 'g)
    \<Rightarrow> ActorCritic \<times> 'e \<times> 'g \<Rightarrow> (error + collected) \<times> (ActorCritic \<times> 'e \<times> 'g)" where
  "collect envs smp w =
     (case w of (actor0, s, g) \<Rightarrow>
        (case env_step envs (replicate (env_n envs) [0, 0]) (env_reset envs s) of
           ((obss0, obss1, r, d), s') \<Rightarrow>
             rollout_loop envs smp 200 no_records obss0 (reset (env_n envs) actor0, s', g)))"

text \<open>
  \<open>batch_rollout\<close>: collect, clear the hidden state, build the result.  An exception
  in the loop leaves before \<^verbatim>\<open>actor0.clear()\<close>.
\<close>

definition batch_rollout :: "'e ParallelEnv \<Rightarrow> ('g \<Rightarrow> real list \<Rightarrow> nat \<times> 'g)
    \<Rightarrow> ActorCritic \<times> 'e \<times> 'g \<Rightarrow> (error + real RolloutOutput) \<times> (ActorCritic \<times> 'e \<times> 'g)" where
  "batch_rollout envs smp w =
     (case collect envs smp w of
        (Inl e, w') \<Rightarrow> (Inl e, w')
      | (Inr acc, (actor0', s', g')) \<Rightarrow> (build_output acc, (clear actor0', s', g')))"

definition out_shape :: "nat \<Rightarrow> ActorCriticOutput \<Rightarrow> bool" where
  "out_shape n out \<longleftrightarrow>
     length (ActorCriticOutput.logits_actions0 out) = n \<and> list_all (mat_shape 1 7) (ActorCriticOutput.logits_actions0 out) \<and>
     length (ActorCriticOutput.logits_actions1 out) = n \<and> list_all (mat_shape 1 7) (ActorCriticOutput.logits_actions1 out) \<and>
     length (means_values out) = n \<and> list_all (mat_shape 1 1) (means_values out)"

section \<open>Numbers with a gradient\<close>

text \<open>
  \<open>compute_loss\<close> works on tensors that carry a gradient.  A number is modelled with
  its derivative with respect to one parameter of the network, any one; the
  arithmetic propagates the derivative.  \<^verbatim>\<open>.detach()\<close> keeps the number and forgets the
  derivative, and what is computed under \<^verbatim>\<open>torch.no_grad()\<close> is a constant.
\<close>

datatype dual = Dual (primal: real) (tangent: real)

definition const :: "real \<Rightarrow> dual" where
  "const c = Dual c 0"

definition detach :: "dual \<Rightarrow> dual" where
  "detach a = Dual (primal a) 0"

definition d_add :: "dual \<Rightarrow> dual \<Rightarrow> dual" where
  "d_add a b = Dual (primal a + primal b) (tangent a + tangent b)"

definition d_sub :: "dual \<Rightarrow> dual \<Rightarrow> dual" where
  "d_sub a b = Dual (primal a - primal b) (tangent a - tangent b)"

definition d_mul :: "dual \<Rightarrow> dual \<Rightarrow> dual" where
  "d_mul a b = Dual (primal a * primal b) (tangent a * primal b + primal a * tangent b)"

definition d_div :: "dual \<Rightarrow> dual \<Rightarrow> dual" where
  "d_div a b = Dual (primal a / primal b)
     ((tangent a * primal b - primal a * tangent b) / (primal b * primal b))"

definition d_neg :: "dual \<Rightarrow> dual" where
  "d_neg a = Dual (- primal a) (- tangent a)"

definition d_exp :: "dual \<Rightarrow> dual" where
  "d_exp a = Dual (exp (primal a)) (tangent a * exp (primal a))"

definition d_ln :: "dual \<Rightarrow> dual" where
  "d_ln a = Dual (ln (primal a)) (tangent a / primal a)"

definition d_sum :: "dual list \<Rightarrow> dual" where
  "d_sum xs = foldr d_add xs (const 0)"

text \<open>\<^verbatim>\<open>.mean()\<close> over all elements; on a tensor with no element it is NaN, here \<open>None\<close>.\<close>

definition d_mean :: "dual list \<Rightarrow> dual option" where
  "d_mean xs = (if xs = [] then None else Some (d_div (d_sum xs) (const (real (length xs)))))"

section \<open>The losses: \<open>compute_loss\<close>\<close>

text \<open>
  \<^verbatim>\<open>Categorical(logits=l)\<close> on one logit vector.  The distribution keeps the logits
  normalised by their log-sum-exp; \<open>log_prob\<close> reads the normalised logit of the
  action, and \<open>entropy\<close> is minus the sum of the normalised logits times the
  probabilities, which are the softmax of the normalised logits.
\<close>

definition logsumexp :: "dual list \<Rightarrow> dual" where
  "logsumexp l = d_ln (d_sum (map d_exp l))"

definition normalized :: "dual list \<Rightarrow> dual list" where
  "normalized l = map (\<lambda>x. d_sub x (logsumexp l)) l"

definition softmax :: "dual list \<Rightarrow> dual list" where
  "softmax l = map (\<lambda>x. d_div (d_exp x) (d_sum (map d_exp l))) l"

definition log_prob :: "dual list \<Rightarrow> nat \<Rightarrow> dual" where
  "log_prob l a = normalized l ! a"

definition entropy :: "dual list \<Rightarrow> dual" where
  "entropy l = d_neg (d_sum (map2 d_mul (normalized l) (softmax (normalized l))))"

text \<open>
  Modelled from the spec: the class \<open>LossWithIntermediateLosses\<close> of the module
  \<^verbatim>\<open>utils\<close>, which is not among the sources.  The specification describes the bundle
  as three scalar components (action loss, value loss, entropy loss) plus their sum.
\<close>

record LossWithIntermediateLosses =
  loss_actions :: "dual option"
  loss_values :: "dual option"
  loss_entropy :: "dual option"
  loss_total :: "dual option"

definition add_opt :: "dual option \<Rightarrow> dual option \<Rightarrow> dual option" where
  "add_opt a b = (case (a, b) of (Some x, Some y) \<Rightarrow> Some (d_add x y) | _ \<Rightarrow> None)"

definition make_losses :: "dual option \<Rightarrow> dual option \<Rightarrow> dual option \<Rightarrow> LossWithIntermediateLosses" where
  "make_losses la lv le =
     \<lparr>loss_actions = la, loss_values = lv, loss_entropy = le,
      loss_total = add_opt (add_opt la lv) le\<rparr>"

text \<open>Line 111 (and 112): \<^verbatim>\<open>-1 * (log_probs * (lambda_returns - values.detach())).mean()\<close>.\<close>

definition action_loss :: "dual list list \<Rightarrow> dual list list \<Rightarrow> dual list list \<Rightarrow> dual option" where
  "action_loss log_probs lambda_returns vals =
     map_option (d_mul (const (- 1)))
       (d_mean (concat (map2 (map2 d_mul) log_probs
          (map2 (map2 d_sub) lambda_returns (map (map detach) vals)))))"

text \<open>Line 113 (and 114): \<^verbatim>\<open>- entropy_weight * d.entropy().mean()\<close>.\<close>

definition entropy_loss :: "real \<Rightarrow> dual list list list \<Rightarrow> dual option" where
  "entropy_loss entropy_weight logits =
     map_option (d_mul (const (- entropy_weight))) (d_mean (concat (map (map entropy) logits)))"

text \<open>Line 116: \<^verbatim>\<open>F.mse_loss(values, lambda_returns)\<close>, the mean of the squared differences.\<close>

definition mse_loss :: "dual list list \<Rightarrow> dual list list \<Rightarrow> dual option" where
  "mse_loss vals lambda_returns =
     d_mean (concat (map2 (map2 (\<lambda>v r. d_mul (d_sub v r) (d_sub v r))) vals lambda_returns))"

text \<open>Line 95: the mean over the batch of the sum of the rewards of each row.\<close>

definition rewards_total :: "real list list \<Rightarrow> real option" where
  "rewards_total rs = (if rs = [] then None else Some (sum_list (map sum_list rs) / real (length rs)))"

definition dims :: "'a list list \<Rightarrow> nat list" where
  "dims xs = map length xs"

text \<open>
  \<open>compute_loss\<close>.  The function \<^verbatim>\<open>compute_lambda_returns\<close> is imported from a module
  that is not among the sources: it is the parameter \<open>clr\<close>, a function of the rewards,
  the values, the flags, \<open>gamma\<close> and \<open>lam\<close> (the source's \<^verbatim>\<open>lambda_\<close>) that returns a tensor
  or raises.  It is
  called under \<^verbatim>\<open>torch.no_grad()\<close>: it sees the values without their derivative and
  its result is a constant.  \<^verbatim>\<open>[:, :-1]\<close> drops the last entry of every row.

  \<^verbatim>\<open>Categorical(logits=...)\<close> validates its argument when it is built (lines 107 and
  108), and the validation raises \<open>RuntimeError\<close> on a tensor with no element: the
  slice of a rollout of one step, or of an empty batch.  \<open>log_prob\<close> raises
  \<open>ValueError\<close> for an action that is not an index of the logits.

  The model covers rollouts whose tensors share one shape.  Where the shapes of the
  sliced tensors differ the library raises or broadcasts; the model reports every such
  input as \<open>RuntimeError\<close>.
\<close>

definition numel :: "'a list list list \<Rightarrow> nat" where
  "numel x = length (concat (concat x))"

definition compute_loss ::
  "(real list list \<Rightarrow> real list list \<Rightarrow> bool list list \<Rightarrow> real \<Rightarrow> real \<Rightarrow> error + real list list)
    \<Rightarrow> dual RolloutOutput \<Rightarrow> real \<Rightarrow> real \<Rightarrow> real
    \<Rightarrow> error + (LossWithIntermediateLosses \<times> LossWithIntermediateLosses \<times> real option)" where
  "compute_loss clr outputs gamma lam entropy_weight =
     (case clr (rewards outputs) (map (map primal) (values outputs)) (ends outputs) gamma lam of
        Inl e \<Rightarrow> Inl e
      | Inr lr \<Rightarrow>
          (let lambda_returns = map (map const) (map butlast lr);
               vals = map butlast (values outputs);
               l0 = map butlast (logits_actions0 outputs);
               l1 = map butlast (logits_actions1 outputs);
               a0 = map butlast (actions0 outputs);
               a1 = map butlast (actions1 outputs)
           in if numel l0 = 0 then Inl RuntimeError
              else if numel l1 = 0 then Inl RuntimeError
              else if \<not> (dims l0 = dims vals \<and> dims l1 = dims vals \<and> dims a0 = dims vals \<and>
                     dims a1 = dims vals \<and> dims lambda_returns = dims vals)
              then Inl RuntimeError
              else if \<not> list_all (\<lambda>(ls, as). list_all (\<lambda>(l, a). a < length l) (zip ls as)) (zip l0 a0)
              then Inl ValueError
              else if \<not> list_all (\<lambda>(ls, as). list_all (\<lambda>(l, a). a < length l) (zip ls as)) (zip l1 a1)
              then Inl ValueError
              else
                (let log_probs0 = map2 (map2 log_prob) l0 a0;
                     log_probs1 = map2 (map2 log_prob) l1 a1;
                     loss_actions0 = action_loss log_probs0 lambda_returns vals;
                     loss_actions1 = action_loss log_probs1 lambda_returns vals;
                     loss_entropy0 = entropy_loss entropy_weight l0;
                     loss_entropy1 = entropy_loss entropy_weight l1;
                     loss_values = mse_loss vals lambda_returns
                 in Inr (make_losses loss_actions0 loss_values loss_entropy0,
                         make_losses loss_actions1 loss_values loss_entropy1,
                         rewards_total (rewards outputs)))))"

text \<open>
  Modelled from the spec: the function \<^verbatim>\<open>compute_lambda_returns\<close> of the module
  \<^verbatim>\<open>utils\<close>, which is not among the sources.  The specification: the returns are
  computed backward from the final step, with the value of the final step as the base
  case; at a step flagged by \<open>ends\<close> the return is the reward alone (no value
  continuation beyond the end of the episode); otherwise it is
  \<open>reward[t] + gamma * ((1 - lam) * value[t+1] + lam * return[t+1])\<close>, with \<open>lam\<close> for
  the source's \<^verbatim>\<open>lambda_\<close>.  The
  output has the shape of the values.  The reward and the flag of the final step are
  not read, so a row may also come without them; the specification gives no return
  (\<open>None\<close>) where a reward or a flag is missing before the final step.
\<close>

fun lambda_return_row :: "real \<Rightarrow> real \<Rightarrow> real list \<Rightarrow> real list \<Rightarrow> bool list \<Rightarrow> real list option" where
  "lambda_return_row gamma lam rs [] es = Some []"
| "lambda_return_row gamma lam rs [v] es = Some [v]"
| "lambda_return_row gamma lam (r # rs) (v # v' # vs) (e # es) =
     (case lambda_return_row gamma lam rs (v' # vs) es of
        None \<Rightarrow> None
      | Some rest \<Rightarrow>
          Some ((if e then r else r + gamma * ((1 - lam) * v' + lam * hd rest)) # rest))"
| "lambda_return_row gamma lam rs (v # v' # vs) es = None"

fun those_rows :: "'a option list \<Rightarrow> 'a list option" where
  "those_rows [] = Some []"
| "those_rows (None # xs) = None"
| "those_rows (Some x # xs) = (case those_rows xs of None \<Rightarrow> None | Some ys \<Rightarrow> Some (x # ys))"

definition compute_lambda_returns ::
  "real list list \<Rightarrow> real list list \<Rightarrow> bool list list \<Rightarrow> real \<Rightarrow> real \<Rightarrow> real list list option" where
  "compute_lambda_returns rs vs es gamma lam =
     (if length rs = length vs \<and> length es = length vs
      then those_rows (map (\<lambda>(r, v, e). lambda_return_row gamma lam r v e) (zip rs (zip vs es)))
      else None)"

text \<open>The specification's words for the terms of the losses, on real numbers.\<close>

definition spec_prob :: "real list \<Rightarrow> nat \<Rightarrow> real" where
  "spec_prob l a = exp (l ! a) / (\<Sum>j<length l. exp (l ! j))"

definition spec_log_prob :: "real list \<Rightarrow> nat \<Rightarrow> real" where
  "spec_log_prob l a = ln (spec_prob l a)"

definition spec_entropy :: "real list \<Rightarrow> real" where
  "spec_entropy l = - (\<Sum>i<length l. spec_prob l i * ln (spec_prob l i))"

text \<open>The mean over a batch of \<open>B\<close> rows and the first \<open>n\<close> steps of each.\<close>

definition spec_mean :: "nat \<Rightarrow> nat \<Rightarrow> (nat \<Rightarrow> nat \<Rightarrow> real) \<Rightarrow> real" where
  "spec_mean B n f = (\<Sum>b<B. \<Sum>t<n. f b t) / real (B * n)"

text \<open>A rollout of shape \<open>(B, T)\<close> as \<open>compute_loss\<close> receives it, with 7 actions per head.\<close>

definition rollout_shape :: "nat \<Rightarrow> nat \<Rightarrow> 'a RolloutOutput \<Rightarrow> bool" where
  "rollout_shape B T out \<longleftrightarrow>
     mat_shape B T (actions0 out) \<and> mat_shape B T (actions1 out) \<and>
     list_all (list_all (\<lambda>a. a < 7)) (actions0 out) \<and>
     list_all (list_all (\<lambda>a. a < 7)) (actions1 out) \<and>
     mat_shape B T (logits_actions0 out) \<and> mat_shape B T (logits_actions1 out) \<and>
     list_all (list_all (\<lambda>l. length l = 7)) (logits_actions0 out) \<and>
     list_all (list_all (\<lambda>l. length l = 7)) (logits_actions1 out) \<and>
     mat_shape B T (values out) \<and> mat_shape B T (rewards out) \<and> mat_shape B T (ends out)"

section \<open>Contracts and invariants\<close>

text \<open>
  What the collector relies on from the environment: every observation it returns is
  a tensor (as many elements as its shape says), and it returns one reward and one
  termination flag for each of its \<open>env_n\<close> instances.
\<close>

definition wf_env :: "'e ParallelEnv \<Rightarrow> bool" where
  "wf_env envs \<longleftrightarrow>
     (\<forall>acts s. case env_step envs acts s of
        ((o0, o1, r, d), s') \<Rightarrow> wf_tensor o0 \<and> length r = env_n envs \<and> length d = env_n envs)"

text \<open>The lists of the loop after \<open>t\<close> passes, for a batch of \<open>n\<close>.\<close>

definition collected_ok :: "nat \<Rightarrow> nat \<Rightarrow> collected \<Rightarrow> bool" where
  "collected_ok n t acc \<longleftrightarrow>
     length (all_observations0 acc) = t \<and>
     list_all (\<lambda>x. wf_tensor x \<and> shape x = [n, 3, 64, 64] \<and> list_all (\<lambda>v. 0 \<le> v \<and> v \<le> 1) (elems x))
       (all_observations0 acc) \<and>
     length (all_actions0 acc) = t \<and> list_all (mat_shape n 1) (all_actions0 acc) \<and>
     length (all_actions1 acc) = t \<and> list_all (mat_shape n 1) (all_actions1 acc) \<and>
     length (all_logits_actions0 acc) = t \<and>
     list_all (\<lambda>l. length l = n \<and> list_all (mat_shape 1 7) l) (all_logits_actions0 acc) \<and>
     length (all_logits_actions1 acc) = t \<and>
     list_all (\<lambda>l. length l = n \<and> list_all (mat_shape 1 7) l) (all_logits_actions1 acc) \<and>
     length (all_values0 acc) = t \<and>
     list_all (\<lambda>l. length l = n \<and> list_all (mat_shape 1 1) l) (all_values0 acc) \<and>
     length (all_rewards acc) = t \<and> list_all (mat_shape n 1) (all_rewards acc) \<and>
     length (all_ends acc) = t \<and> list_all (mat_shape n 1) (all_ends acc)"

text \<open>
  An environment as the specification describes it: a batch of at least one instance,
  observations of shape \<open>(n, 3, 64, 64)\<close> with values in [0, 1], and termination of
  all instances in the same step.
\<close>

definition lockstep_env :: "'e ParallelEnv \<Rightarrow> bool" where
  "lockstep_env envs \<longleftrightarrow>
     0 < env_n envs \<and>
     (\<forall>acts s. case env_step envs acts s of
        ((o0, o1, r, d), s') \<Rightarrow>
           wf_tensor o0 \<and> shape o0 = [env_n envs, 3, 64, 64] \<and>
           list_all (\<lambda>v. 0 \<le> v \<and> v \<le> 1) (elems o0) \<and>
           length r = env_n envs \<and> length d = env_n envs \<and>
           (list_ex id d \<longrightarrow> list_all id d))"

section \<open>Concrete inputs\<close>

text \<open>A module with every weight zero and no hidden state, and a grey 64 x 64 image.\<close>

definition zero_conv :: "nat \<Rightarrow> nat \<Rightarrow> real list list list list" where
  "zero_conv cout cin = replicate cout (replicate cin (replicate 3 (replicate 3 0)))"

definition zero_actor :: ActorCritic where
  "zero_actor = \<lparr>
     conv1_weight = zero_conv 32 3, conv1_bias = replicate 32 0,
     conv2_weight = zero_conv 32 32, conv2_bias = replicate 32 0,
     conv3_weight = zero_conv 64 32, conv3_bias = replicate 64 0,
     conv4_weight = zero_conv 64 64, conv4_bias = replicate 64 0,
     lstm_weight_ih = replicate 2048 (replicate 1024 0),
     lstm_weight_hh = replicate 2048 (replicate 512 0),
     lstm_bias_ih = replicate 2048 0, lstm_bias_hh = replicate 2048 0,
     critic_weight = replicate 1 (replicate 512 0), critic_bias = replicate 1 0,
     actor0_weight = replicate 7 (replicate 512 0), actor0_bias = replicate 7 0,
     actor1_weight = replicate 7 (replicate 512 0), actor1_bias = replicate 7 0,
     hx = None, cx = None\<rparr>"

definition grey_image :: image where
  "grey_image = replicate 3 (replicate 64 (replicate 64 (1 / 2)))"

definition grey_obs :: "nat \<Rightarrow> tensor" where
  "grey_obs n = \<lparr>shape = [n, 3, 64, 64], elems = replicate (n * 12288) (1 / 2)\<rparr>"

text \<open>
  Two environments without state.  In the first every instance reports termination
  in every step; in the second, of two instances, only the first one does.
\<close>

definition done_env :: "nat \<Rightarrow> unit ParallelEnv" where
  "done_env n = \<lparr>env_n = n, env_reset = (\<lambda>s. s),
     env_step = (\<lambda>acts s. ((grey_obs n, grey_obs n, replicate n 1, replicate n True), s))\<rparr>"

definition partial_env :: "unit ParallelEnv" where
  "partial_env = \<lparr>env_n = 2, env_reset = (\<lambda>s. s),
     env_step = (\<lambda>acts s. ((grey_obs 2, grey_obs 2, [1, 1], [True, False]), s))\<rparr>"

text \<open>A sampler that always draws index 0.\<close>

definition first_action :: "unit \<Rightarrow> real list \<Rightarrow> nat \<times> unit" where
  "first_action g l = (0, g)"

text \<open>A tensor of any shape with every element the same.\<close>

definition const_obs :: "nat list \<Rightarrow> real \<Rightarrow> tensor" where
  "const_obs sh v = \<lparr>shape = sh, elems = replicate (prod_list sh) v\<rparr>"

text \<open>
  For the examples, the function that \<open>compute_loss\<close> calls for the lambda-returns:
  those of the specification, raising where the specification gives no return.
\<close>

definition lambda_returns_or_raise ::
  "real list list \<Rightarrow> real list list \<Rightarrow> bool list list \<Rightarrow> real \<Rightarrow> real \<Rightarrow> error + real list list" where
  "lambda_returns_or_raise rs vs es gamma lam =
     (case compute_lambda_returns rs vs es gamma lam of None \<Rightarrow> Inl RuntimeError | Some x \<Rightarrow> Inr x)"

text \<open>
  Two rollouts of one environment, of two steps and of one step, with every logit 0
  and every value 1, each with derivative 1.
\<close>

definition two_step_rollout :: "dual RolloutOutput" where
  "two_step_rollout = \<lparr>observations = [], actions0 = [[0, 1]], actions1 = [[2, 3]],
     logits_actions0 = [[replicate 7 (Dual 0 1), replicate 7 (Dual 0 1)]],
     logits_actions1 = [[replicate 7 (Dual 0 1), replicate 7 (Dual 0 1)]],
     values = [[Dual 1 1, Dual 1 1]], rewards = [[1, 1]], ends = [[False, False]]\<rparr>"

definition one_step_rollout :: "dual RolloutOutput" where
  "one_step_rollout = \<lparr>observations = [], actions0 = [[0]], actions1 = [[2]],
     logits_actions0 = [[replicate 7 (Dual 0 1)]],
     logits_actions1 = [[replicate 7 (Dual 0 1)]],
     values = [[Dual 1 1]], rewards = [[1]], ends = [[True]]\<rparr>"

text \<open>
  The part of the result of \<open>compute_loss\<close> that trains the policy heads: the action
  loss and the entropy loss of each head (or the exception).
\<close>

definition policy_losses ::
  "error + (LossWithIntermediateLosses \<times> LossWithIntermediateLosses \<times> real option)
    \<Rightarrow> error + (dual option \<times> dual option \<times> dual option \<times> dual option)" where
  "policy_losses r =
     (case r of
        Inl e \<Rightarrow> Inl e
      | Inr (l0, l1, rt) \<Rightarrow> Inr (loss_actions l0, loss_entropy l0, loss_actions l1, loss_entropy l1))"

text \<open>
  The two-step rollout as a parameter of the value head alone sees it: the logits do
  not depend on the parameter (derivative 0), the values do (derivative 1).
\<close>

definition critic_rollout :: "dual RolloutOutput" where
  "critic_rollout = two_step_rollout
     \<lparr>logits_actions0 := [[replicate 7 (Dual 0 0), replicate 7 (Dual 0 0)]],
      logits_actions1 := [[replicate 7 (Dual 0 0), replicate 7 (Dual 0 0)]]\<rparr>"

section \<open>Shapes of the layers\<close>

lemma length_chunks: "length (chunks k xs) = length xs div k"
  by (simp add: chunks_def)

lemma chunk_bound:
  assumes "i < n div k"
  shows "i * k + k \<le> (n::nat)"
proof -
  have "Suc i \<le> n div k" using assms by simp
  then have "Suc i * k \<le> (n div k) * k" by (rule mult_le_mono1)
  also have "\<dots> \<le> n" by simp
  finally show ?thesis by (simp add: add.commute)
qed

lemma length_chunks_nth:
  assumes "i < length xs div k"
  shows "length (chunks k xs ! i) = k"
  using chunk_bound[OF assms] assms by (simp add: chunks_def)

lemma chunks_all_length: "list_all (\<lambda>c. length c = k) (chunks k xs)"
  unfolding list_all_length using length_chunks_nth[of _ xs k] by (simp add: length_chunks)

lemma chunks_nth_nth:
  assumes "i < length xs div k" "j < k"
  shows "chunks k xs ! i ! j = xs ! (i * k + j)"
  using chunk_bound[OF assms(1)] assms by (simp add: chunks_def)

lemma set_chunks: "c \<in> set (chunks k xs) \<Longrightarrow> set c \<subseteq> set xs"
  by (auto simp: chunks_def dest!: in_set_takeD in_set_dropD)

lemma length_images_of: "length (images_of t) = length (elems t) div 12288"
  by (simp add: images_of_def length_chunks)

lemma images_of_shape: "list_all (img_shape 3 64 64) (images_of t)"
proof -
  have "img_shape 3 64 64 (map (chunks 64) (chunks (64 * 64) img))" if "length img = 12288" for img :: "real list"
  proof -
    have a: "length (chunks 4096 img) = 3" using that by (simp add: length_chunks)
    have "list_all (\<lambda>c. length c = 4096) (chunks 4096 img)" by (rule chunks_all_length)
    then have "list_all (\<lambda>p. length (chunks 64 p) = 64 \<and> list_all (\<lambda>r. length r = 64) (chunks 64 p)) (chunks 4096 img)"
      by (simp add: list_all_iff length_chunks chunks_all_length[unfolded list_all_iff])
    then show ?thesis using a by (simp add: img_shape_def list_all_iff)
  qed
  moreover have "list_all (\<lambda>c. length c = 12288) (chunks 12288 (elems t))" by (rule chunks_all_length)
  ultimately show ?thesis by (simp add: images_of_def list_all_iff)
qed


lemma img_shapeD:
  assumes "img_shape c h w x" "0 < c" "0 < h"
  shows "length x = c" "img_height x = h" "img_width x = w"
proof -
  show "length x = c" using assms by (simp add: img_shape_def)
  from assms obtain p ps where x: "x = p # ps" by (cases x) (auto simp: img_shape_def)
  with assms have p: "length p = h" "list_all (\<lambda>r. length r = w) p" by (auto simp: img_shape_def)
  then show "img_height x = h" by (simp add: x img_height_def)
  from p assms obtain r rs where "p = r # rs" by (cases p) auto
  with p show "img_width x = w" by (simp add: x img_width_def)
qed

lemma conv2d_shape:
  assumes "conv_shape co ci w b" "img_shape ci h wd x" "0 < ci" "0 < h"
  shows "img_shape co h wd (conv2d w b x)"
  using assms img_shapeD[OF assms(2-4)]
  by (auto simp: conv2d_def conv_shape_def img_shape_def list_all_iff set_zip)

lemma length_pool_row: "length (pool_row xs) = length xs div 2"
  by (induction xs rule: pool_row.induct) auto

lemma max_pool_shape:
  "list_all (\<lambda>r. length r = w) p \<Longrightarrow>
   length (max_pool p) = length p div 2 \<and> list_all (\<lambda>r. length r = w div 2) (max_pool p)"
  by (induction p rule: max_pool.induct) (auto simp: length_pool_row)

lemma maxp_shape:
  assumes "img_shape c h w x"
  shows "img_shape c (h div 2) (w div 2) (maxp x)"
  using assms max_pool_shape[of w] by (auto simp: img_shape_def maxp_def list_all_iff)

lemma relu_img_shape: "img_shape c h w (relu_img x) = img_shape c h w x"
  by (auto simp: img_shape_def relu_img_def list_all_iff)

lemma rescale_shape: "img_shape c h w (rescale x) = img_shape c h w x"
  by (auto simp: img_shape_def rescale_def list_all_iff)

lemma relu_max: "relu (max a b) = max (relu a) (relu b)"
  by (simp add: relu_def max_def)

lemma pool_row_relu: "pool_row (map relu xs) = map relu (pool_row xs)"
  by (induction xs rule: pool_row.induct) (simp_all add: relu_max)

lemma map2_max_relu: "map2 max (map relu r) (map relu s) = map relu (map2 max r s)"
  by (simp add: zip_map_map relu_max split_beta)

lemma max_pool_relu: "max_pool (map (map relu) p) = map (map relu) (max_pool p)"
  by (induction p rule: max_pool.induct)
     (simp_all only: list.map max_pool.simps map2_max_relu pool_row_relu)

lemma stage_spec_stage: "stage w b x = spec_stage w b x"
  by (simp add: stage_def spec_stage_def relu_img_def maxp_def max_pool_relu)

lemma spec_stage_shape:
  assumes "conv_shape co ci w b" "img_shape ci h wd x" "0 < ci" "0 < h"
  shows "img_shape co (h div 2) (wd div 2) (spec_stage w b x)"
  unfolding spec_stage_def using conv2d_shape[OF assms] by (simp add: maxp_shape relu_img_shape)

lemma concat_length_all:
  "list_all (\<lambda>x. length x = k) xs \<Longrightarrow> length (concat xs) = length xs * k"
  by (induction xs) auto

lemma concat_all_length:
  "list_all (\<lambda>p. list_all (\<lambda>r. length r = w) p) x \<Longrightarrow> list_all (\<lambda>r. length r = w) (concat x)"
  by (induction x) auto

lemma flatten_length:
  assumes "img_shape c h w x"
  shows "length (flatten x) = c * h * w"
proof -
  have "list_all (\<lambda>r. length r = w) (concat x)"
    using assms by (intro concat_all_length) (simp add: img_shape_def list_all_iff)
  then have "length (flatten x) = length (concat x) * w"
    unfolding flatten_def by (rule concat_length_all)
  moreover have "length (concat x) = length x * h"
    using assms by (intro concat_length_all) (simp add: img_shape_def list_all_iff)
  ultimately show ?thesis using assms by (simp add: img_shape_def)
qed

lemma features_spec: "features m x = spec_features m x"
  by (simp add: features_def spec_features_def stage_spec_stage)

lemma spec_features_shapes:
  assumes "wf_weights m" "img_shape 3 64 64 x"
  shows "img_shape 32 32 32 (spec_stage (conv1_weight m) (conv1_bias m) (rescale x))"
    and "img_shape 32 16 16 (spec_stage (conv2_weight m) (conv2_bias m)
           (spec_stage (conv1_weight m) (conv1_bias m) (rescale x)))"
    and "img_shape 64 8 8 (spec_stage (conv3_weight m) (conv3_bias m) (spec_stage (conv2_weight m) (conv2_bias m)
           (spec_stage (conv1_weight m) (conv1_bias m) (rescale x))))"
    and "img_shape 64 4 4 (spec_stage (conv4_weight m) (conv4_bias m) (spec_stage (conv3_weight m) (conv3_bias m) (spec_stage (conv2_weight m) (conv2_bias m)
           (spec_stage (conv1_weight m) (conv1_bias m) (rescale x)))))"
    and "length (spec_features m x) = 1024"
proof -
  let ?s1 = "spec_stage (conv1_weight m) (conv1_bias m) (rescale x)"
  let ?s2 = "spec_stage (conv2_weight m) (conv2_bias m) ?s1"
  let ?s3 = "spec_stage (conv3_weight m) (conv3_bias m) ?s2"
  let ?s4 = "spec_stage (conv4_weight m) (conv4_bias m) ?s3"
  have x: "img_shape 3 64 64 (rescale x)" using assms(2) by (simp add: rescale_shape)
  show 1: "img_shape 32 32 32 ?s1"
    using spec_stage_shape[of 32 3 "conv1_weight m" "conv1_bias m" 64 64, OF _ x] assms(1)
    by (simp add: wf_weights_def)
  show 2: "img_shape 32 16 16 ?s2"
    using spec_stage_shape[of 32 32 "conv2_weight m" "conv2_bias m" 32 32, OF _ 1] assms(1)
    by (simp add: wf_weights_def)
  show 3: "img_shape 64 8 8 ?s3"
    using spec_stage_shape[of 64 32 "conv3_weight m" "conv3_bias m" 16 16, OF _ 2] assms(1)
    by (simp add: wf_weights_def)
  show 4: "img_shape 64 4 4 ?s4"
    using spec_stage_shape[of 64 64 "conv4_weight m" "conv4_bias m" 8 8, OF _ 3] assms(1)
    by (simp add: wf_weights_def)
  show "length (spec_features m x) = 1024"
    unfolding spec_features_def using flatten_length[OF 4] by simp
qed


lemma length_linear: "length (linear w b x) = min (length w) (length b)"
  by (simp add: linear_def)

lemma lstm_cell_shape:
  assumes "wf_weights m" "length c = 512"
  shows "length (fst (lstm_cell m x (h, c))) = 512 \<and> length (snd (lstm_cell m x (h, c))) = 512"
  using assms
  by (simp add: lstm_cell_def Let_def length_linear wf_weights_def linear_shape_def mat_shape_def lstm_dim_def)

lemma lstm_shape:
  assumes "wf_weights m" "list_all (\<lambda>x. length x = 1024) xs" "length xs = n"
    "mat_shape n 512 h" "mat_shape n 512 c"
  shows "\<exists>h' c'. lstm m xs (Some h, Some c) = Inr (h', c') \<and> mat_shape n 512 h' \<and> mat_shape n 512 c'"
proof -
  let ?r = "map2 (lstm_cell m) xs (zip h c)"
  have len: "length h = n" "length c = n" using assms by (simp_all add: mat_shape_def)
  have "length (fst (lstm_cell m x hc)) = 512 \<and> length (snd (lstm_cell m x hc)) = 512"
    if "hc \<in> set (zip h c)" for x hc
  proof -
    obtain a b where hc: "hc = (a, b)" by (cases hc)
    with that have "b \<in> set c" by (auto dest: set_zip_rightD)
    with assms(5) have "length b = 512" by (simp add: mat_shape_def list_all_iff)
    with lstm_cell_shape[OF assms(1)] hc show ?thesis by simp
  qed
  then have "list_all (\<lambda>r. length (fst r) = 512 \<and> length (snd r) = 512) ?r"
    by (auto simp: list_all_iff dest: set_zip_rightD)
  then have "mat_shape n 512 (map fst ?r) \<and> mat_shape n 512 (map snd ?r)"
    using len assms(3) by (simp add: mat_shape_def list_all_iff)
  moreover have "lstm m xs (Some h, Some c) = Inr (map fst ?r, map snd ?r)"
    using assms(2,3) len by (simp add: lstm_def Let_def)
  ultimately show ?thesis by blast
qed

lemma features_length:
  assumes "wf_weights m" "img_shape 3 64 64 x"
  shows "length (features m x) = 1024"
  using spec_features_shapes(5)[OF assms] by (simp add: features_spec)

lemma features_all_length:
  assumes "wf_weights m"
  shows "list_all (\<lambda>x. length x = 1024) (map (features m) (images_of t))"
  using images_of_shape[of t] features_length[OF assms] by (simp add: list_all_iff)

lemma range_checks:
  assumes "xs \<noteq> []"
  shows "(0 \<le> Min (set xs) \<and> Min (set xs) \<le> 1 \<and> 0 \<le> Max (set xs) \<and> Max (set xs) \<le> (1::real))
     \<longleftrightarrow> (\<forall>v\<in>set xs. 0 \<le> v \<and> v \<le> 1)"
proof -
  have ne: "set xs \<noteq> {}" "finite (set xs)" using assms by simp_all
  have "Min (set xs) \<le> Max (set xs)" using ne by simp
  then show ?thesis using ne by (auto simp: Min_ge_iff Max_le_iff)
qed

lemma forward_assert:
  assumes "\<not> (length (shape inputs) = 4 \<and> tl (shape inputs) = [3, 64, 64]) \<or> (\<exists>v\<in>set (elems inputs). v < 0 \<or> 1 < v)"
  shows "forward m inputs = (Inl AssertionError, m)"
proof (cases "length (shape inputs) = 4 \<and> tl (shape inputs) = [3, 64, 64]")
  case False
  then show ?thesis by (simp add: forward_def)
next
  case True
  with assms obtain v where v: "v \<in> set (elems inputs)" "v < 0 \<or> 1 < v" by blast
  then have ne: "elems inputs \<noteq> []" by auto
  have "\<not> (\<forall>v\<in>set (elems inputs). 0 \<le> v \<and> v \<le> 1)" using v by force
  then show ?thesis using True ne by (simp only: forward_def range_checks[OF ne, symmetric]) simp
qed

lemma forward_ok:
  assumes "wf_weights m" "wf_tensor inputs" "shape inputs = [N, 3, 64, 64]" "0 < N"
    "\<forall>v\<in>set (elems inputs). 0 \<le> v \<and> v \<le> 1" "present N m"
  shows "\<exists>out m'. forward m inputs = (Inr out, m') \<and> out_shape N out \<and> present N m'"
proof -
  have len: "length (elems inputs) = N * 12288" using assms(2,3) by (simp add: wf_tensor_def)
  then have ne: "elems inputs \<noteq> []" using assms(4) by auto
  from assms(6) obtain h c where hc: "hx m = Some h" "cx m = Some c" "mat_shape N 512 h" "mat_shape N 512 c"
    by (auto simp: present_def split: option.splits)
  have n: "length (map (features m) (images_of inputs)) = N" using len by (simp add: length_images_of)
  from lstm_shape[OF assms(1) features_all_length[OF assms(1)] n hc(3,4)]
  obtain h' c' where l: "lstm m (map (features m) (images_of inputs)) (Some h, Some c) = Inr (h', c')"
    "mat_shape N 512 h'" "mat_shape N 512 c'" by blast
  let ?out = "\<lparr>ActorCriticOutput.logits_actions0 = map (\<lambda>a. [a]) (map (linear (actor0_weight m) (actor0_bias m)) h'),
                   ActorCriticOutput.logits_actions1 = map (\<lambda>a. [a]) (map (linear (actor1_weight m) (actor1_bias m)) h'),
                   means_values = map (\<lambda>v. [v]) (map (linear (critic_weight m) (critic_bias m)) h')\<rparr>"
  have f: "forward m inputs = (Inr ?out, m\<lparr>hx := Some h', cx := Some c'\<rparr>)"
    using assms(3) ne assms(5) l(1) hc(1,2)
    by (simp only: forward_def range_checks[OF ne]) simp
  have "out_shape N ?out"
    using l(2) assms(1)
    by (simp add: out_shape_def mat_shape_def list_all_iff length_linear wf_weights_def linear_shape_def)
  moreover have "present N (m\<lparr>hx := Some h', cx := Some c'\<rparr>)" using l(2,3) by (simp add: present_def)
  ultimately show ?thesis using f by blast
qed

section \<open>The state of the module across \<open>forward\<close>\<close>

lemma lstm_Inr_D:
  assumes "lstm m xs (hx0, cx0) = Inr (h', c')"
  shows "\<exists>h c. hx0 = Some h \<and> cx0 = Some c \<and> list_all (\<lambda>x. length x = 1024) xs \<and>
     length xs = length h \<and> length xs = length c"
  using assms by (auto simp: lstm_def split: option.splits if_splits)

lemma forward_cases:
  "forward m x = (Inl AssertionError, m) \<or> forward m x = (Inl RuntimeError, m) \<or>
   forward m x = (Inl AttributeError, m) \<or>
   (\<exists>h c h' c' out. hx m = Some h \<and> cx m = Some c \<and>
      length (shape x) = 4 \<and> tl (shape x) = [3, 64, 64] \<and> elems x \<noteq> [] \<and>
      (\<forall>v\<in>set (elems x). 0 \<le> v \<and> v \<le> 1) \<and>
      lstm m (map (features m) (images_of x)) (Some h, Some c) = Inr (h', c') \<and>
      forward m x = (Inr out, m\<lparr>hx := Some h', cx := Some c'\<rparr>))"
proof (cases "length (shape x) = 4 \<and> tl (shape x) = [3, 64, 64]")
  case False
  then show ?thesis by (simp add: forward_def)
next
  case sh: True
  show ?thesis
  proof (cases "elems x = []")
    case True
    then show ?thesis using sh by (simp add: forward_def)
  next
    case ne: False
    show ?thesis
    proof (cases "\<forall>v\<in>set (elems x). 0 \<le> v \<and> v \<le> 1")
      case False
      then have "forward m x = (Inl AssertionError, m)"
        using sh ne by (simp only: forward_def range_checks[OF ne]) simp
      then show ?thesis by simp
    next
      case rg: True
      show ?thesis
      proof (cases "lstm m (map (features m) (images_of x)) (hx m, cx m)")
        case (Inl e)
        then have "forward m x = (Inl e, m)"
          using sh ne rg by (simp only: forward_def range_checks[OF ne]) simp
        moreover have "e = RuntimeError \<or> e = AttributeError"
          using Inl by (auto simp: lstm_def split: option.splits if_splits)
        ultimately show ?thesis by auto
      next
        case (Inr r)
        obtain h' c' where r: "r = (h', c')" by (cases r)
        from lstm_Inr_D[OF Inr[unfolded r]] obtain h c where hc: "hx m = Some h" "cx m = Some c" by blast
        have "\<exists>out. forward m x = (Inr out, m\<lparr>hx := Some h', cx := Some c'\<rparr>)"
          using sh ne rg Inr r by (simp only: forward_def range_checks[OF ne]) simp
        then show ?thesis using sh ne rg Inr r hc by auto
      qed
    qed
  qed
qed


lemma wf_weights_hidden: "wf_weights (m\<lparr>hx := a, cx := b\<rparr>) = wf_weights m"
  by (simp add: wf_weights_def)

lemma forward_weights: "wf_weights (snd (forward m x)) = wf_weights m"
  using forward_cases[of m x] by (auto simp: wf_weights_hidden)

lemma forward_present:
  assumes "wf_weights m" "present n m"
  shows "present n (snd (forward m x))"
proof -
  from forward_cases[of m x] show ?thesis
  proof (elim disjE exE conjE)
    fix h c h' c' out
    assume hc: "hx m = Some h" "cx m = Some c"
      and l: "lstm m (map (features m) (images_of x)) (Some h, Some c) = Inr (h', c')"
      and f: "forward m x = (Inr out, m\<lparr>hx := Some h', cx := Some c'\<rparr>)"
    from assms(2) hc have sh: "mat_shape n 512 h" "mat_shape n 512 c" by (simp_all add: present_def)
    from lstm_Inr_D[OF l] have len: "list_all (\<lambda>x. length x = 1024) (map (features m) (images_of x))"
      "length (map (features m) (images_of x)) = n" using sh by (auto simp: mat_shape_def)
    from lstm_shape[OF assms(1) len sh] l have "mat_shape n 512 h'" "mat_shape n 512 c'" by auto
    then show ?thesis using f by (simp add: present_def)
  qed (use assms in auto)
qed

lemma forward_absent:
  assumes "absent m"
  shows "\<exists>e. forward m x = (Inl e, m)"
  using forward_cases[of m x] assms by (auto simp: absent_def)

lemma forward_Inr_shapes:
  assumes "wf_weights m" "wf_tensor x" "present n m" "forward m x = (Inr out, m')"
  shows "shape x = [n, 3, 64, 64] \<and> 0 < n \<and> (\<forall>v\<in>set (elems x). 0 \<le> v \<and> v \<le> 1) \<and>
     out_shape n out \<and> present n m' \<and> wf_weights m'"
proof -
  from forward_cases[of m x] assms(4) obtain h c h' c' where
    hc: "hx m = Some h" "cx m = Some c"
    and sh: "length (shape x) = 4" "tl (shape x) = [3, 64, 64]" and ne: "elems x \<noteq> []"
    and rg: "\<forall>v\<in>set (elems x). 0 \<le> v \<and> v \<le> 1"
    and l: "lstm m (map (features m) (images_of x)) (Some h, Some c) = Inr (h', c')"
    by auto
  from sh obtain N where N: "shape x = [N, 3, 64, 64]" by (cases "shape x") auto
  from assms(3) hc have "length h = n" by (simp add: present_def mat_shape_def)
  with lstm_Inr_D[OF l] have "length (images_of x) = n" by auto
  moreover have "length (elems x) = N * 12288" using assms(2) N by (simp add: wf_tensor_def)
  ultimately have "N = n" by (simp add: length_images_of)
  moreover have "0 < N" using ne \<open>length (elems x) = N * 12288\<close> by (cases N) auto
  ultimately have x: "shape x = [n, 3, 64, 64]" "0 < n" using N by simp_all
  from forward_ok[OF assms(1,2) x rg assms(3)] assms(4) have "out_shape n out" "present n m'" by auto
  moreover have "wf_weights m'" using forward_weights[of m x] assms(1,4) by simp
  ultimately show ?thesis using x rg by simp
qed

lemma length_sample_list: "sample_list smp g ls = (as, g') \<Longrightarrow> length as = length ls"
  by (induction ls arbitrary: g as g') (auto split: prod.splits)

lemma sample_shape:
  "list_all (\<lambda>r. length r = k) rs \<Longrightarrow> mat_shape (length rs) k (fst (sample smp g rs))"
proof (induction rs arbitrary: g)
  case Nil
  then show ?case by (simp add: mat_shape_def)
next
  case (Cons r rs)
  obtain as g' where a: "sample_list smp g r = (as, g')" by (cases "sample_list smp g r")
  obtain bs g'' where b: "sample smp g' rs = (bs, g'')" by (cases "sample smp g' rs")
  have "length as = length r" using length_sample_list[OF a] .
  moreover have "mat_shape (length rs) k bs" using Cons.IH[of g'] Cons.prems b by simp
  ultimately show ?case using a b Cons.prems by (simp add: mat_shape_def)
qed


lemma concat_singletons:
  "list_all (\<lambda>y. length (f y) = 1) xs \<Longrightarrow> concat (map f xs) = map (\<lambda>y. hd (f y)) xs"
proof (induction xs)
  case Nil
  then show ?case by simp
next
  case (Cons y ys)
  then obtain v where "f y = [v]" by (cases "f y") auto
  with Cons show ?case by simp
qed

lemma cat_dim1_columns:
  assumes "xs \<noteq> []" "list_all (mat_shape n 1) xs"
  shows "cat_dim1 xs = Inr (map (\<lambda>b. map (\<lambda>y. hd (y ! b)) xs) [0..<n])"
proof -
  from assms(1) obtain x xs' where xs: "xs = x # xs'" by (cases xs) auto
  have len: "list_all (\<lambda>y. length y = n) xs" "length x = n"
    using assms(2) xs by (auto simp: mat_shape_def list_all_iff)
  have "concat (map (\<lambda>y. y ! b) xs) = map (\<lambda>y. hd (y ! b)) xs" if "b < n" for b
    using assms(2) that by (intro concat_singletons) (auto simp: mat_shape_def list_all_iff)
  then have "map (\<lambda>b. concat (map (\<lambda>y. y ! b) xs)) [0..<n] = map (\<lambda>b. map (\<lambda>y. hd (y ! b)) xs) [0..<n]"
    by simp
  then show ?thesis using len by (simp add: cat_dim1_def xs)
qed

lemma stack_dim1_columns:
  assumes "xs \<noteq> []" "list_all (\<lambda>y. length y = n) xs"
  shows "stack_dim1 xs = Inr (map (\<lambda>b. map (\<lambda>y. y ! b) xs) [0..<n])"
proof -
  from assms(1) obtain x xs' where xs: "xs = x # xs'" by (cases xs) auto
  then show ?thesis using assms(2) by (simp add: stack_dim1_def)
qed

section \<open>The loop of \<open>batch_rollout\<close>\<close>

lemma wf_envD:
  assumes "wf_env envs" "env_step envs acts s = ((o0, o1, r, d), s')"
  shows "wf_tensor o0 \<and> length r = env_n envs \<and> length d = env_n envs"
proof -
  from assms(1) have "\<forall>acts s. case env_step envs acts s of
      ((x0, x1, xr, xd), xs) \<Rightarrow> wf_tensor x0 \<and> length xr = env_n envs \<and> length xd = env_n envs"
    by (simp add: wf_env_def)
  then have "case env_step envs acts s of
      ((x0, x1, xr, xd), xs) \<Rightarrow> wf_tensor x0 \<and> length xr = env_n envs \<and> length xd = env_n envs"
    by (elim allE)
  then show ?thesis using assms(2) by simp
qed

lemma loop_body_raise:
  assumes "forward a obs = (Inl e, a1)"
  shows "loop_body envs smp acc obs (a, s, g) = (Inl e, (a1, s, g))"
  using assms by (simp add: loop_body_def)

lemma loop_body_eq:
  assumes "forward a obs = (Inr out, a1)"
    "sample smp g (ActorCriticOutput.logits_actions0 out) = (t0, g1)"
    "sample smp g1 (ActorCriticOutput.logits_actions1 out) = (t1, g2)"
    "env_step envs (map2 append t0 t1) s = ((ob0, ob1, rw, dn), s2)"
  shows "loop_body envs smp acc obs (a, s, g) =
     (if list_ex id dn
      then (if list_all id dn
            then (Inr (True, record_outcome (record_step acc obs out t0 t1) rw dn, ob0), (a1, s2, g2))
            else (Inl AssertionError, (a1, s2, g2)))
      else (Inr (False, record_outcome (record_step acc obs out t0 t1) rw dn, ob0), (a1, s2, g2)))"
  using assms by (simp add: loop_body_def Let_def)

lemma record_ok:
  assumes "collected_ok n t acc" "wf_tensor obs" "shape obs = [n, 3, 64, 64]"
    "\<forall>v\<in>set (elems obs). 0 \<le> v \<and> v \<le> 1" "out_shape n out"
    "mat_shape n 1 t0" "mat_shape n 1 t1" "length rw = n" "length dn = n"
  shows "collected_ok n (Suc t) (record_outcome (record_step acc obs out t0 t1) rw dn)"
  using assms
  by (simp add: collected_ok_def record_outcome_def record_step_def out_shape_def mat_shape_def list_all_iff)

lemma loop_body_step:
  assumes "wf_weights a" "wf_env envs" "present (env_n envs) a" "wf_tensor obs"
    "collected_ok (env_n envs) t acc"
    "loop_body envs smp acc obs (a, s, g) = (Inr (stop, acc', obs'), (a', s', g'))"
  shows "collected_ok (env_n envs) (Suc t) acc' \<and> present (env_n envs) a' \<and> wf_weights a' \<and>
     wf_tensor obs' \<and> 0 < env_n envs \<and> take t (all_ends acc') = all_ends acc \<and>
     list_all (\<lambda>d. d = [stop]) (all_ends acc' ! t)"
proof -
  let ?n = "env_n envs"
  obtain r a1 where f0: "forward a obs = (r, a1)" by (cases "forward a obs")
  with assms(6) obtain out where f: "forward a obs = (Inr out, a1)"
    by (cases r) (simp_all add: loop_body_def)
  obtain t0 g1 where s0: "sample smp g (ActorCriticOutput.logits_actions0 out) = (t0, g1)"
    by (cases "sample smp g (ActorCriticOutput.logits_actions0 out)")
  obtain t1 g2 where s1: "sample smp g1 (ActorCriticOutput.logits_actions1 out) = (t1, g2)"
    by (cases "sample smp g1 (ActorCriticOutput.logits_actions1 out)")
  obtain p s2 where st0: "env_step envs (map2 append t0 t1) s = (p, s2)"
    by (cases "env_step envs (map2 append t0 t1) s")
  obtain ob0 ob1 rw dn where "p = (ob0, ob1, rw, dn)" by (cases p)
  with st0 have st: "env_step envs (map2 append t0 t1) s = ((ob0, ob1, rw, dn), s2)" by simp
  note body = loop_body_eq[OF f s0 s1 st, of acc]
  from forward_Inr_shapes[OF assms(1,4,3) f]
  have fs: "shape obs = [?n, 3, 64, 64]" "0 < ?n" "\<forall>v\<in>set (elems obs). 0 \<le> v \<and> v \<le> 1"
    "out_shape ?n out" "present ?n a1" "wf_weights a1" by simp_all
  have e: "wf_tensor ob0" "length rw = ?n" "length dn = ?n"
    using wf_envD[OF assms(2) st] by simp_all
  have m0: "mat_shape ?n 1 t0"
    using sample_shape[of 1 "ActorCriticOutput.logits_actions0 out" smp g] fs(4) s0
    by (simp add: out_shape_def mat_shape_def list_all_iff)
  have m1: "mat_shape ?n 1 t1"
    using sample_shape[of 1 "ActorCriticOutput.logits_actions1 out" smp g1] fs(4) s1
    by (simp add: out_shape_def mat_shape_def list_all_iff)
  let ?acc = "record_outcome (record_step acc obs out t0 t1) rw dn"
  have ok: "collected_ok ?n (Suc t) ?acc"
    by (rule record_ok[OF assms(5,4) fs(1,3,4) m0 m1 e(2,3)])
  have lenE: "length (all_ends acc) = t" using assms(5) by (simp add: collected_ok_def)
  have tk: "take t (all_ends ?acc) = all_ends acc" "all_ends ?acc ! t = map (\<lambda>d. [d]) dn"
    using lenE by (auto simp: record_outcome_def record_step_def nth_append)
  from assms(6) body have res: "acc' = ?acc" "obs' = ob0" "a' = a1"
    "stop = list_ex id dn" "list_ex id dn \<longrightarrow> list_all id dn"
    by (auto split: if_splits)
  have "list_all (\<lambda>d. d = [stop]) (map (\<lambda>d. [d]) dn)"
    using res(4,5) by (auto simp: list_all_iff list_ex_iff)
  then show ?thesis using ok fs e tk res by simp
qed


lemma rollout_loop_inv:
  assumes "wf_env envs"
  shows "rollout_loop envs smp k acc obs (a, s, g) = (Inr acc', (a', s', g')) \<Longrightarrow>
    wf_weights a \<Longrightarrow> present (env_n envs) a \<Longrightarrow> wf_tensor obs \<Longrightarrow>
    collected_ok (env_n envs) t acc \<Longrightarrow>
    list_all (list_all (\<lambda>d. d = [False])) (all_ends acc) \<Longrightarrow>
    (k = 0 \<and> acc' = acc) \<or>
    (\<exists>T. t < T \<and> T \<le> t + k \<and> 0 < env_n envs \<and> collected_ok (env_n envs) T acc' \<and>
       list_all (list_all (\<lambda>d. d = [False])) (take (T - 1) (all_ends acc')) \<and>
       (list_all (\<lambda>d. d = [True]) (all_ends acc' ! (T - 1)) \<or>
        T = t + k \<and> list_all (\<lambda>d. d = [False]) (all_ends acc' ! (T - 1))))"
proof (induction k arbitrary: acc obs a s g t)
  case 0
  then show ?case by simp
next
  case (Suc k)
  let ?n = "env_n envs"
  obtain r w1 where b0: "loop_body envs smp acc obs (a, s, g) = (r, w1)"
    by (cases "loop_body envs smp acc obs (a, s, g)")
  with Suc.prems(1) obtain q where r: "r = Inr q" by (cases r) simp_all
  obtain stop acc1 obs1 where q: "q = (stop, acc1, obs1)" by (cases q)
  obtain a1 s1 g1 where w1: "w1 = (a1, s1, g1)" by (cases w1)
  have b: "loop_body envs smp acc obs (a, s, g) = (Inr (stop, acc1, obs1), (a1, s1, g1))"
    using b0 r q w1 by simp
  from loop_body_step[OF Suc.prems(2) assms Suc.prems(3,4,5) b]
  have st: "collected_ok ?n (Suc t) acc1" "present ?n a1" "wf_weights a1" "wf_tensor obs1"
    "0 < ?n" "take t (all_ends acc1) = all_ends acc" "list_all (\<lambda>d. d = [stop]) (all_ends acc1 ! t)"
    by simp_all
  have len1: "length (all_ends acc1) = Suc t" using st(1) by (simp add: collected_ok_def)
  show ?case
  proof (cases stop)
    case True
    with Suc.prems(1) b have "acc' = acc1" by simp
    then have "Suc t \<le> t + Suc k \<and> collected_ok ?n (Suc t) acc' \<and>
       list_all (list_all (\<lambda>d. d = [False])) (take (Suc t - 1) (all_ends acc')) \<and>
       list_all (\<lambda>d. d = [True]) (all_ends acc' ! (Suc t - 1))"
      using st True Suc.prems(6) by simp
    then show ?thesis using st(5) by blast
  next
    case False
    with Suc.prems(1) b have rec: "rollout_loop envs smp k acc1 obs1 (a1, s1, g1) = (Inr acc', (a', s', g'))"
      by simp
    have "all_ends acc1 = take t (all_ends acc1) @ [all_ends acc1 ! t]"
      using len1 take_Suc_conv_app_nth[of t "all_ends acc1"] by simp
    then have e1: "all_ends acc1 = all_ends acc @ [all_ends acc1 ! t]" using st(6) by simp
    have allF: "list_all (list_all (\<lambda>d. d = [False])) (all_ends acc1)"
      using Suc.prems(6) st(7) False by (subst e1) simp
    from Suc.IH[OF rec st(3,2,4,1) allF]
    have ih: "(k = 0 \<and> acc' = acc1) \<or>
      (\<exists>T. Suc t < T \<and> T \<le> Suc t + k \<and> 0 < ?n \<and> collected_ok ?n T acc' \<and>
         list_all (list_all (\<lambda>d. d = [False])) (take (T - 1) (all_ends acc')) \<and>
         (list_all (\<lambda>d. d = [True]) (all_ends acc' ! (T - 1)) \<or>
          T = Suc t + k \<and> list_all (\<lambda>d. d = [False]) (all_ends acc' ! (T - 1))))" .
    show ?thesis
    proof (cases "k = 0 \<and> acc' = acc1")
      case True
      then have "Suc t \<le> t + Suc k \<and> collected_ok ?n (Suc t) acc' \<and>
         list_all (list_all (\<lambda>d. d = [False])) (take (Suc t - 1) (all_ends acc')) \<and>
         Suc t = t + Suc k \<and> list_all (\<lambda>d. d = [False]) (all_ends acc' ! (Suc t - 1))"
        using st False Suc.prems(6) by simp
      then show ?thesis using st(5) by blast
    next
      case nk: False
      with ih obtain T where T: "Suc t < T" "T \<le> Suc t + k" "0 < ?n" "collected_ok ?n T acc'"
        "list_all (list_all (\<lambda>d. d = [False])) (take (T - 1) (all_ends acc'))"
        "list_all (\<lambda>d. d = [True]) (all_ends acc' ! (T - 1)) \<or>
         T = Suc t + k \<and> list_all (\<lambda>d. d = [False]) (all_ends acc' ! (T - 1))"
        by blast
      then have "t < T \<and> T \<le> t + Suc k \<and> 0 < ?n \<and> collected_ok ?n T acc' \<and>
         list_all (list_all (\<lambda>d. d = [False])) (take (T - 1) (all_ends acc')) \<and>
         (list_all (\<lambda>d. d = [True]) (all_ends acc' ! (T - 1)) \<or>
          T = t + Suc k \<and> list_all (\<lambda>d. d = [False]) (all_ends acc' ! (T - 1)))"
        by auto
      then show ?thesis by blast
    qed
  qed
qed

lemma rollout_loop_actor:
  "rollout_loop envs smp k acc obs (a, s, g) = (Inr acc', (a', s', g')) \<Longrightarrow>
    wf_weights a \<Longrightarrow> present n a \<Longrightarrow> present n a'"
proof (induction k arbitrary: acc obs a s g)
  case 0
  then show ?case by simp
next
  case (Suc k)
  obtain r a1 where f0: "forward a obs = (r, a1)" by (cases "forward a obs")
  have a1: "present n a1" "wf_weights a1"
    using forward_present[OF Suc.prems(2,3), of obs] forward_weights[of a obs] Suc.prems(2) f0 by simp_all
  show ?case
  proof (cases r)
    case (Inl e)
    with Suc.prems(1) loop_body_raise[of a obs e a1 envs smp acc s g] f0 show ?thesis by simp
  next
    case (Inr out)
    obtain t0 g1 where s0: "sample smp g (ActorCriticOutput.logits_actions0 out) = (t0, g1)"
      by (cases "sample smp g (ActorCriticOutput.logits_actions0 out)")
    obtain t1 g2 where s1: "sample smp g1 (ActorCriticOutput.logits_actions1 out) = (t1, g2)"
      by (cases "sample smp g1 (ActorCriticOutput.logits_actions1 out)")
    obtain p s2 where st0: "env_step envs (map2 append t0 t1) s = (p, s2)"
      by (cases "env_step envs (map2 append t0 t1) s")
    obtain ob0 ob1 rw dn where "p = (ob0, ob1, rw, dn)" by (cases p)
    with st0 have st: "env_step envs (map2 append t0 t1) s = ((ob0, ob1, rw, dn), s2)" by simp
    note body = loop_body_eq[OF f0[unfolded Inr] s0 s1 st, of acc]
    show ?thesis
    proof (cases "list_ex id dn")
      case True
      with Suc.prems(1) body have "a' = a1" by (auto split: if_splits)
      with a1 show ?thesis by simp
    next
      case False
      with Suc.prems(1) body
      have "rollout_loop envs smp k (record_outcome (record_step acc obs out t0 t1) rw dn) ob0 (a1, s2, g2)
          = (Inr acc', (a', s', g'))" by simp
      from Suc.IH[OF this a1(2,1)] show ?thesis .
    qed
  qed
qed

lemma columns_shape: "mat_shape n (length xs) (map (\<lambda>b. map (\<lambda>y. f (y ! b)) xs) [0..<n])"
  by (simp add: mat_shape_def list_all_iff)

lemma squeeze_last_columns:
  assumes "list_all (\<lambda>l. length l = n \<and> list_all (mat_shape 1 1) l) xs"
  shows "squeeze_last (map (\<lambda>b. map (\<lambda>y. hd (y ! b)) xs) [0..<n])
     = Inr (map (\<lambda>b. map (\<lambda>y. hd (hd (y ! b))) xs) [0..<n])"
proof -
  have "length (hd (y ! b)) = 1" if "y \<in> set xs" "b < n" for y b
  proof -
    from assms that have "length y = n" "list_all (mat_shape 1 1) y" by (auto simp: list_all_iff)
    with that have "mat_shape 1 1 (y ! b)" by (auto simp: list_all_length)
    then show ?thesis by (cases "y ! b") (auto simp: mat_shape_def)
  qed
  then show ?thesis by (simp add: squeeze_last_def list_all_iff comp_def)
qed

lemma build_output_ok:
  assumes "collected_ok n t acc" "0 < t"
  shows "build_output acc = Inr
     \<lparr>observations = map (map (map (map (map byte))))
        (map (\<lambda>b. map (\<lambda>y. y ! b) (map images_of (all_observations0 acc))) [0..<n]),
      actions0 = map (\<lambda>b. map (\<lambda>y. hd (y ! b)) (all_actions0 acc)) [0..<n],
      actions1 = map (\<lambda>b. map (\<lambda>y. hd (y ! b)) (all_actions1 acc)) [0..<n],
      logits_actions0 = map (\<lambda>b. map (\<lambda>y. hd (y ! b)) (all_logits_actions0 acc)) [0..<n],
      logits_actions1 = map (\<lambda>b. map (\<lambda>y. hd (y ! b)) (all_logits_actions1 acc)) [0..<n],
      values = map (\<lambda>b. map (\<lambda>y. hd (hd (y ! b))) (all_values0 acc)) [0..<n],
      rewards = map (\<lambda>b. map (\<lambda>y. hd (y ! b)) (all_rewards acc)) [0..<n],
      ends = map (\<lambda>b. map (\<lambda>y. hd (y ! b)) (all_ends acc)) [0..<n]\<rparr>"
proof -
  note ok = assms(1)[unfolded collected_ok_def]
  have ne: "all_observations0 acc \<noteq> []" "all_actions0 acc \<noteq> []" "all_actions1 acc \<noteq> []"
    "all_logits_actions0 acc \<noteq> []" "all_logits_actions1 acc \<noteq> []" "all_values0 acc \<noteq> []"
    "all_rewards acc \<noteq> []" "all_ends acc \<noteq> []"
    using ok assms(2) by auto
  have sh: "list_all (\<lambda>t. shape t = shape (hd (all_observations0 acc))) (all_observations0 acc)"
  proof -
    have "hd (all_observations0 acc) \<in> set (all_observations0 acc)" using ne(1) by simp
    then have "shape (hd (all_observations0 acc)) = [n, 3, 64, 64]" using ok by (simp add: list_all_iff)
    then show ?thesis using ok by (simp add: list_all_iff)
  qed
  have "list_all (\<lambda>y. length y = n) (map images_of (all_observations0 acc))"
    using ok by (auto simp: list_all_iff length_images_of wf_tensor_def)
  then have o: "stack_dim1 (map images_of (all_observations0 acc))
      = Inr (map (\<lambda>b. map (\<lambda>y. y ! b) (map images_of (all_observations0 acc))) [0..<n])"
    using ne(1) by (intro stack_dim1_columns) simp_all
  have a0: "cat_dim1 (all_actions0 acc) = Inr (map (\<lambda>b. map (\<lambda>y. hd (y ! b)) (all_actions0 acc)) [0..<n])"
    using ok ne by (intro cat_dim1_columns) simp_all
  have a1: "cat_dim1 (all_actions1 acc) = Inr (map (\<lambda>b. map (\<lambda>y. hd (y ! b)) (all_actions1 acc)) [0..<n])"
    using ok ne by (intro cat_dim1_columns) simp_all
  have l0: "cat_dim1 (all_logits_actions0 acc)
      = Inr (map (\<lambda>b. map (\<lambda>y. hd (y ! b)) (all_logits_actions0 acc)) [0..<n])"
    using ok ne by (intro cat_dim1_columns) (auto simp: list_all_iff mat_shape_def)
  have l1: "cat_dim1 (all_logits_actions1 acc)
      = Inr (map (\<lambda>b. map (\<lambda>y. hd (y ! b)) (all_logits_actions1 acc)) [0..<n])"
    using ok ne by (intro cat_dim1_columns) (auto simp: list_all_iff mat_shape_def)
  have v3: "cat_dim1 (all_values0 acc)
      = Inr (map (\<lambda>b. map (\<lambda>y. hd (y ! b)) (all_values0 acc)) [0..<n])"
    using ok ne by (intro cat_dim1_columns) (auto simp: list_all_iff mat_shape_def)
  have v: "squeeze_last (map (\<lambda>b. map (\<lambda>y. hd (y ! b)) (all_values0 acc)) [0..<n])
      = Inr (map (\<lambda>b. map (\<lambda>y. hd (hd (y ! b))) (all_values0 acc)) [0..<n])"
    using ok by (intro squeeze_last_columns) simp
  have r: "cat_dim1 (all_rewards acc) = Inr (map (\<lambda>b. map (\<lambda>y. hd (y ! b)) (all_rewards acc)) [0..<n])"
    using ok ne by (intro cat_dim1_columns) simp_all
  have e: "cat_dim1 (all_ends acc) = Inr (map (\<lambda>b. map (\<lambda>y. hd (y ! b)) (all_ends acc)) [0..<n])"
    using ok ne by (intro cat_dim1_columns) simp_all
  show ?thesis
    by (simp only: build_output_def sh o a0 a1 l0 l1 v3 v r e sum.case simp_thms if_False)
qed

lemma present_reset: "present n (reset n m)"
  by (simp add: present_def reset_def mat_shape_def lstm_dim_def list_all_iff)

lemma wf_weights_reset: "wf_weights (reset n m) = wf_weights m"
  by (simp add: reset_def wf_weights_hidden)

lemma collected_ok_empty: "collected_ok n 0 no_records"
  by (simp add: collected_ok_def no_records_def)

lemma collect_eq:
  assumes "env_step envs (replicate (env_n envs) [0, 0]) (env_reset envs s) = ((ob0, ob1, rw, dn), s1)"
  shows "collect envs smp (a, s, g) = rollout_loop envs smp 200 no_records ob0 (reset (env_n envs) a, s1, g)"
  using assms by (simp add: collect_def)

lemma env_step_cases:
  obtains ob0 ob1 rw dn s1 where "env_step envs acts s = ((ob0, ob1, rw, dn), s1)"
proof -
  obtain p s2 where st0: "env_step envs acts s = (p, s2)" by (cases "env_step envs acts s")
  obtain ob0 ob1 rw dn where "p = (ob0, ob1, rw, dn)" by (cases p)
  with st0 that show ?thesis by simp
qed

lemma collect_inv:
  assumes "wf_weights a" "wf_env envs" "collect envs smp (a, s, g) = (Inr acc, (a', s', g'))"
  shows "\<exists>T. 0 < T \<and> T \<le> 200 \<and> 0 < env_n envs \<and> collected_ok (env_n envs) T acc \<and>
       list_all (list_all (\<lambda>d. d = [False])) (take (T - 1) (all_ends acc)) \<and>
       (list_all (\<lambda>d. d = [True]) (all_ends acc ! (T - 1)) \<or>
        T = 200 \<and> list_all (\<lambda>d. d = [False]) (all_ends acc ! (T - 1)))"
proof -
  let ?n = "env_n envs"
  obtain ob0 ob1 rw dn s1 where
    st: "env_step envs (replicate ?n [0, 0]) (env_reset envs s) = ((ob0, ob1, rw, dn), s1)"
    by (rule env_step_cases)
  have loop: "rollout_loop envs smp 200 no_records ob0 (reset ?n a, s1, g) = (Inr acc, (a', s', g'))"
    using assms(3) unfolding collect_eq[OF st] .
  have ob: "wf_tensor ob0" using wf_envD[OF assms(2) st] by simp
  have w: "wf_weights (reset ?n a)" using assms(1) by (simp add: wf_weights_reset)
  have e: "list_all (list_all (\<lambda>d. d = [False])) (all_ends no_records)" by (simp add: no_records_def)
  from rollout_loop_inv[OF assms(2) loop w present_reset ob collected_ok_empty e]
  show ?thesis by simp
qed

lemma lockstep_envD:
  assumes "lockstep_env envs" "env_step envs acts s = ((o0, o1, r, d), s')"
  shows "wf_tensor o0" "shape o0 = [env_n envs, 3, 64, 64]" "\<forall>v\<in>set (elems o0). 0 \<le> v \<and> v \<le> 1"
    "list_ex id d \<longrightarrow> list_all id d" "0 < env_n envs" "length r = env_n envs" "length d = env_n envs"
proof -
  from assms(1) have "\<forall>acts s. case env_step envs acts s of
      ((x0, x1, xr, xd), xs) \<Rightarrow> wf_tensor x0 \<and> shape x0 = [env_n envs, 3, 64, 64] \<and>
           list_all (\<lambda>v. 0 \<le> v \<and> v \<le> 1) (elems x0) \<and>
           length xr = env_n envs \<and> length xd = env_n envs \<and>
           (list_ex id xd \<longrightarrow> list_all id xd)"
    by (simp add: lockstep_env_def)
  then have "case env_step envs acts s of
      ((x0, x1, xr, xd), xs) \<Rightarrow> wf_tensor x0 \<and> shape x0 = [env_n envs, 3, 64, 64] \<and>
           list_all (\<lambda>v. 0 \<le> v \<and> v \<le> 1) (elems x0) \<and>
           length xr = env_n envs \<and> length xd = env_n envs \<and>
           (list_ex id xd \<longrightarrow> list_all id xd)"
    by (elim allE)
  then show "wf_tensor o0" "shape o0 = [env_n envs, 3, 64, 64]" "\<forall>v\<in>set (elems o0). 0 \<le> v \<and> v \<le> 1"
    "list_ex id d \<longrightarrow> list_all id d" "length r = env_n envs" "length d = env_n envs"
    using assms(2) by (auto simp: list_all_iff)
  show "0 < env_n envs" using assms(1) by (simp add: lockstep_env_def)
qed

lemma lockstep_wf_env:
  assumes "lockstep_env envs"
  shows "wf_env envs"
  unfolding wf_env_def
proof (intro allI)
  fix acts s
  obtain ob0 ob1 rw dn s1 where st: "env_step envs acts s = ((ob0, ob1, rw, dn), s1)"
    by (rule env_step_cases)
  from lockstep_envD[OF assms st]
  show "case env_step envs acts s of
      ((x0, x1, xr, xd), xs) \<Rightarrow> wf_tensor x0 \<and> length xr = env_n envs \<and> length xd = env_n envs"
    by (simp add: st)
qed

lemma rollout_loop_total:
  assumes "lockstep_env envs"
  shows "wf_weights a \<Longrightarrow> present (env_n envs) a \<Longrightarrow> wf_tensor obs \<Longrightarrow>
    shape obs = [env_n envs, 3, 64, 64] \<Longrightarrow> \<forall>v\<in>set (elems obs). 0 \<le> v \<and> v \<le> 1 \<Longrightarrow>
    \<exists>acc' w'. rollout_loop envs smp k acc obs (a, s, g) = (Inr acc', w')"
proof (induction k arbitrary: acc obs a s g)
  case 0
  then show ?case by simp
next
  case (Suc k)
  let ?n = "env_n envs"
  have n: "0 < ?n" using assms by (simp add: lockstep_env_def)
  from forward_ok[OF Suc.prems(1,3,4) n Suc.prems(5,2)]
  obtain out a1 where f: "forward a obs = (Inr out, a1)" "present ?n a1" by blast
  have w1: "wf_weights a1" using forward_weights[of a obs] f(1) Suc.prems(1) by simp
  obtain t0 g1 where s0: "sample smp g (ActorCriticOutput.logits_actions0 out) = (t0, g1)"
    by (cases "sample smp g (ActorCriticOutput.logits_actions0 out)")
  obtain t1 g2 where s1: "sample smp g1 (ActorCriticOutput.logits_actions1 out) = (t1, g2)"
    by (cases "sample smp g1 (ActorCriticOutput.logits_actions1 out)")
  obtain ob0 ob1 rw dn s2 where st: "env_step envs (map2 append t0 t1) s = ((ob0, ob1, rw, dn), s2)"
    by (rule env_step_cases)
  note body = loop_body_eq[OF f(1) s0 s1 st, of acc]
  note e = lockstep_envD[OF assms st]
  show ?case
  proof (cases "list_ex id dn")
    case True
    with e(4) body show ?thesis by (simp del: split_paired_Ex)
  next
    case False
    from Suc.IH[OF w1 f(2) e(1,2,3)]
    obtain acc' w' where "rollout_loop envs smp k (record_outcome (record_step acc obs out t0 t1) rw dn)
       ob0 (a1, s2, g2) = (Inr acc', w')" by blast
    with False body show ?thesis by (simp del: split_paired_Ex)
  qed
qed

lemma batch_rollout_total:
  assumes "wf_weights a" "lockstep_env envs"
  shows "\<exists>out a' s' g'. batch_rollout envs smp (a, s, g) = (Inr out, (a', s', g'))"
proof -
  let ?n = "env_n envs"
  obtain ob0 ob1 rw dn s1 where
    st: "env_step envs (replicate ?n [0, 0]) (env_reset envs s) = ((ob0, ob1, rw, dn), s1)"
    by (rule env_step_cases)
  note e = lockstep_envD[OF assms(2) st]
  have w: "wf_weights (reset ?n a)" using assms(1) by (simp add: wf_weights_reset)
  from rollout_loop_total[OF assms(2) w present_reset e(1,2,3), of smp 200 no_records s1 g]
  obtain acc w' where "rollout_loop envs smp 200 no_records ob0 (reset ?n a, s1, g) = (Inr acc, w')"
    by blast
  then have c0: "collect envs smp (a, s, g) = (Inr acc, w')" unfolding collect_eq[OF st] .
  obtain a' s' g' where w': "w' = (a', s', g')" by (cases w')
  from collect_inv[OF assms(1) lockstep_wf_env[OF assms(2)] c0[unfolded w']]
  obtain T where T: "0 < T" "collected_ok ?n T acc" by blast
  from build_output_ok[OF T(2,1)] obtain out where "build_output acc = Inr out" by blast
  then show ?thesis using c0 w' by (simp add: batch_rollout_def)
qed

lemma images_of_nth:
  assumes "b < length (elems t) div 12288" "c < 3" "i < 64" "j < 64"
  shows "images_of t ! b ! c ! i ! j = elems t ! (b * 12288 + c * 4096 + i * 64 + j)"
proof -
  let ?img = "chunks 12288 (elems t) ! b"
  let ?p = "chunks 4096 ?img ! c"
  have li: "length ?img = 12288" using assms(1) by (rule length_chunks_nth)
  have c: "c < length ?img div 4096" using li assms(2) by simp
  have lp: "length ?p = 4096" using c by (rule length_chunks_nth)
  have i: "i < length ?p div 64" using lp assms(3) by simp
  have "images_of t ! b ! c ! i ! j = chunks 64 ?p ! i ! j"
    using assms(1) c by (simp add: images_of_def length_chunks)
  also have "\<dots> = ?p ! (i * 64 + j)" using i assms(4) by (rule chunks_nth_nth)
  also have "\<dots> = ?img ! (c * 4096 + (i * 64 + j))"
    using c assms(3,4) by (intro chunks_nth_nth) simp_all
  also have "\<dots> = elems t ! (b * 12288 + (c * 4096 + (i * 64 + j)))"
    using assms by (intro chunks_nth_nth) simp_all
  finally show ?thesis by (simp add: add.assoc)
qed

lemma images_of_in_set:
  assumes "b < length (elems t) div 12288" "c < 3" "i < 64" "j < 64"
  shows "images_of t ! b ! c ! i ! j \<in> set (elems t)"
proof -
  have "b * 12288 + 12288 \<le> length (elems t)" using assms(1) by (rule chunk_bound)
  then have "b * 12288 + c * 4096 + i * 64 + j < length (elems t)" using assms(2-4) by simp
  then show ?thesis unfolding images_of_nth[OF assms] by (rule nth_mem)
qed

lemma byte_range:
  assumes "0 \<le> v" "v \<le> 1"
  shows "uint (byte v) = \<lfloor>v * 255\<rfloor> \<and> 0 \<le> \<lfloor>v * 255\<rfloor> \<and> \<lfloor>v * 255\<rfloor> \<le> 255"
proof -
  have a: "0 \<le> v * 255" "v * 255 \<le> 255" using assms by simp_all
  then have f: "0 \<le> \<lfloor>v * 255\<rfloor>" "\<lfloor>v * 255\<rfloor> \<le> 255" by (simp_all add: floor_le_iff le_floor_iff)
  then have "uint (word_of_int \<lfloor>v * 255\<rfloor> :: 8 word) = \<lfloor>v * 255\<rfloor>"
    by (simp add: uint_word_of_int)
  then show ?thesis using a f by (simp add: byte_def)
qed

lemma batch_rollout_Inr_D:
  assumes "batch_rollout envs smp w = (Inr out, w')"
  shows "\<exists>acc a' s' g'. collect envs smp w = (Inr acc, (a', s', g')) \<and> build_output acc = Inr out \<and>
     w' = (clear a', s', g')"
  using assms by (auto simp: batch_rollout_def split: prod.splits sum.splits)

lemma ends_columns:
  assumes "collected_ok n T acc" "0 < T"
    "list_all (list_all (\<lambda>d. d = [False])) (take (T - 1) (all_ends acc))"
    "list_all (\<lambda>d. d = [True]) (all_ends acc ! (T - 1)) \<or>
        T = 200 \<and> list_all (\<lambda>d. d = [False]) (all_ends acc ! (T - 1))"
  shows "(\<forall>b<n. \<forall>t<T - 1. \<not> map (\<lambda>b. map (\<lambda>y. hd (y ! b)) (all_ends acc)) [0..<n] ! b ! t) \<and>
     ((\<forall>b<n. map (\<lambda>b. map (\<lambda>y. hd (y ! b)) (all_ends acc)) [0..<n] ! b ! (T - 1)) \<or>
      T = 200 \<and> (\<forall>b<n. \<not> map (\<lambda>b. map (\<lambda>y. hd (y ! b)) (all_ends acc)) [0..<n] ! b ! (T - 1)))"
proof -
  let ?E = "all_ends acc"
  have len: "length ?E = T" and sh: "list_all (mat_shape n 1) ?E"
    using assms(1) by (simp_all add: collected_ok_def)
  have row: "map (\<lambda>b. map (\<lambda>y. hd (y ! b)) ?E) [0..<n] ! b ! t = hd (?E ! t ! b)"
    if "b < n" "t < T" for b t using that len by simp
  have lenE: "length (?E ! t) = n" if "t < T" for t
    using sh len that by (simp add: list_all_length mat_shape_def)
  have early: "?E ! t ! b = [False]" if "b < n" "t < T - 1" for b t
  proof -
    have "take (T - 1) ?E ! t = ?E ! t" using that by simp
    moreover have "t < length (take (T - 1) ?E)" using that len by simp
    ultimately have "list_all (\<lambda>d. d = [False]) (?E ! t)"
      using assms(3) by (metis list_all_length)
    then show ?thesis using that lenE[of t] by (simp add: list_all_length)
  qed
  have a: "\<forall>b<n. \<forall>t<T - 1. \<not> map (\<lambda>b. map (\<lambda>y. hd (y ! b)) ?E) [0..<n] ! b ! t"
  proof (intro allI impI)
    fix b t assume bt: "b < n" "t < T - 1"
    then have "t < T" by simp
    from row[OF bt(1) this] early[OF bt] show "\<not> map (\<lambda>b. map (\<lambda>y. hd (y ! b)) ?E) [0..<n] ! b ! t"
      by simp
  qed
  have T1: "T - 1 < T" using assms(2) by simp
  from assms(4) have "(\<forall>b<n. map (\<lambda>b. map (\<lambda>y. hd (y ! b)) ?E) [0..<n] ! b ! (T - 1)) \<or>
      T = 200 \<and> (\<forall>b<n. \<not> map (\<lambda>b. map (\<lambda>y. hd (y ! b)) ?E) [0..<n] ! b ! (T - 1))"
  proof
    assume t: "list_all (\<lambda>d. d = [True]) (?E ! (T - 1))"
    have "\<forall>b<n. map (\<lambda>b. map (\<lambda>y. hd (y ! b)) ?E) [0..<n] ! b ! (T - 1)"
    proof (intro allI impI)
      fix b assume b: "b < n"
      have "?E ! (T - 1) ! b = [True]" using t b lenE[OF T1] by (simp add: list_all_length)
      with row[OF b T1] show "map (\<lambda>b. map (\<lambda>y. hd (y ! b)) ?E) [0..<n] ! b ! (T - 1)" by simp
    qed
    then show ?thesis by blast
  next
    assume t: "T = 200 \<and> list_all (\<lambda>d. d = [False]) (?E ! (T - 1))"
    have "\<forall>b<n. \<not> map (\<lambda>b. map (\<lambda>y. hd (y ! b)) ?E) [0..<n] ! b ! (T - 1)"
    proof (intro allI impI)
      fix b assume b: "b < n"
      from t have f: "list_all (\<lambda>d. d = [False]) (?E ! (T - 1))" by (rule conjunct2)
      have "?E ! (T - 1) ! b = [False]" using f b lenE[OF T1] by (simp add: list_all_length)
      with row[OF b T1] show "\<not> map (\<lambda>b. map (\<lambda>y. hd (y ! b)) ?E) [0..<n] ! b ! (T - 1)" by simp
    qed
    with t show ?thesis by blast
  qed
  with a show ?thesis by blast
qed

lemma loop_assertion:
  assumes "forward a obs = (Inr out, a1)"
    "sample smp g (ActorCriticOutput.logits_actions0 out) = (t0, g1)"
    "sample smp g1 (ActorCriticOutput.logits_actions1 out) = (t1, g2)"
    "env_step envs (map2 append t0 t1) s = ((ob0, ob1, rw, dn), s2)"
    "list_ex id dn" "\<not> list_all id dn"
  shows "rollout_loop envs smp (Suc k) acc obs (a, s, g) = (Inl AssertionError, (a1, s2, g2))"
  using loop_body_eq[OF assms(1-4), of acc] assms(5,6) by simp

lemma batch_rollout_raise:
  assumes "collect envs smp w = (Inl e, w')"
  shows "batch_rollout envs smp w = (Inl e, w')"
  using assms by (simp add: batch_rollout_def)

lemma batch_rollout_ends:
  assumes "wf_weights a" "wf_env envs" "batch_rollout envs smp (a, s, g) = (Inr out, w')"
  shows "\<exists>T. 0 < T \<and> T \<le> 200 \<and> 0 < env_n envs \<and> mat_shape (env_n envs) T (ends out) \<and>
     (\<forall>b<env_n envs. \<forall>t<T - 1. \<not> ends out ! b ! t) \<and>
     ((\<forall>b<env_n envs. ends out ! b ! (T - 1)) \<or>
      T = 200 \<and> (\<forall>b<env_n envs. \<not> ends out ! b ! (T - 1)))"
proof -
  let ?n = "env_n envs"
  from batch_rollout_Inr_D[OF assms(3)] obtain acc a' s' g' where
    c: "collect envs smp (a, s, g) = (Inr acc, (a', s', g'))" and b: "build_output acc = Inr out"
    by blast
  from collect_inv[OF assms(1,2) c] obtain T where T: "0 < T" "T \<le> 200" "0 < ?n"
    "collected_ok ?n T acc"
    "list_all (list_all (\<lambda>d. d = [False])) (take (T - 1) (all_ends acc))"
    "list_all (\<lambda>d. d = [True]) (all_ends acc ! (T - 1)) \<or>
        T = 200 \<and> list_all (\<lambda>d. d = [False]) (all_ends acc ! (T - 1))" by blast
  have e: "ends out = map (\<lambda>b. map (\<lambda>y. hd (y ! b)) (all_ends acc)) [0..<?n]"
    using build_output_ok[OF T(4,1)] b by simp
  have "length (all_ends acc) = T" using T(4) by (simp add: collected_ok_def)
  then have m: "mat_shape ?n T (ends out)" unfolding e using columns_shape[of ?n "all_ends acc" hd] by simp
  from ends_columns[OF T(4,1,5,6)] T(1,2,3) m show ?thesis unfolding e by blast
qed

lemma wf_zero_actor: "wf_weights zero_actor"
  by (simp add: wf_weights_def zero_actor_def zero_conv_def conv_shape_def linear_shape_def
      mat_shape_def img_shape_def list_all_iff)

lemma grey_image_shape: "img_shape 3 64 64 grey_image"
  by (simp add: grey_image_def img_shape_def list_all_iff)

section \<open>The feature extractor\<close>

text \<open>
  C7.  The feature extractor of \<open>forward\<close> (convolution, max-pooling, ReLU in each
  stage, as the source writes it) is equal, on every image and for all weights, to the
  stack the specification describes (convolution, ReLU, max-pooling).  With the weights
  of the constructor and an image of shape (3, 64, 64), the four stages have the shapes
  (32, 32, 32), (32, 16, 16), (64, 8, 8) and (64, 4, 4), and the flattened vector that
  goes to the recurrent cell has 1024 entries.
\<close>

theorem features_refine_spec:
  "features m x = spec_features m x \<and>
   (wf_weights m \<and> img_shape 3 64 64 x \<longrightarrow>
      img_shape 32 32 32 (spec_stage (conv1_weight m) (conv1_bias m) (rescale x)) \<and>
      img_shape 32 16 16 (spec_stage (conv2_weight m) (conv2_bias m)
        (spec_stage (conv1_weight m) (conv1_bias m) (rescale x))) \<and>
      img_shape 64 8 8 (spec_stage (conv3_weight m) (conv3_bias m)
        (spec_stage (conv2_weight m) (conv2_bias m)
          (spec_stage (conv1_weight m) (conv1_bias m) (rescale x)))) \<and>
      img_shape 64 4 4 (spec_stage (conv4_weight m) (conv4_bias m)
        (spec_stage (conv3_weight m) (conv3_bias m)
          (spec_stage (conv2_weight m) (conv2_bias m)
            (spec_stage (conv1_weight m) (conv1_bias m) (rescale x))))) \<and>
      length (features m x) = 1024)"
  using features_spec[of m x] spec_features_shapes[of m x] by simp

theorem features_refine_spec_witness:
  "wf_weights zero_actor \<and> img_shape 3 64 64 grey_image \<and>
   features zero_actor grey_image = spec_features zero_actor grey_image \<and>
   img_shape 64 4 4 (spec_stage (conv4_weight zero_actor) (conv4_bias zero_actor)
        (spec_stage (conv3_weight zero_actor) (conv3_bias zero_actor)
          (spec_stage (conv2_weight zero_actor) (conv2_bias zero_actor)
            (spec_stage (conv1_weight zero_actor) (conv1_bias zero_actor) (rescale grey_image))))) \<and>
   length (features zero_actor grey_image) = 1024"
  using features_refine_spec[of zero_actor grey_image] wf_zero_actor grey_image_shape by blast

lemma grey_obs_ok:
  "wf_tensor (grey_obs n)" "shape (grey_obs n) = [n, 3, 64, 64]"
  "\<forall>v\<in>set (elems (grey_obs n)). 0 \<le> v \<and> v \<le> 1"
  by (simp_all add: grey_obs_def wf_tensor_def)

lemma lockstep_done_env: "0 < n \<Longrightarrow> lockstep_env (done_env n)"
  using grey_obs_ok[of n] by (simp add: lockstep_env_def done_env_def list_all_iff list_ex_iff)

lemma wf_partial_env: "wf_env partial_env"
  using grey_obs_ok[of 2] by (simp add: wf_env_def partial_env_def)

lemma forward_zero_actor:
  assumes "0 < n"
  shows "\<exists>out a1. forward (reset n zero_actor) (grey_obs n) = (Inr out, a1)"
proof -
  have w: "wf_weights (reset n zero_actor)" using wf_zero_actor by (simp add: wf_weights_reset)
  from forward_ok[OF w grey_obs_ok(1,2) assms grey_obs_ok(3) present_reset] show ?thesis by blast
qed

section \<open>Termination of the rollout\<close>

text \<open>
  C4.  When \<open>batch_rollout\<close> returns a rollout, for weights of the constructor's
  shapes and an environment that returns one reward and one flag per instance, the
  rollout has \<open>T\<close> steps with \<open>1 \<le> T \<le> 200\<close>; no flag is set before the last step
  (the loop stops the first time any environment reports termination); and the last
  column of \<open>ends\<close> is true in every row, unless the loop ran its 200 passes without
  any termination, where it is false in every row.  In any pass of the loop in which
  some but not all environments report termination the loop raises \<open>AssertionError\<close>,
  and an exception of the loop is the result of \<open>batch_rollout\<close>.
\<close>

theorem batch_rollout_termination:
  "(wf_weights a \<and> wf_env envs \<and> batch_rollout envs smp (a, s, g) = (Inr out, w') \<longrightarrow>
      (\<exists>T. 0 < T \<and> T \<le> 200 \<and> 0 < env_n envs \<and> mat_shape (env_n envs) T (ends out) \<and>
         (\<forall>b<env_n envs. \<forall>t<T - 1. \<not> ends out ! b ! t) \<and>
         ((\<forall>b<env_n envs. ends out ! b ! (T - 1)) \<or>
          T = 200 \<and> (\<forall>b<env_n envs. \<not> ends out ! b ! (T - 1))))) \<and>
   (forward a obs = (Inr ac, a1) \<and>
    sample smp g (ActorCriticOutput.logits_actions0 ac) = (t0, g1) \<and>
    sample smp g1 (ActorCriticOutput.logits_actions1 ac) = (t1, g2) \<and>
    env_step envs (map2 append t0 t1) s = ((ob0, ob1, rw, dn), s2) \<and>
    list_ex id dn \<and> \<not> list_all id dn \<longrightarrow>
      rollout_loop envs smp (Suc k) acc obs (a, s, g) = (Inl AssertionError, (a1, s2, g2))) \<and>
   (collect envs smp (a, s, g) = (Inl e, w') \<longrightarrow> batch_rollout envs smp (a, s, g) = (Inl e, w'))"
proof (intro conjI impI)
  assume "wf_weights a \<and> wf_env envs \<and> batch_rollout envs smp (a, s, g) = (Inr out, w')"
  then show "\<exists>T. 0 < T \<and> T \<le> 200 \<and> 0 < env_n envs \<and> mat_shape (env_n envs) T (ends out) \<and>
         (\<forall>b<env_n envs. \<forall>t<T - 1. \<not> ends out ! b ! t) \<and>
         ((\<forall>b<env_n envs. ends out ! b ! (T - 1)) \<or>
          T = 200 \<and> (\<forall>b<env_n envs. \<not> ends out ! b ! (T - 1)))"
    using batch_rollout_ends[of a envs smp s g out w'] by simp
next
  assume "forward a obs = (Inr ac, a1) \<and>
    sample smp g (ActorCriticOutput.logits_actions0 ac) = (t0, g1) \<and>
    sample smp g1 (ActorCriticOutput.logits_actions1 ac) = (t1, g2) \<and>
    env_step envs (map2 append t0 t1) s = ((ob0, ob1, rw, dn), s2) \<and>
    list_ex id dn \<and> \<not> list_all id dn"
  then show "rollout_loop envs smp (Suc k) acc obs (a, s, g) = (Inl AssertionError, (a1, s2, g2))"
    using loop_assertion[of a obs ac a1 smp g t0 g1 t1 g2 envs s ob0 ob1 rw dn s2 k acc] by blast
next
  assume "collect envs smp (a, s, g) = (Inl e, w')"
  then show "batch_rollout envs smp (a, s, g) = (Inl e, w')" by (rule batch_rollout_raise)
qed

theorem batch_rollout_termination_witness:
  "(\<exists>out w'. wf_weights zero_actor \<and> wf_env (done_env 4) \<and>
      batch_rollout (done_env 4) first_action (zero_actor, (), ()) = (Inr out, w') \<and>
      (\<exists>T. 0 < T \<and> T \<le> 200 \<and> mat_shape 4 T (ends out) \<and>
         (\<forall>b<4. \<forall>t<T - 1. \<not> ends out ! b ! t) \<and>
         ((\<forall>b<4. ends out ! b ! (T - 1)) \<or> T = 200 \<and> (\<forall>b<4. \<not> ends out ! b ! (T - 1))))) \<and>
   (\<exists>ac a1 t0 t1. forward (reset 2 zero_actor) (grey_obs 2) = (Inr ac, a1) \<and>
      sample first_action () (ActorCriticOutput.logits_actions0 ac) = (t0, ()) \<and>
      sample first_action () (ActorCriticOutput.logits_actions1 ac) = (t1, ()) \<and>
      env_step partial_env (map2 append t0 t1) () = ((grey_obs 2, grey_obs 2, [1, 1], [True, False]), ()) \<and>
      list_ex id [True, False] \<and> \<not> list_all id [True, False] \<and>
      rollout_loop partial_env first_action (Suc 199) no_records (grey_obs 2) (reset 2 zero_actor, (), ())
        = (Inl AssertionError, (a1, (), ())) \<and>
      batch_rollout partial_env first_action (zero_actor, (), ()) = (Inl AssertionError, (a1, (), ())))"
proof (rule conjI)
  show "(\<exists>out w'. wf_weights zero_actor \<and> wf_env (done_env 4) \<and>
      batch_rollout (done_env 4) first_action (zero_actor, (), ()) = (Inr out, w') \<and>
      (\<exists>T. 0 < T \<and> T \<le> 200 \<and> mat_shape 4 T (ends out) \<and>
         (\<forall>b<4. \<forall>t<T - 1. \<not> ends out ! b ! t) \<and>
         ((\<forall>b<4. ends out ! b ! (T - 1)) \<or> T = 200 \<and> (\<forall>b<4. \<not> ends out ! b ! (T - 1)))))"
  proof -
    have l: "lockstep_env (done_env 4)" by (simp add: lockstep_done_env)
    from batch_rollout_total[OF wf_zero_actor l, of first_action "()" "()"]
    obtain out w' where b: "batch_rollout (done_env 4) first_action (zero_actor, (), ()) = (Inr out, w')"
      by blast
    have n: "env_n (done_env 4) = 4" by (simp add: done_env_def)
    have h: "wf_weights zero_actor \<and> wf_env (done_env 4) \<and>
        batch_rollout (done_env 4) first_action (zero_actor, (), ()) = (Inr out, w')"
      using wf_zero_actor lockstep_wf_env[OF l] b by (intro conjI)
    from batch_rollout_termination[of zero_actor "done_env 4" first_action "()" "()" out w', THEN conjunct1, rule_format, OF h]
    obtain T where T: "0 < T \<and> T \<le> 200 \<and> mat_shape 4 T (ends out) \<and>
           (\<forall>b<4. \<forall>t<T - 1. \<not> ends out ! b ! t) \<and>
           ((\<forall>b<4. ends out ! b ! (T - 1)) \<or> T = 200 \<and> (\<forall>b<4. \<not> ends out ! b ! (T - 1)))"
      unfolding n by (elim exE conjE) (rule that, intro conjI)
    show ?thesis
      apply (rule exI[of _ out], rule exI[of _ w'])
      apply (rule conjI, rule wf_zero_actor)
      apply (rule conjI, rule lockstep_wf_env[OF l])
      apply (rule conjI, rule b)
      apply (rule exI[of _ T], rule T)
      done
  qed
next
  show "(\<exists>ac a1 t0 t1. forward (reset 2 zero_actor) (grey_obs 2) = (Inr ac, a1) \<and>
      sample first_action () (ActorCriticOutput.logits_actions0 ac) = (t0, ()) \<and>
      sample first_action () (ActorCriticOutput.logits_actions1 ac) = (t1, ()) \<and>
      env_step partial_env (map2 append t0 t1) () = ((grey_obs 2, grey_obs 2, [1, 1], [True, False]), ()) \<and>
      list_ex id [True, False] \<and> \<not> list_all id [True, False] \<and>
      rollout_loop partial_env first_action (Suc 199) no_records (grey_obs 2) (reset 2 zero_actor, (), ())
        = (Inl AssertionError, (a1, (), ())) \<and>
      batch_rollout partial_env first_action (zero_actor, (), ()) = (Inl AssertionError, (a1, (), ())))"
  proof -
    obtain ac a1 where f: "forward (reset 2 zero_actor) (grey_obs 2) = (Inr ac, a1)"
      using forward_zero_actor[of 2] by auto
    obtain t0 u0 where s0': "sample first_action () (ActorCriticOutput.logits_actions0 ac) = (t0, u0)"
      by (cases "sample first_action () (ActorCriticOutput.logits_actions0 ac)")
    obtain t1 u1 where s1': "sample first_action () (ActorCriticOutput.logits_actions1 ac) = (t1, u1)"
      by (cases "sample first_action () (ActorCriticOutput.logits_actions1 ac)")
    have s0: "sample first_action () (ActorCriticOutput.logits_actions0 ac) = (t0, ())"
      and s1: "sample first_action () (ActorCriticOutput.logits_actions1 ac) = (t1, ())"
      using s0' s1' by simp_all
    have st: "env_step partial_env (map2 append t0 t1) () = ((grey_obs 2, grey_obs 2, [1, 1], [True, False]), ())"
      by (simp add: partial_env_def)
    have d: "list_ex id [True, False]" "\<not> list_all id [True, False]" by simp_all
    have h: "forward (reset 2 zero_actor) (grey_obs 2) = (Inr ac, a1) \<and>
        sample first_action () (ActorCriticOutput.logits_actions0 ac) = (t0, ()) \<and>
        sample first_action () (ActorCriticOutput.logits_actions1 ac) = (t1, ()) \<and>
        env_step partial_env (map2 append t0 t1) () = ((grey_obs 2, grey_obs 2, [1, 1], [True, False]), ()) \<and>
        list_ex id [True, False] \<and> \<not> list_all id [True, False]"
      using f s0 s1 st d by (intro conjI)
    have loop: "rollout_loop partial_env first_action (Suc 199) no_records (grey_obs 2) (reset 2 zero_actor, (), ())
          = (Inl AssertionError, (a1, (), ()))"
      by (rule batch_rollout_termination[THEN conjunct2, THEN conjunct1, rule_format, OF h])
    have st0: "env_step partial_env (replicate (env_n partial_env) [0, 0]) (env_reset partial_env ())
        = ((grey_obs 2, grey_obs 2, [1, 1], [True, False]), ())"
      by (simp add: partial_env_def)
    have n: "env_n partial_env = 2" by (simp add: partial_env_def)
    have k: "(200::nat) = Suc 199" by simp
    have c: "collect partial_env first_action (zero_actor, (), ()) = (Inl AssertionError, (a1, (), ()))"
      unfolding collect_eq[OF st0] n k by (rule loop)
    have br: "batch_rollout partial_env first_action (zero_actor, (), ()) = (Inl AssertionError, (a1, (), ()))"
      by (rule batch_rollout_termination[THEN conjunct2, THEN conjunct2, rule_format, OF c])
    show ?thesis
      apply (rule exI[of _ ac], rule exI[of _ a1], rule exI[of _ t0], rule exI[of _ t1])
      apply (intro conjI)
      apply (rule f, rule s0, rule s1, rule st, rule d(1), rule d(2), rule loop, rule br)
      done
  qed
qed

lemma absent_clear: "absent (clear m)"
  by (simp add: absent_def clear_def)

lemma batch_rollout_absent:
  assumes "batch_rollout envs smp w = (Inr out, (m', s', g'))"
  shows "absent m'"
  using batch_rollout_Inr_D[OF assms] by (auto simp: absent_clear)

section \<open>The hidden state\<close>

text \<open>
  C5.  The hidden state is absent or present for a batch of \<open>n\<close>.  \<open>clear\<close> takes any
  state to absent and \<open>reset n\<close> takes any state to present for \<open>n\<close>, so \<open>reset n\<close>
  followed by \<open>clear\<close> leaves it absent.  \<open>forward\<close> on a module whose state is present
  for \<open>n\<close> leaves it present for \<open>n\<close>, whether it returns or raises; on a module
  whose state is absent it raises and leaves the module as it was.  When
  \<open>batch_rollout\<close> returns a rollout, the state of the module is absent.
\<close>

theorem hidden_state_machine:
  "absent (clear m) \<and> present n (reset n m) \<and> absent (clear (reset n m)) \<and>
   (wf_weights m \<and> present n m \<longrightarrow> present n (snd (forward m inputs))) \<and>
   (absent m \<longrightarrow> (\<exists>e. forward m inputs = (Inl e, m))) \<and>
   (batch_rollout envs smp (m, s, g) = (Inr out, (m', s', g')) \<longrightarrow> absent m')"
proof (intro conjI impI)
  show "absent (clear m)" "absent (clear (reset n m))" by (rule absent_clear)+
  show "present n (reset n m)" by (rule present_reset)
  show "present n (snd (forward m inputs))" if "wf_weights m \<and> present n m"
    using that forward_present[of m n inputs] by simp
  show "\<exists>e. forward m inputs = (Inl e, m)" if "absent m"
    using that by (rule forward_absent)
  show "absent m'" if "batch_rollout envs smp (m, s, g) = (Inr out, (m', s', g'))"
    using that by (rule batch_rollout_absent)
qed

theorem hidden_state_machine_witness:
  "wf_weights (reset 1 zero_actor) \<and> present 1 (reset 1 zero_actor) \<and>
   present 1 (snd (forward (reset 1 zero_actor) (grey_obs 1))) \<and>
   absent (clear (reset 1 zero_actor)) \<and>
   (\<exists>e. forward (clear (reset 1 zero_actor)) (grey_obs 1) = (Inl e, clear (reset 1 zero_actor))) \<and>
   (\<exists>out m' s' g'. batch_rollout (done_env 1) first_action (zero_actor, (), ()) = (Inr out, (m', s', g'))
      \<and> absent m')"
proof -
  let ?m = "reset 1 zero_actor"
  have w: "wf_weights ?m" using wf_zero_actor by (simp add: wf_weights_reset)
  have p: "present 1 ?m" by (rule present_reset)
  have wp: "wf_weights ?m \<and> present 1 ?m" using w p by (rule conjI)
  note sm = hidden_state_machine[of ?m 1 "grey_obs 1"]
  have f: "present 1 (snd (forward ?m (grey_obs 1)))"
    by (rule sm[THEN conjunct2, THEN conjunct2, THEN conjunct2, THEN conjunct1, rule_format, OF wp])
  have a: "absent (clear ?m)"
    by (rule hidden_state_machine[THEN conjunct1])
  have e: "\<exists>e. forward (clear ?m) (grey_obs 1) = (Inl e, clear ?m)"
    by (rule hidden_state_machine[THEN conjunct2, THEN conjunct2, THEN conjunct2, THEN conjunct2,
          THEN conjunct1, rule_format, OF a])
  have l: "lockstep_env (done_env 1)" by (simp add: lockstep_done_env)
  from batch_rollout_total[OF wf_zero_actor l, of first_action "()" "()"]
  obtain out m' s' g' where
    b: "batch_rollout (done_env 1) first_action (zero_actor, (), ()) = (Inr out, (m', s', g'))"
    by blast
  have "absent m'"
    by (rule hidden_state_machine[THEN conjunct2, THEN conjunct2, THEN conjunct2, THEN conjunct2,
          THEN conjunct2, rule_format, OF b])
  with b have r: "\<exists>out m' s' g'. batch_rollout (done_env 1) first_action (zero_actor, (), ()) = (Inr out, (m', s', g'))
      \<and> absent m'" by blast
  from w p f a e r show ?thesis by (intro conjI)
qed

lemma columns_nth:
  assumes "b < n" "t < length xs"
  shows "map (\<lambda>b. map (\<lambda>y. f (y ! b)) xs) [0..<n] ! b ! t = f (xs ! t ! b)"
  using assms by simp

lemma logits_columns:
  assumes "list_all (\<lambda>l. length l = n \<and> list_all (mat_shape 1 k) l) xs"
  shows "list_all (list_all (\<lambda>l. length l = k)) (map (\<lambda>b. map (\<lambda>y. hd (y ! b)) xs) [0..<n])"
proof -
  have "length (hd (y ! b)) = k" if "y \<in> set xs" "b < n" for y b
  proof -
    from assms that have "length y = n" "list_all (mat_shape 1 k) y" by (auto simp: list_all_iff)
    with that have "mat_shape 1 k (y ! b)" by (auto simp: list_all_length)
    then show ?thesis by (cases "y ! b") (auto simp: mat_shape_def)
  qed
  then show ?thesis by (simp add: list_all_iff)
qed

lemma observations_columns:
  assumes "list_all (\<lambda>x. wf_tensor x \<and> shape x = [n, 3, 64, 64] \<and> P x) xs"
  shows "list_all (list_all (img_shape 3 64 64))
     (map (map (map (map (map byte)))) (map (\<lambda>b. map (\<lambda>y. y ! b) (map images_of xs)) [0..<n]))"
proof -
  have "img_shape 3 64 64 (map (map (map byte)) (images_of x ! b))" if "x \<in> set xs" "b < n" for x b
  proof -
    from assms that have "length (elems x) = n * 12288" by (auto simp: list_all_iff wf_tensor_def)
    then have "b < length (images_of x)" using that by (simp add: length_images_of)
    then have "img_shape 3 64 64 (images_of x ! b)"
      using images_of_shape[of x] by (simp add: list_all_length)
    then show ?thesis by (simp add: img_shape_def list_all_iff)
  qed
  then show ?thesis by (simp add: list_all_iff)
qed

lemma observation_pixel:
  assumes "wf_tensor x" "shape x = [n, 3, 64, 64]" "list_all (\<lambda>v. 0 \<le> v \<and> v \<le> 1) (elems x)"
    "b < n" "c < 3" "i < 64" "j < 64"
  shows "0 \<le> images_of x ! b ! c ! i ! j \<and> images_of x ! b ! c ! i ! j \<le> 1 \<and>
     map (map (map byte)) (images_of x ! b) ! c ! i ! j = byte (images_of x ! b ! c ! i ! j)"
proof -
  have len: "length (elems x) = n * 12288" using assms(1,2) by (simp add: wf_tensor_def)
  then have b: "b < length (elems x) div 12288" using assms(4) by simp
  from images_of_in_set[OF b assms(5,6,7)] assms(3)
  have r: "0 \<le> images_of x ! b ! c ! i ! j \<and> images_of x ! b ! c ! i ! j \<le> 1"
    by (simp add: list_all_iff)
  have "b < length (images_of x)" using b by (simp add: length_images_of)
  then have "img_shape 3 64 64 (images_of x ! b)"
    using images_of_shape[of x] by (simp add: list_all_length)
  then have "map (map (map byte)) (images_of x ! b) ! c ! i ! j = byte (images_of x ! b ! c ! i ! j)"
    using assms(5,6,7) by (simp add: img_shape_def list_all_length)
  with r show ?thesis by simp
qed

section \<open>The rollout that is returned\<close>

text \<open>
  C8.  Every rollout that \<open>batch_rollout\<close> returns, for weights of the constructor's
  shapes and an environment that returns tensors and one reward and one flag per
  instance, is well formed: with \<open>B\<close> the batch size of the environment and \<open>T\<close> the
  number of steps taken (\<open>1 \<le> T \<le> 200\<close>), the actions of both heads, the values, the
  rewards and the flags have shape \<open>(B, T)\<close>, the logits of both heads \<open>(B, T, 7)\<close> and
  the observations \<open>(B, T, 3, 64, 64)\<close>.  Each stored pixel is the byte of the pixel
  the loop collected for that instance and step, which lies in [0, 1]: its value,
  multiplied by 255 and truncated, between 0 and 255.
\<close>

theorem rollout_output_well_formed:
  "wf_weights a \<and> wf_env envs \<and> batch_rollout envs smp (a, s, g) = (Inr out, w') \<longrightarrow>
   (\<exists>T acc w1. 0 < T \<and> T \<le> 200 \<and> 0 < env_n envs \<and>
      collect envs smp (a, s, g) = (Inr acc, w1) \<and> length (all_observations0 acc) = T \<and>
      mat_shape (env_n envs) T (actions0 out) \<and> mat_shape (env_n envs) T (actions1 out) \<and>
      mat_shape (env_n envs) T (values out) \<and> mat_shape (env_n envs) T (rewards out) \<and>
      mat_shape (env_n envs) T (ends out) \<and>
      mat_shape (env_n envs) T (logits_actions0 out) \<and>
      list_all (list_all (\<lambda>l. length l = 7)) (logits_actions0 out) \<and>
      mat_shape (env_n envs) T (logits_actions1 out) \<and>
      list_all (list_all (\<lambda>l. length l = 7)) (logits_actions1 out) \<and>
      mat_shape (env_n envs) T (observations out) \<and>
      list_all (list_all (img_shape 3 64 64)) (observations out) \<and>
      (\<forall>b<env_n envs. \<forall>t<T. \<forall>c<3. \<forall>i<64. \<forall>j<64.
         0 \<le> images_of (all_observations0 acc ! t) ! b ! c ! i ! j \<and>
         images_of (all_observations0 acc ! t) ! b ! c ! i ! j \<le> 1 \<and>
         observations out ! b ! t ! c ! i ! j = byte (images_of (all_observations0 acc ! t) ! b ! c ! i ! j) \<and>
         uint (observations out ! b ! t ! c ! i ! j)
           = \<lfloor>images_of (all_observations0 acc ! t) ! b ! c ! i ! j * 255\<rfloor> \<and>
         uint (observations out ! b ! t ! c ! i ! j) \<le> 255))"
proof
  assume h: "wf_weights a \<and> wf_env envs \<and> batch_rollout envs smp (a, s, g) = (Inr out, w')"
  let ?n = "env_n envs"
  from h have w: "wf_weights a" and e: "wf_env envs"
    and br: "batch_rollout envs smp (a, s, g) = (Inr out, w')" by simp_all
  from batch_rollout_Inr_D[OF br] obtain acc a' s' g' where
    c: "collect envs smp (a, s, g) = (Inr acc, (a', s', g'))" and b: "build_output acc = Inr out"
    by blast
  from collect_inv[OF w e c] obtain T where T: "0 < T" "T \<le> 200" "0 < ?n" "collected_ok ?n T acc"
    by blast
  note ok = T(4)[unfolded collected_ok_def]
  have lens: "length (all_observations0 acc) = T" "length (all_actions0 acc) = T"
    "length (all_actions1 acc) = T" "length (all_logits_actions0 acc) = T"
    "length (all_logits_actions1 acc) = T" "length (all_values0 acc) = T"
    "length (all_rewards acc) = T" "length (all_ends acc) = T"
    using ok by simp_all
  note bo = build_output_ok[OF T(4,1), unfolded b, simplified]
  have f_obs: "observations out = map (map (map (map (map byte))))
        (map (\<lambda>b. map (\<lambda>y. y ! b) (map images_of (all_observations0 acc))) [0..<?n])"
    and f_a0: "actions0 out = map (\<lambda>b. map (\<lambda>y. hd (y ! b)) (all_actions0 acc)) [0..<?n]"
    and f_a1: "actions1 out = map (\<lambda>b. map (\<lambda>y. hd (y ! b)) (all_actions1 acc)) [0..<?n]"
    and f_l0: "logits_actions0 out = map (\<lambda>b. map (\<lambda>y. hd (y ! b)) (all_logits_actions0 acc)) [0..<?n]"
    and f_l1: "logits_actions1 out = map (\<lambda>b. map (\<lambda>y. hd (y ! b)) (all_logits_actions1 acc)) [0..<?n]"
    and f_v: "values out = map (\<lambda>b. map (\<lambda>y. hd (hd (y ! b))) (all_values0 acc)) [0..<?n]"
    and f_r: "rewards out = map (\<lambda>b. map (\<lambda>y. hd (y ! b)) (all_rewards acc)) [0..<?n]"
    and f_e: "ends out = map (\<lambda>b. map (\<lambda>y. hd (y ! b)) (all_ends acc)) [0..<?n]"
    by (simp_all add: bo)
  have s_a0: "mat_shape ?n T (actions0 out)"
    unfolding f_a0 using columns_shape[of ?n "all_actions0 acc" hd] lens by simp
  have s_a1: "mat_shape ?n T (actions1 out)"
    unfolding f_a1 using columns_shape[of ?n "all_actions1 acc" hd] lens by simp
  have s_v: "mat_shape ?n T (values out)"
    unfolding f_v using columns_shape[of ?n "all_values0 acc" "\<lambda>x. hd (hd x)"] lens by simp
  have s_r: "mat_shape ?n T (rewards out)"
    unfolding f_r using columns_shape[of ?n "all_rewards acc" hd] lens by simp
  have s_e: "mat_shape ?n T (ends out)"
    unfolding f_e using columns_shape[of ?n "all_ends acc" hd] lens by simp
  have s_l0: "mat_shape ?n T (logits_actions0 out)"
    unfolding f_l0 using columns_shape[of ?n "all_logits_actions0 acc" hd] lens by simp
  have s_l1: "mat_shape ?n T (logits_actions1 out)"
    unfolding f_l1 using columns_shape[of ?n "all_logits_actions1 acc" hd] lens by simp
  have k_l0: "list_all (list_all (\<lambda>l. length l = 7)) (logits_actions0 out)"
    unfolding f_l0 using ok by (intro logits_columns) simp
  have k_l1: "list_all (list_all (\<lambda>l. length l = 7)) (logits_actions1 out)"
    unfolding f_l1 using ok by (intro logits_columns) simp
  have s_o: "mat_shape ?n T (observations out)"
    unfolding f_obs using lens by (simp add: mat_shape_def list_all_iff)
  have k_o: "list_all (list_all (img_shape 3 64 64)) (observations out)"
    unfolding f_obs using ok by (intro observations_columns[where P = "\<lambda>x. list_all (\<lambda>v. 0 \<le> v \<and> v \<le> 1) (elems x)"]) simp
  have pix: "0 \<le> images_of (all_observations0 acc ! t) ! b ! c ! i ! j \<and>
         images_of (all_observations0 acc ! t) ! b ! c ! i ! j \<le> 1 \<and>
         observations out ! b ! t ! c ! i ! j = byte (images_of (all_observations0 acc ! t) ! b ! c ! i ! j) \<and>
         uint (observations out ! b ! t ! c ! i ! j)
           = \<lfloor>images_of (all_observations0 acc ! t) ! b ! c ! i ! j * 255\<rfloor> \<and>
         uint (observations out ! b ! t ! c ! i ! j) \<le> 255"
    if "b < ?n" "t < T" "c < 3" "i < 64" "j < 64" for b t c i j
  proof -
    let ?x = "all_observations0 acc ! t"
    have x: "wf_tensor ?x" "shape ?x = [?n, 3, 64, 64]" "list_all (\<lambda>v. 0 \<le> v \<and> v \<le> 1) (elems ?x)"
      using ok that(2) lens(1) by (simp_all add: list_all_length)
    note p = observation_pixel[OF x that(1,3,4,5)]
    have "observations out ! b ! t = map (map (map byte)) (images_of ?x ! b)"
      unfolding f_obs using that(1,2) lens(1) by simp
    with p byte_range[of "images_of ?x ! b ! c ! i ! j"] show ?thesis by simp
  qed
  show "\<exists>T acc w1. 0 < T \<and> T \<le> 200 \<and> 0 < env_n envs \<and>
      collect envs smp (a, s, g) = (Inr acc, w1) \<and> length (all_observations0 acc) = T \<and>
      mat_shape (env_n envs) T (actions0 out) \<and> mat_shape (env_n envs) T (actions1 out) \<and>
      mat_shape (env_n envs) T (values out) \<and> mat_shape (env_n envs) T (rewards out) \<and>
      mat_shape (env_n envs) T (ends out) \<and>
      mat_shape (env_n envs) T (logits_actions0 out) \<and>
      list_all (list_all (\<lambda>l. length l = 7)) (logits_actions0 out) \<and>
      mat_shape (env_n envs) T (logits_actions1 out) \<and>
      list_all (list_all (\<lambda>l. length l = 7)) (logits_actions1 out) \<and>
      mat_shape (env_n envs) T (observations out) \<and>
      list_all (list_all (img_shape 3 64 64)) (observations out) \<and>
      (\<forall>b<env_n envs. \<forall>t<T. \<forall>c<3. \<forall>i<64. \<forall>j<64.
         0 \<le> images_of (all_observations0 acc ! t) ! b ! c ! i ! j \<and>
         images_of (all_observations0 acc ! t) ! b ! c ! i ! j \<le> 1 \<and>
         observations out ! b ! t ! c ! i ! j = byte (images_of (all_observations0 acc ! t) ! b ! c ! i ! j) \<and>
         uint (observations out ! b ! t ! c ! i ! j)
           = \<lfloor>images_of (all_observations0 acc ! t) ! b ! c ! i ! j * 255\<rfloor> \<and>
         uint (observations out ! b ! t ! c ! i ! j) \<le> 255)"
    apply (rule exI[of _ T], rule exI[of _ acc], rule exI[of _ "(a', s', g')"])
    apply (intro conjI allI impI)
    apply (rule T(1), rule T(2), rule T(3), rule c, rule lens(1))
    apply (rule s_a0, rule s_a1, rule s_v, rule s_r, rule s_e, rule s_l0, rule k_l0, rule s_l1, rule k_l1)
    apply (rule s_o, rule k_o)
    using pix apply blast+
    done
qed

theorem rollout_output_well_formed_witness:
  "\<exists>out w'. wf_weights zero_actor \<and> wf_env (done_env 1) \<and>
     batch_rollout (done_env 1) first_action (zero_actor, (), ()) = (Inr out, w') \<and>
   (\<exists>T acc w1. 0 < T \<and> T \<le> 200 \<and> 0 < env_n (done_env 1) \<and>
      collect (done_env 1) first_action (zero_actor, (), ()) = (Inr acc, w1) \<and> length (all_observations0 acc) = T \<and>
      mat_shape (env_n (done_env 1)) T (actions0 out) \<and> mat_shape (env_n (done_env 1)) T (actions1 out) \<and>
      mat_shape (env_n (done_env 1)) T (values out) \<and> mat_shape (env_n (done_env 1)) T (rewards out) \<and>
      mat_shape (env_n (done_env 1)) T (ends out) \<and>
      mat_shape (env_n (done_env 1)) T (logits_actions0 out) \<and>
      list_all (list_all (\<lambda>l. length l = 7)) (logits_actions0 out) \<and>
      mat_shape (env_n (done_env 1)) T (logits_actions1 out) \<and>
      list_all (list_all (\<lambda>l. length l = 7)) (logits_actions1 out) \<and>
      mat_shape (env_n (done_env 1)) T (observations out) \<and>
      list_all (list_all (img_shape 3 64 64)) (observations out) \<and>
      (\<forall>b<env_n (done_env 1). \<forall>t<T. \<forall>c<3. \<forall>i<64. \<forall>j<64.
         0 \<le> images_of (all_observations0 acc ! t) ! b ! c ! i ! j \<and>
         images_of (all_observations0 acc ! t) ! b ! c ! i ! j \<le> 1 \<and>
         observations out ! b ! t ! c ! i ! j = byte (images_of (all_observations0 acc ! t) ! b ! c ! i ! j) \<and>
         uint (observations out ! b ! t ! c ! i ! j)
           = \<lfloor>images_of (all_observations0 acc ! t) ! b ! c ! i ! j * 255\<rfloor> \<and>
         uint (observations out ! b ! t ! c ! i ! j) \<le> 255))"
proof -
  have l: "lockstep_env (done_env 1)" by (simp add: lockstep_done_env)
  from batch_rollout_total[OF wf_zero_actor l, of first_action "()" "()"]
  obtain out w' where b: "batch_rollout (done_env 1) first_action (zero_actor, (), ()) = (Inr out, w')"
    by blast
  have h: "wf_weights zero_actor \<and> wf_env (done_env 1) \<and>
      batch_rollout (done_env 1) first_action (zero_actor, (), ()) = (Inr out, w')"
    using wf_zero_actor lockstep_wf_env[OF l] b by (intro conjI)
  note r = rollout_output_well_formed[of zero_actor "done_env 1" first_action "()" "()" out w', rule_format, OF h]
  show ?thesis
    apply (rule exI[of _ out], rule exI[of _ w'])
    apply (rule conjI, rule wf_zero_actor)
    apply (rule conjI, rule lockstep_wf_env[OF l])
    apply (rule conjI, rule b)
    apply (rule r)
    done
qed

lemma forward_empty:
  assumes "length (shape x) = 4" "tl (shape x) = [3, 64, 64]" "elems x = []"
  shows "forward m x = (Inl RuntimeError, m)"
  using assms by (simp add: forward_def)

lemma forward_mismatch:
  assumes "wf_weights m" "length (shape x) = 4" "tl (shape x) = [3, 64, 64]" "elems x \<noteq> []"
    "\<forall>v\<in>set (elems x). 0 \<le> v \<and> v \<le> 1" "hx m = Some h" "cx m = Some c"
    "length (elems x) div 12288 \<noteq> length h"
  shows "forward m x = (Inl RuntimeError, m)"
proof -
  have "lstm m (map (features m) (images_of x)) (hx m, cx m) = Inl RuntimeError"
    using features_all_length[OF assms(1), of x] assms(6,7,8)
    by (simp add: lstm_def length_images_of)
  then show ?thesis
    using assms(2,3,4,5) by (simp only: forward_def range_checks[OF assms(4)]) simp
qed

section \<open>The contract of \<open>forward\<close>\<close>

text \<open>
  C6, as stated, fails on two inputs that satisfy its hypotheses.  With the hidden
  state present for a batch of 1 and an input batch of 2 images with every pixel 1/2,
  the recurrent cell raises \<open>RuntimeError\<close> (the batch sizes differ).  With an empty
  batch, of shape (0, 3, 64, 64), and the hidden state present for 0,
  \<^verbatim>\<open>inputs.min()\<close> raises \<open>RuntimeError\<close>.  In both the module is left as it was.
\<close>

theorem forward_fails_counterexample:
  "wf_weights (reset 1 zero_actor) \<and> present 1 (reset 1 zero_actor) \<and>
   wf_tensor (grey_obs 2) \<and> shape (grey_obs 2) = [2, 3, 64, 64] \<and>
   list_all (\<lambda>v. 0 \<le> v \<and> v \<le> 1) (elems (grey_obs 2)) \<and>
   forward (reset 1 zero_actor) (grey_obs 2) = (Inl RuntimeError, reset 1 zero_actor) \<and>
   wf_weights (reset 0 zero_actor) \<and> present 0 (reset 0 zero_actor) \<and>
   wf_tensor (grey_obs 0) \<and> shape (grey_obs 0) = [0, 3, 64, 64] \<and>
   list_all (\<lambda>v. 0 \<le> v \<and> v \<le> 1) (elems (grey_obs 0)) \<and>
   forward (reset 0 zero_actor) (grey_obs 0) = (Inl RuntimeError, reset 0 zero_actor)"
proof -
  have w: "wf_weights (reset n zero_actor)" for n using wf_zero_actor by (simp add: wf_weights_reset)
  have r: "list_all (\<lambda>v. 0 \<le> v \<and> v \<le> 1) (elems (grey_obs n))" for n
    using grey_obs_ok(3)[of n] by (simp add: list_all_iff)
  have h: "hx (reset 1 zero_actor) = Some (replicate 1 (replicate lstm_dim 0))"
    "cx (reset 1 zero_actor) = Some (replicate 1 (replicate lstm_dim 0))"
    by (simp_all add: reset_def)
  have ne: "elems (grey_obs 2) \<noteq> []" "length (elems (grey_obs 2)) div 12288 \<noteq> length (replicate 1 (replicate lstm_dim (0::real)))"
    by (simp_all add: grey_obs_def)
  have f2: "forward (reset 1 zero_actor) (grey_obs 2) = (Inl RuntimeError, reset 1 zero_actor)"
    using grey_obs_ok(2)[of 2] by (intro forward_mismatch[OF w _ _ ne(1) grey_obs_ok(3) h ne(2)]) simp_all
  have f0: "forward (reset 0 zero_actor) (grey_obs 0) = (Inl RuntimeError, reset 0 zero_actor)"
    by (rule forward_empty) (simp_all add: grey_obs_def)
  from w[of 1] present_reset[of 1 zero_actor] grey_obs_ok(1,2)[of 2] r[of 2] f2
    w[of 0] present_reset[of 0 zero_actor] grey_obs_ok(1,2)[of 0] r[of 0] f0
  show ?thesis by (intro conjI)
qed

text \<open>
  C6, amended.  For every input batch of shape (N, 3, 64, 64) with \<open>N \<ge> 1\<close>, all values
  in [0, 1], and the hidden state present for the same batch size \<open>N\<close>, \<open>forward\<close>
  returns action logits of shape (N, 1, 7) for each of the two heads and a value of
  shape (N, 1, 1), and leaves the hidden state present for \<open>N\<close>.  For an input of wrong
  rank, of wrong channel or spatial dimensions, or with a pixel outside [0, 1],
  \<open>forward\<close> raises \<open>AssertionError\<close> and leaves the module as it was.
\<close>

theorem forward_contract:
  "(wf_weights m \<and> wf_tensor inputs \<and> shape inputs = [N, 3, 64, 64] \<and> 0 < N \<and>
    (\<forall>v\<in>set (elems inputs). 0 \<le> v \<and> v \<le> 1) \<and> present N m \<longrightarrow>
      (\<exists>out m'. forward m inputs = (Inr out, m') \<and> out_shape N out \<and> present N m')) \<and>
   (\<not> (length (shape inputs) = 4 \<and> tl (shape inputs) = [3, 64, 64]) \<or>
    (\<exists>v\<in>set (elems inputs). v < 0 \<or> 1 < v) \<longrightarrow>
      forward m inputs = (Inl AssertionError, m))"
proof (intro conjI impI)
  assume "wf_weights m \<and> wf_tensor inputs \<and> shape inputs = [N, 3, 64, 64] \<and> 0 < N \<and>
    (\<forall>v\<in>set (elems inputs). 0 \<le> v \<and> v \<le> 1) \<and> present N m"
  then show "\<exists>out m'. forward m inputs = (Inr out, m') \<and> out_shape N out \<and> present N m'"
    using forward_ok[of m inputs N] by blast
next
  assume "\<not> (length (shape inputs) = 4 \<and> tl (shape inputs) = [3, 64, 64]) \<or>
    (\<exists>v\<in>set (elems inputs). v < 0 \<or> 1 < v)"
  then show "forward m inputs = (Inl AssertionError, m)" by (rule forward_assert)
qed

theorem forward_contract_witness:
  "wf_weights (reset 1 zero_actor) \<and> wf_tensor (grey_obs 1) \<and> shape (grey_obs 1) = [1, 3, 64, 64] \<and>
   present 1 (reset 1 zero_actor) \<and>
   (\<exists>out m'. forward (reset 1 zero_actor) (grey_obs 1) = (Inr out, m') \<and> out_shape 1 out \<and> present 1 m') \<and>
   forward zero_actor (const_obs [3, 64, 64] (1 / 2)) = (Inl AssertionError, zero_actor) \<and>
   forward zero_actor (const_obs [1, 3, 32, 64] (1 / 2)) = (Inl AssertionError, zero_actor) \<and>
   forward zero_actor (const_obs [1, 3, 64, 64] 2) = (Inl AssertionError, zero_actor)"
proof -
  have w: "wf_weights (reset 1 zero_actor)" using wf_zero_actor by (simp add: wf_weights_reset)
  have h: "wf_weights (reset 1 zero_actor) \<and> wf_tensor (grey_obs 1) \<and> shape (grey_obs 1) = [1, 3, 64, 64] \<and>
    0 < (1::nat) \<and> (\<forall>v\<in>set (elems (grey_obs 1)). 0 \<le> v \<and> v \<le> 1) \<and> present 1 (reset 1 zero_actor)"
    using w grey_obs_ok[of 1] present_reset[of 1 zero_actor] by simp
  have a: "\<exists>out m'. forward (reset 1 zero_actor) (grey_obs 1) = (Inr out, m') \<and> out_shape 1 out \<and> present 1 m'"
    by (rule forward_contract[THEN conjunct1, rule_format, OF h])
  have b: "forward zero_actor (const_obs [3, 64, 64] (1 / 2)) = (Inl AssertionError, zero_actor)"
    by (rule forward_contract[THEN conjunct2, rule_format]) (simp add: const_obs_def)
  have c: "forward zero_actor (const_obs [1, 3, 32, 64] (1 / 2)) = (Inl AssertionError, zero_actor)"
    by (rule forward_contract[THEN conjunct2, rule_format]) (simp add: const_obs_def)
  have d: "forward zero_actor (const_obs [1, 3, 64, 64] 2) = (Inl AssertionError, zero_actor)"
    by (rule forward_contract[THEN conjunct2, rule_format]) (simp add: const_obs_def)
  from w grey_obs_ok(1,2)[of 1] present_reset[of 1 zero_actor] a b c d show ?thesis by (intro conjI)
qed

lemma rescale_nth:
  assumes "img_shape 3 64 64 x" "c < 3" "i < 64" "j < 64"
  shows "rescale x ! c ! i ! j = 2 * (x ! c ! i ! j) - 1"
  using assms by (simp add: rescale_def img_shape_def list_all_length)

lemma forward_Inr_lstm:
  assumes "forward m x = (Inr out, m')"
  shows "\<exists>h c h' c'. hx m = Some h \<and> cx m = Some c \<and> hx m' = Some h' \<and> cx m' = Some c' \<and>
     lstm m (map (features m) (images_of x)) (Some h, Some c) = Inr (h', c') \<and>
     (\<forall>v\<in>set (elems x). 0 \<le> v \<and> v \<le> 1)"
  using forward_cases[of m x] assms by auto

section \<open>The rescaling of the input\<close>

text \<open>
  C9.  Whenever \<open>forward\<close> returns, the new hidden state is the recurrent cell applied
  to the features of the rescaled images: the first convolution is applied to
  \<open>rescale x\<close>, in which every pixel \<open>v\<close> of the input, which lies in [0, 1], has
  become \<open>2 v - 1\<close>, which lies in [-1, 1].
\<close>

theorem forward_rescales_input:
  "forward m inputs = (Inr out, m') \<longrightarrow>
   (\<exists>h c h' c'. hx m = Some h \<and> cx m = Some c \<and> hx m' = Some h' \<and> cx m' = Some c' \<and>
      lstm m (map (\<lambda>x. flatten (stage (conv4_weight m) (conv4_bias m)
                 (stage (conv3_weight m) (conv3_bias m)
                   (stage (conv2_weight m) (conv2_bias m)
                     (stage (conv1_weight m) (conv1_bias m) (rescale x))))))
               (images_of inputs)) (Some h, Some c) = Inr (h', c')) \<and>
   (\<forall>b<length (images_of inputs). \<forall>c<3. \<forall>i<64. \<forall>j<64.
      0 \<le> images_of inputs ! b ! c ! i ! j \<and> images_of inputs ! b ! c ! i ! j \<le> 1 \<and>
      rescale (images_of inputs ! b) ! c ! i ! j = 2 * (images_of inputs ! b ! c ! i ! j) - 1 \<and>
      - 1 \<le> rescale (images_of inputs ! b) ! c ! i ! j \<and>
      rescale (images_of inputs ! b) ! c ! i ! j \<le> 1)"
proof
  assume f: "forward m inputs = (Inr out, m')"
  from forward_Inr_lstm[OF f] obtain h c h' c' where
    hc: "hx m = Some h" "cx m = Some c" "hx m' = Some h'" "cx m' = Some c'"
    and l: "lstm m (map (features m) (images_of inputs)) (Some h, Some c) = Inr (h', c')"
    and rg: "\<forall>v\<in>set (elems inputs). 0 \<le> v \<and> v \<le> 1" by blast
  have fe: "features m = (\<lambda>x. flatten (stage (conv4_weight m) (conv4_bias m)
                 (stage (conv3_weight m) (conv3_bias m)
                   (stage (conv2_weight m) (conv2_bias m)
                     (stage (conv1_weight m) (conv1_bias m) (rescale x))))))"
    by (rule ext) (simp add: features_def)
  have 1: "\<exists>h c h' c'. hx m = Some h \<and> cx m = Some c \<and> hx m' = Some h' \<and> cx m' = Some c' \<and>
      lstm m (map (\<lambda>x. flatten (stage (conv4_weight m) (conv4_bias m)
                 (stage (conv3_weight m) (conv3_bias m)
                   (stage (conv2_weight m) (conv2_bias m)
                     (stage (conv1_weight m) (conv1_bias m) (rescale x))))))
               (images_of inputs)) (Some h, Some c) = Inr (h', c')"
    using hc l unfolding fe by blast
  have 2: "0 \<le> images_of inputs ! b ! c ! i ! j \<and> images_of inputs ! b ! c ! i ! j \<le> 1 \<and>
      rescale (images_of inputs ! b) ! c ! i ! j = 2 * (images_of inputs ! b ! c ! i ! j) - 1 \<and>
      - 1 \<le> rescale (images_of inputs ! b) ! c ! i ! j \<and>
      rescale (images_of inputs ! b) ! c ! i ! j \<le> 1"
    if "b < length (images_of inputs)" "c < 3" "i < 64" "j < 64" for b c i j
  proof -
    have b: "b < length (elems inputs) div 12288" using that(1) by (simp add: length_images_of)
    from images_of_in_set[OF b that(2,3,4)] rg
    have p: "0 \<le> images_of inputs ! b ! c ! i ! j" "images_of inputs ! b ! c ! i ! j \<le> 1" by auto
    have "img_shape 3 64 64 (images_of inputs ! b)"
      using images_of_shape[of inputs] that(1) by (simp add: list_all_length)
    from rescale_nth[OF this that(2,3,4)] p show ?thesis by simp
  qed
  from 1 2 show "(\<exists>h c h' c'. hx m = Some h \<and> cx m = Some c \<and> hx m' = Some h' \<and> cx m' = Some c' \<and>
      lstm m (map (\<lambda>x. flatten (stage (conv4_weight m) (conv4_bias m)
                 (stage (conv3_weight m) (conv3_bias m)
                   (stage (conv2_weight m) (conv2_bias m)
                     (stage (conv1_weight m) (conv1_bias m) (rescale x))))))
               (images_of inputs)) (Some h, Some c) = Inr (h', c')) \<and>
   (\<forall>b<length (images_of inputs). \<forall>c<3. \<forall>i<64. \<forall>j<64.
      0 \<le> images_of inputs ! b ! c ! i ! j \<and> images_of inputs ! b ! c ! i ! j \<le> 1 \<and>
      rescale (images_of inputs ! b) ! c ! i ! j = 2 * (images_of inputs ! b ! c ! i ! j) - 1 \<and>
      - 1 \<le> rescale (images_of inputs ! b) ! c ! i ! j \<and>
      rescale (images_of inputs ! b) ! c ! i ! j \<le> 1)"
    by (intro conjI allI impI) blast+
qed

theorem forward_rescales_input_witness:
  "\<exists>out m'. forward (reset 1 zero_actor) (grey_obs 1) = (Inr out, m') \<and>
   (\<exists>h c h' c'. hx (reset 1 zero_actor) = Some h \<and> cx (reset 1 zero_actor) = Some c \<and>
      hx m' = Some h' \<and> cx m' = Some c' \<and>
      lstm (reset 1 zero_actor) (map (\<lambda>x. flatten (stage (conv4_weight (reset 1 zero_actor)) (conv4_bias (reset 1 zero_actor))
                 (stage (conv3_weight (reset 1 zero_actor)) (conv3_bias (reset 1 zero_actor))
                   (stage (conv2_weight (reset 1 zero_actor)) (conv2_bias (reset 1 zero_actor))
                     (stage (conv1_weight (reset 1 zero_actor)) (conv1_bias (reset 1 zero_actor)) (rescale x))))))
               (images_of (grey_obs 1))) (Some h, Some c) = Inr (h', c')) \<and>
   rescale (images_of (grey_obs 1) ! 0) ! 0 ! 0 ! 0 = 2 * (images_of (grey_obs 1) ! 0 ! 0 ! 0 ! 0) - 1 \<and>
   images_of (grey_obs 1) ! 0 ! 0 ! 0 ! 0 = 1 / 2 \<and>
   rescale (images_of (grey_obs 1) ! 0) ! 0 ! 0 ! 0 = 0"
proof -
  obtain out m' where f: "forward (reset 1 zero_actor) (grey_obs 1) = (Inr out, m')"
    using forward_zero_actor[of 1] by auto
  note r = forward_rescales_input[of "reset 1 zero_actor" "grey_obs 1" out m', rule_format, OF f]
  have len: "length (images_of (grey_obs 1)) = 1" by (simp add: length_images_of grey_obs_def)
  have p: "images_of (grey_obs 1) ! 0 ! 0 ! 0 ! 0 = 1 / 2"
    by (subst images_of_nth) (simp_all add: grey_obs_def)
  have l0: "0 < length (images_of (grey_obs 1))" using len by simp
  have q: "rescale (images_of (grey_obs 1) ! 0) ! 0 ! 0 ! 0 = 2 * (images_of (grey_obs 1) ! 0 ! 0 ! 0 ! 0) - 1"
    using r[THEN conjunct2, rule_format, OF l0, of 0 0 0] by simp
  then have z: "rescale (images_of (grey_obs 1) ! 0) ! 0 ! 0 ! 0 = 0" unfolding p by simp
  show ?thesis
    apply (rule exI[of _ out], rule exI[of _ m'])
    apply (rule conjI, rule f)
    apply (rule conjI, rule r[THEN conjunct1])
    apply (rule conjI, rule q)
    apply (rule conjI, rule p, rule z)
    done
qed

lemma lambda_return_row_length:
  "lambda_return_row g l rs vs es = Some rets \<Longrightarrow> length rets = length vs"
  by (induction g l rs vs es arbitrary: rets rule: lambda_return_row.induct)
     (auto split: option.splits)

lemma lambda_return_row_last:
  "lambda_return_row g l rs vs es = Some rets \<Longrightarrow> vs \<noteq> [] \<Longrightarrow> last rets = last vs"
proof (induction g l rs vs es arbitrary: rets rule: lambda_return_row.induct)
  case (3 g l r rs v v' vs e es)
  then obtain rest where rest: "lambda_return_row g l rs (v' # vs) es = Some rest"
    by (auto split: option.splits)
  from lambda_return_row_length[OF rest] have "rest \<noteq> []" by auto
  with 3 rest show ?case by auto
qed auto

lemma lambda_return_row_step:
  "lambda_return_row g l rs vs es = Some rets \<Longrightarrow> Suc t < length vs \<Longrightarrow>
   rets ! t = (if es ! t then rs ! t else rs ! t + g * ((1 - l) * vs ! Suc t + l * rets ! Suc t))"
proof (induction g l rs vs es arbitrary: rets t rule: lambda_return_row.induct)
  case (3 g l r rs v v' vs e es)
  then obtain rest where rest: "lambda_return_row g l rs (v' # vs) es = Some rest"
    and rets: "rets = (if e then r else r + g * ((1 - l) * v' + l * hd rest)) # rest"
    by (auto split: option.splits)
  from lambda_return_row_length[OF rest] have ne: "rest \<noteq> []" by auto
  show ?case
  proof (cases t)
    case 0
    with rets ne show ?thesis by (simp add: hd_conv_nth)
  next
    case (Suc t')
    with "3.prems"(2) have "Suc t' < length (v' # vs)" by simp
    from "3.IH"[OF rest this] Suc rets show ?thesis by simp
  qed
qed auto

lemma lambda_return_row_total:
  "length vs - 1 \<le> length rs \<Longrightarrow> length vs - 1 \<le> length es \<Longrightarrow>
   \<exists>rets. lambda_return_row g l rs vs es = Some rets"
  by (induction g l rs vs es rule: lambda_return_row.induct) (auto split: option.splits)

lemma those_rows_nth:
  "those_rows xs = Some ys \<Longrightarrow> b < length xs \<Longrightarrow> xs ! b = Some (ys ! b)"
proof (induction xs arbitrary: ys b rule: those_rows.induct)
  case (3 x xs)
  then show ?case by (cases b) (auto split: option.splits)
qed auto

lemma those_rows_length: "those_rows xs = Some ys \<Longrightarrow> length ys = length xs"
  by (induction xs arbitrary: ys rule: those_rows.induct) (auto split: option.splits)

lemma those_rows_total: "list_all (\<lambda>x. x \<noteq> None) xs \<Longrightarrow> \<exists>ys. those_rows xs = Some ys"
  by (induction xs rule: those_rows.induct) auto

lemma compute_lambda_returns_row:
  assumes "compute_lambda_returns Rs Vs Es g l = Some Rets" "b < length Vs"
  shows "lambda_return_row g l (Rs ! b) (Vs ! b) (Es ! b) = Some (Rets ! b)"
proof -
  from assms(1) have len: "length Rs = length Vs" "length Es = length Vs"
    and t: "those_rows (map (\<lambda>(r, v, e). lambda_return_row g l r v e) (zip Rs (zip Vs Es))) = Some Rets"
    by (auto simp: compute_lambda_returns_def split: if_splits)
  from those_rows_nth[OF t, of b] assms(2) len show ?thesis by simp
qed

section \<open>The lambda-returns\<close>

text \<open>
  C3.  For the lambda-returns as the specification describes them (a row of values
  with its rewards and flags): the returns have the shape of the values and the last
  return is the last value (the base case); at every earlier step \<open>t\<close> the return is
  the reward alone when \<open>ends[t]\<close> is set, and otherwise
  \<open>reward[t] + gamma * ((1 - lam) * value[t+1] + lam * return[t+1])\<close>; rows with as many
  rewards and flags as values always have returns.  For a trajectory of one step with
  \<open>ends = [True]\<close>, with the value \<open>v0\<close> of the step and the value \<open>v1\<close> of the final
  slot, the return of the step is its reward; a row with one value only is the final
  slot alone, and its return is that value.  With \<open>lam = 0\<close> the return of a step that
  is not flagged is \<open>reward[t] + gamma * value[t+1]\<close>.  The batch is computed row by row.
\<close>

theorem lambda_returns_recursion:
  "(lambda_return_row gamma lam rs vs es = Some rets \<and> vs \<noteq> [] \<longrightarrow>
      length rets = length vs \<and> last rets = last vs \<and>
      (\<forall>t. Suc t < length vs \<longrightarrow>
         rets ! t = (if es ! t then rs ! t
                     else rs ! t + gamma * ((1 - lam) * vs ! Suc t + lam * rets ! Suc t)))) \<and>
   (length rs = length vs \<and> length es = length vs \<longrightarrow>
      (\<exists>rets. lambda_return_row gamma lam rs vs es = Some rets)) \<and>
   lambda_return_row gamma lam [r] [v0, v1] [True] = Some [r, v1] \<and>
   lambda_return_row gamma lam [r] [v0] [True] = Some [v0] \<and>
   (lambda_return_row gamma 0 rs vs es = Some rets \<and> Suc t < length vs \<and> \<not> es ! t \<longrightarrow>
      rets ! t = rs ! t + gamma * vs ! Suc t) \<and>
   (compute_lambda_returns Rs Vs Es gamma lam = Some Rets \<and> b < length Vs \<longrightarrow>
      lambda_return_row gamma lam (Rs ! b) (Vs ! b) (Es ! b) = Some (Rets ! b))"
proof (intro conjI)
  show "lambda_return_row gamma lam rs vs es = Some rets \<and> vs \<noteq> [] \<longrightarrow>
      length rets = length vs \<and> last rets = last vs \<and>
      (\<forall>t. Suc t < length vs \<longrightarrow>
         rets ! t = (if es ! t then rs ! t
                     else rs ! t + gamma * ((1 - lam) * vs ! Suc t + lam * rets ! Suc t)))"
  proof (intro impI conjI allI)
    assume h: "lambda_return_row gamma lam rs vs es = Some rets \<and> vs \<noteq> []"
    from h show "length rets = length vs" by (auto dest: lambda_return_row_length)
    from h show "last rets = last vs" by (auto dest: lambda_return_row_last)
    fix t assume "Suc t < length vs"
    with h show "rets ! t = (if es ! t then rs ! t
                     else rs ! t + gamma * ((1 - lam) * vs ! Suc t + lam * rets ! Suc t))"
      using lambda_return_row_step[of gamma lam rs vs es rets t] by blast
  qed
  show "length rs = length vs \<and> length es = length vs \<longrightarrow>
      (\<exists>rets. lambda_return_row gamma lam rs vs es = Some rets)"
    using lambda_return_row_total[of vs rs es gamma lam] by simp
  show "lambda_return_row gamma lam [r] [v0, v1] [True] = Some [r, v1]" by simp
  show "lambda_return_row gamma lam [r] [v0] [True] = Some [v0]" by simp
  show "lambda_return_row gamma 0 rs vs es = Some rets \<and> Suc t < length vs \<and> \<not> es ! t \<longrightarrow>
      rets ! t = rs ! t + gamma * vs ! Suc t"
    using lambda_return_row_step[of gamma 0 rs vs es rets t] by simp
  show "compute_lambda_returns Rs Vs Es gamma lam = Some Rets \<and> b < length Vs \<longrightarrow>
      lambda_return_row gamma lam (Rs ! b) (Vs ! b) (Es ! b) = Some (Rets ! b)"
    using compute_lambda_returns_row[of Rs Vs Es gamma lam Rets b] by blast
qed

theorem lambda_returns_recursion_witness:
  "lambda_return_row (1 / 2) (1 / 2) [1, 2, 0] [10, 20, 30] [False, True, False] = Some [13 / 2, 2, 30] \<and>
   last [13 / 2, 2, 30 :: real] = last [10, 20, 30] \<and>
   [13 / 2, 2, 30 :: real] ! 1 = [1, 2, 0] ! 1 \<and>
   [13 / 2, 2, 30 :: real] ! 0 = [1, 2, 0] ! 0 + 1 / 2 * ((1 - 1 / 2) * [10, 20, 30] ! 1 + 1 / 2 * [13 / 2, 2, 30] ! 1) \<and>
   (\<exists>rets. lambda_return_row (1 / 2) (1 / 2) [1, 2, 0] [10, 20, 30] [False, True, False] = Some rets) \<and>
   lambda_return_row (1 / 2) 0 [1, 2, 0] [10, 20, 30] [False, True, False] = Some [11, 2, 30] \<and>
   [11, 2, 30 :: real] ! 0 = [1, 2, 0] ! 0 + 1 / 2 * [10, 20, 30] ! 1 \<and>
   compute_lambda_returns [[1, 2, 0]] [[10, 20, 30]] [[False, True, False]] (1 / 2) (1 / 2) = Some [[13 / 2, 2, 30]] \<and>
   lambda_return_row (1 / 2) (1 / 2) ([[1, 2, 0]] ! 0) ([[10, 20, 30]] ! 0) ([[False, True, False]] ! 0)
     = Some ([[13 / 2, 2, 30]] ! 0)"
proof -
  have e: "lambda_return_row (1 / 2) (1 / 2) [1, 2, 0] [10, 20, 30] [False, True, False] = Some [13 / 2, 2, 30]"
    by simp
  have e0: "lambda_return_row (1 / 2) 0 [1, 2, 0] [10, 20, 30] [False, True, False] = Some [11, 2, 30]"
    by simp
  have c: "compute_lambda_returns [[1, 2, 0]] [[10, 20, 30]] [[False, True, False]] (1 / 2) (1 / 2) = Some [[13 / 2, 2, 30]]"
    by (simp add: compute_lambda_returns_def)
  note th = lambda_returns_recursion[where gamma = "1 / 2" and lam = "1 / 2" and rs = "[1, 2, 0]"
      and vs = "[10, 20, 30]" and es = "[False, True, False]" and rets = "[13 / 2, 2, 30]"]
  have h: "lambda_return_row (1 / 2) (1 / 2) [1, 2, 0] [10, 20, 30] [False, True, False] = Some [13 / 2, 2, 30]
      \<and> [10, 20, 30 :: real] \<noteq> []" using e by simp
  note p1 = th[THEN conjunct1, rule_format, OF h]
  have a: "last [13 / 2, 2, 30 :: real] = last [10, 20, 30]" using p1 by simp
  have b1: "[13 / 2, 2, 30 :: real] ! 1 = [1, 2, 0] ! 1"
    using p1[THEN conjunct2, THEN conjunct2, rule_format, of 1] by simp
  have b0: "[13 / 2, 2, 30 :: real] ! 0 = [1, 2, 0] ! 0 + 1 / 2 * ((1 - 1 / 2) * [10, 20, 30] ! 1 + 1 / 2 * [13 / 2, 2, 30] ! 1)"
    using p1[THEN conjunct2, THEN conjunct2, rule_format, of 0] by simp
  have t: "\<exists>rets. lambda_return_row (1 / 2) (1 / 2) [1, 2, 0] [10, 20, 30] [False, True, False] = Some rets"
    by (rule th[THEN conjunct2, THEN conjunct1, rule_format]) simp
  have z: "[11, 2, 30 :: real] ! 0 = [1, 2, 0] ! 0 + 1 / 2 * [10, 20, 30] ! 1"
    using lambda_returns_recursion[where gamma = "1 / 2" and rs = "[1, 2, 0]" and vs = "[10, 20, 30]"
        and es = "[False, True, False]" and rets = "[11, 2, 30]" and t = 0,
        THEN conjunct2, THEN conjunct2, THEN conjunct2, THEN conjunct2, THEN conjunct1]
      e0 by simp
  have r: "lambda_return_row (1 / 2) (1 / 2) ([[1, 2, 0]] ! 0) ([[10, 20, 30]] ! 0) ([[False, True, False]] ! 0)
     = Some ([[13 / 2, 2, 30]] ! 0)"
    by (rule lambda_returns_recursion[THEN conjunct2, THEN conjunct2, THEN conjunct2, THEN conjunct2,
          THEN conjunct2, rule_format]) (simp add: c)
  from e a b1 b0 t e0 z c r show ?thesis by (intro conjI)
qed

section \<open>The terms of the losses\<close>

lemma primal_simps:
  "primal (const c) = c" "primal (detach a) = primal a"
  "primal (d_add a b) = primal a + primal b" "primal (d_sub a b) = primal a - primal b"
  "primal (d_mul a b) = primal a * primal b" "primal (d_div a b) = primal a / primal b"
  "primal (d_neg a) = - primal a" "primal (d_exp a) = exp (primal a)" "primal (d_ln a) = ln (primal a)"
  by (simp_all add: const_def detach_def d_add_def d_sub_def d_mul_def d_div_def d_neg_def d_exp_def d_ln_def)

lemma tangent_simps:
  "tangent (const c) = 0" "tangent (detach a) = 0"
  "tangent (d_add a b) = tangent a + tangent b" "tangent (d_sub a b) = tangent a - tangent b"
  "tangent (d_mul a b) = tangent a * primal b + primal a * tangent b"
  "tangent (d_div a b) = (tangent a * primal b - primal a * tangent b) / (primal b * primal b)"
  "tangent (d_neg a) = - tangent a" "tangent (d_exp a) = tangent a * exp (primal a)"
  "tangent (d_ln a) = tangent a / primal a"
  by (simp_all add: const_def detach_def d_add_def d_sub_def d_mul_def d_div_def d_neg_def d_exp_def d_ln_def)

lemma primal_d_sum: "primal (d_sum xs) = sum_list (map primal xs)"
  by (induction xs) (simp_all add: d_sum_def primal_simps)

lemma tangent_d_sum: "tangent (d_sum xs) = sum_list (map tangent xs)"
  by (induction xs) (simp_all add: d_sum_def tangent_simps)

lemma d_mean_Some:
  assumes "xs \<noteq> []"
  shows "d_mean xs = Some (d_div (d_sum xs) (const (real (length xs))))"
  using assms by (simp add: d_mean_def)

lemma butlast_shape:
  assumes "mat_shape B T X"
  shows "mat_shape B (T - 1) (map butlast X)"
  using assms by (simp add: mat_shape_def list_all_iff)

lemma butlast_nth:
  assumes "mat_shape B T X" "b < B" "t < T - 1"
  shows "map butlast X ! b ! t = X ! b ! t"
  using assms by (simp add: mat_shape_def list_all_length nth_butlast)

lemma dims_shape:
  assumes "mat_shape B n X"
  shows "dims X = replicate B n"
proof -
  have "map length X = map (\<lambda>_. n) X"
    using assms by (simp add: mat_shape_def list_all_iff)
  then show ?thesis using assms by (simp add: dims_def mat_shape_def map_replicate_const)
qed

lemma map2_shape:
  assumes "mat_shape B n X" "mat_shape B n Y"
  shows "mat_shape B n (map2 (map2 f) X Y)"
  using assms by (auto simp: mat_shape_def list_all_iff set_zip)

lemma map2_nth:
  assumes "mat_shape B n X" "mat_shape B n Y" "b < B" "t < n"
  shows "map2 (map2 f) X Y ! b ! t = f (X ! b ! t) (Y ! b ! t)"
  using assms by (simp add: mat_shape_def list_all_length)

lemma map_map_shape: "mat_shape B n X \<Longrightarrow> mat_shape B n (map (map f) X)"
  by (simp add: mat_shape_def list_all_iff)

lemma map_map_nth:
  assumes "mat_shape B n X" "b < B" "t < n"
  shows "map (map f) X ! b ! t = f (X ! b ! t)"
  using assms by (simp add: mat_shape_def list_all_length)

lemma sum_list_nth_lessThan: "sum_list (map h xs) = (\<Sum>t<length xs. h (xs ! t))"
proof -
  have "sum_list (map h xs) = (\<Sum>t = 0..<length (map h xs). map h xs ! t)" by (rule sum_list_sum_nth)
  also have "\<dots> = (\<Sum>t<length xs. h (xs ! t))" by (simp add: lessThan_atLeast0)
  finally show ?thesis .
qed

lemma sum_concat_rows:
  assumes "mat_shape B n X"
  shows "sum_list (map h (concat X)) = (\<Sum>b<B. \<Sum>t<n. h (X ! b ! t))"
    and "length (concat X) = B * n"
proof -
  have rows: "length (X ! b) = n" if "b < B" for b
    using assms that by (simp add: mat_shape_def list_all_length)
  have len: "length X = B" using assms by (simp add: mat_shape_def)
  have "sum_list (map h (concat X)) = sum_list (map (\<lambda>row. sum_list (map h row)) X)"
    by (induction X) simp_all
  also have "\<dots> = (\<Sum>b<length X. sum_list (map h (X ! b)))"
    by (rule sum_list_nth_lessThan)
  also have "\<dots> = (\<Sum>b<B. \<Sum>t<length (X ! b). h (X ! b ! t))"
    unfolding len by (simp add: sum_list_nth_lessThan)
  also have "\<dots> = (\<Sum>b<B. \<Sum>t<n. h (X ! b ! t))"
    by (intro sum.cong refl) (simp add: rows)
  finally show "sum_list (map h (concat X)) = (\<Sum>b<B. \<Sum>t<n. h (X ! b ! t))" .
  show "length (concat X) = B * n"
    using assms by (intro concat_length_all[of n X, unfolded len]) (simp add: mat_shape_def)
qed

lemma d_mean_rows:
  assumes "mat_shape B n X" "0 < B" "0 < n"
  shows "\<exists>d. d_mean (concat X) = Some d \<and> primal d = spec_mean B n (\<lambda>b t. primal (X ! b ! t))"
proof -
  from sum_concat_rows(2)[OF assms(1)] assms(2,3) have "0 < length (concat X)" by simp
  then have ne: "concat X \<noteq> []" by (rule length_greater_0_conv[THEN iffD1])
  have "primal (d_div (d_sum (concat X)) (const (real (length (concat X)))))
      = spec_mean B n (\<lambda>b t. primal (X ! b ! t))"
    by (simp add: primal_simps primal_d_sum sum_concat_rows[OF assms(1)] spec_mean_def)
  with d_mean_Some[OF ne] show ?thesis by simp
qed

lemma exp_sum_pos:
  assumes "l \<noteq> []"
  shows "0 < sum_list (map (\<lambda>x. exp (primal x)) l)"
proof -
  from assms obtain a l' where l: "l = a # l'" by (cases l) auto
  have "0 \<le> sum_list (map (\<lambda>x. exp (primal x)) l')" by (rule sum_list_nonneg) auto
  moreover have "0 < exp (primal a)" by simp
  ultimately show ?thesis unfolding l by (simp add: add_pos_nonneg)
qed

lemma primal_logsumexp: "primal (logsumexp l) = ln (sum_list (map (\<lambda>x. exp (primal x)) l))"
  by (simp add: logsumexp_def primal_simps primal_d_sum comp_def)

lemma spec_prob_sum_list:
  assumes "a < length l"
  shows "spec_prob (map primal l) a = exp (primal (l ! a)) / sum_list (map (\<lambda>x. exp (primal x)) l)"
proof -
  have "(\<Sum>j<length l. exp (primal (l ! j))) = sum_list (map (\<lambda>x. exp (primal x)) l)"
    by (rule sum_list_nth_lessThan[symmetric])
  then show ?thesis using assms by (simp add: spec_prob_def)
qed

lemma primal_normalized:
  assumes "a < length l"
  shows "primal (normalized l ! a) = ln (spec_prob (map primal l) a)"
proof -
  let ?S = "sum_list (map (\<lambda>x. exp (primal x)) l)"
  have S: "0 < ?S" using assms by (intro exp_sum_pos) auto
  have "primal (normalized l ! a) = primal (l ! a) - ln ?S"
    using assms by (simp add: normalized_def primal_simps primal_logsumexp)
  also have "\<dots> = ln (exp (primal (l ! a)) / ?S)"
    using S by (simp add: ln_div)
  finally show ?thesis by (simp add: spec_prob_sum_list[OF assms])
qed

lemma primal_log_prob:
  assumes "a < length l"
  shows "primal (log_prob l a) = spec_log_prob (map primal l) a"
  using primal_normalized[OF assms] by (simp add: log_prob_def spec_log_prob_def)

lemma exp_primal_normalized:
  assumes "a < length l"
  shows "exp (primal (normalized l ! a)) = spec_prob (map primal l) a"
proof -
  have "0 < sum_list (map (\<lambda>x. exp (primal x)) l)" using assms by (intro exp_sum_pos) auto
  then have "0 < spec_prob (map primal l) a" by (simp add: spec_prob_sum_list[OF assms])
  then show ?thesis by (simp add: primal_normalized[OF assms])
qed

lemma spec_prob_sum_one:
  assumes "l \<noteq> []"
  shows "(\<Sum>j<length l. spec_prob (map primal l) j) = 1"
proof -
  let ?S = "sum_list (map (\<lambda>x. exp (primal x)) l)"
  have S: "0 < ?S" using assms by (rule exp_sum_pos)
  have "(\<Sum>j<length l. spec_prob (map primal l) j) = (\<Sum>j<length l. exp (primal (l ! j)) / ?S)"
    by (intro sum.cong refl) (simp add: spec_prob_sum_list)
  also have "\<dots> = (\<Sum>j<length l. exp (primal (l ! j))) / ?S"
    by (simp add: sum_divide_distrib)
  also have "(\<Sum>j<length l. exp (primal (l ! j))) = ?S"
    by (rule sum_list_nth_lessThan[symmetric])
  finally show ?thesis using S by simp
qed

lemma primal_softmax_normalized:
  assumes "a < length l"
  shows "primal (softmax (normalized l) ! a) = spec_prob (map primal l) a"
proof -
  have ne: "l \<noteq> []" using assms by auto
  have len: "length (normalized l) = length l" by (simp add: normalized_def)
  have "sum_list (map (\<lambda>x. exp (primal x)) (normalized l))
      = (\<Sum>j<length (normalized l). exp (primal (normalized l ! j)))"
    by (rule sum_list_nth_lessThan)
  also have "\<dots> = (\<Sum>j<length l. spec_prob (map primal l) j)"
    unfolding len by (intro sum.cong refl) (simp add: exp_primal_normalized)
  also have "\<dots> = 1" by (rule spec_prob_sum_one[OF ne])
  finally have Z: "sum_list (map (\<lambda>x. exp (primal x)) (normalized l)) = 1" .
  have "primal (softmax (normalized l) ! a)
      = exp (primal (normalized l ! a)) / sum_list (map (\<lambda>x. exp (primal x)) (normalized l))"
    using assms len by (simp add: softmax_def primal_simps primal_d_sum comp_def)
  then show ?thesis by (simp add: Z exp_primal_normalized[OF assms])
qed

lemma primal_entropy: "primal (entropy l) = spec_entropy (map primal l)"
proof (cases "l = []")
  case True
  then show ?thesis
    by (simp add: entropy_def normalized_def softmax_def spec_entropy_def d_sum_def primal_simps)
next
  case False
  let ?N = "normalized l"
  have len: "length ?N = length l" "length (softmax ?N) = length l"
    by (simp_all add: normalized_def softmax_def)
  have "primal (entropy l) = - sum_list (map primal (map2 d_mul ?N (softmax ?N)))"
    by (simp add: entropy_def primal_simps primal_d_sum)
  also have "sum_list (map primal (map2 d_mul ?N (softmax ?N)))
      = (\<Sum>i<length (map2 d_mul ?N (softmax ?N)). primal (map2 d_mul ?N (softmax ?N) ! i))"
    by (rule sum_list_nth_lessThan)
  also have "\<dots> = (\<Sum>i<length l. spec_prob (map primal l) i * ln (spec_prob (map primal l) i))"
    using len
    by (intro sum.cong) (simp_all add: primal_simps primal_normalized primal_softmax_normalized)
  finally show ?thesis by (simp add: spec_entropy_def)
qed

lemma valid_actions:
  assumes "list_all (list_all (\<lambda>a. a < 7)) A" "list_all (list_all (\<lambda>l. length l = 7)) L"
  shows "list_all (\<lambda>(ls, as). list_all (\<lambda>(l, a). a < length l) (zip ls as))
     (zip (map butlast L) (map butlast A))"
proof -
  have "a < length l"
    if "(ls, as) \<in> set (zip (map butlast L) (map butlast A))" "(l, a) \<in> set (zip ls as)"
    for ls as l a
  proof -
    from that(1) obtain row where row: "row \<in> set L" "ls = butlast row"
      by (auto dest!: set_zip_leftD)
    from that(1) obtain arow where arow: "arow \<in> set A" "as = butlast arow"
      by (auto dest!: set_zip_rightD)
    from that(2) have "l \<in> set ls" "a \<in> set as" by (auto dest: set_zip_leftD set_zip_rightD)
    then have "l \<in> set row" "a \<in> set arow" using row arow by (auto dest: in_set_butlastD)
    with assms row arow show ?thesis by (auto simp: list_all_iff)
  qed
  then show ?thesis by (auto simp: list_all_iff)
qed

lemma numel_pos:
  assumes "mat_shape B n L" "0 < B" "0 < n" "list_all (list_all (\<lambda>l. length l = 7)) L"
  shows "numel L \<noteq> 0"
proof -
  from sum_concat_rows(2)[OF assms(1)] assms(2,3) have "0 < length (concat L)" by simp
  then obtain l ls where c: "concat L = l # ls" by (cases "concat L") auto
  then have "l \<in> set (concat L)" by simp
  then have "length l = 7" using assms(4) by (auto simp: list_all_iff)
  then have "l \<noteq> []" by auto
  then show ?thesis by (simp add: numel_def c)
qed

lemma butlast_logits:
  assumes "list_all (list_all (\<lambda>l. length l = 7)) L"
  shows "list_all (list_all (\<lambda>l. length l = 7)) (map butlast L)"
  using assms by (auto simp: list_all_iff dest: in_set_butlastD)

lemma compute_loss_eq:
  assumes "rollout_shape B T out"
    "clr (rewards out) (map (map primal) (values out)) (ends out) gamma lam = Inr lr"
    "mat_shape B T lr" "0 < B" "2 \<le> T"
  shows "compute_loss clr out gamma lam w = Inr
     (make_losses
        (action_loss (map2 (map2 log_prob) (map butlast (logits_actions0 out)) (map butlast (actions0 out)))
           (map (map const) (map butlast lr)) (map butlast (values out)))
        (mse_loss (map butlast (values out)) (map (map const) (map butlast lr)))
        (entropy_loss w (map butlast (logits_actions0 out))),
      make_losses
        (action_loss (map2 (map2 log_prob) (map butlast (logits_actions1 out)) (map butlast (actions1 out)))
           (map (map const) (map butlast lr)) (map butlast (values out)))
        (mse_loss (map butlast (values out)) (map (map const) (map butlast lr)))
        (entropy_loss w (map butlast (logits_actions1 out))),
      rewards_total (rewards out))"
proof -
  note sh = assms(1)[unfolded rollout_shape_def]
  from sh have s: "mat_shape B T (logits_actions0 out)" "mat_shape B T (logits_actions1 out)"
    "mat_shape B T (actions0 out)" "mat_shape B T (actions1 out)" "mat_shape B T (values out)"
    by simp_all
  note d = dims_shape[OF butlast_shape[OF s(1)]] dims_shape[OF butlast_shape[OF s(2)]]
    dims_shape[OF butlast_shape[OF s(3)]] dims_shape[OF butlast_shape[OF s(4)]]
    dims_shape[OF butlast_shape[OF s(5)]]
    dims_shape[OF map_map_shape[OF butlast_shape[OF assms(3)]], of const]
  have v0: "list_all (\<lambda>(ls, as). list_all (\<lambda>(l, a). a < length l) (zip ls as))
     (zip (map butlast (logits_actions0 out)) (map butlast (actions0 out)))"
    using sh by (intro valid_actions) simp_all
  have v1: "list_all (\<lambda>(ls, as). list_all (\<lambda>(l, a). a < length l) (zip ls as))
     (zip (map butlast (logits_actions1 out)) (map butlast (actions1 out)))"
    using sh by (intro valid_actions) simp_all
  have n: "0 < T - 1" using assms(5) by simp
  have k0: "numel (map butlast (logits_actions0 out)) = 0 \<longleftrightarrow> False"
    using numel_pos[OF butlast_shape[OF s(1)] assms(4) n butlast_logits] sh by simp
  have k1: "numel (map butlast (logits_actions1 out)) = 0 \<longleftrightarrow> False"
    using numel_pos[OF butlast_shape[OF s(2)] assms(4) n butlast_logits] sh by simp
  show ?thesis
    unfolding compute_loss_def Let_def
    by (simp only: assms(2) sum.case k0 k1 d v0 v1 simp_thms if_False)
qed

lemma spec_mean_cong:
  assumes "\<And>b t. b < B \<Longrightarrow> t < n \<Longrightarrow> f b t = g b t"
  shows "spec_mean B n f = spec_mean B n g"
  unfolding spec_mean_def using assms by (auto intro!: sum.cong arg_cong2[where f = "(/)"])

lemma action_loss_primal:
  assumes "mat_shape B n LP" "mat_shape B n LR" "mat_shape B n V" "0 < B" "0 < n"
  shows "\<exists>d. action_loss LP LR V = Some d \<and>
     primal d = - spec_mean B n (\<lambda>b t. primal (LP ! b ! t) * (primal (LR ! b ! t) - primal (V ! b ! t)))"
proof -
  let ?A = "map2 (map2 d_sub) LR (map (map detach) V)"
  let ?X = "map2 (map2 d_mul) LP ?A"
  have dv: "mat_shape B n (map (map detach) V)" using assms(3) by (rule map_map_shape)
  have a: "mat_shape B n ?A" using assms(2) dv by (rule map2_shape)
  have x: "mat_shape B n ?X" using assms(1) a by (rule map2_shape)
  have el: "primal (?X ! b ! t) = primal (LP ! b ! t) * (primal (LR ! b ! t) - primal (V ! b ! t))"
    if "b < B" "t < n" for b t
    using that by (simp add: map2_nth[OF assms(1) a] map2_nth[OF assms(2) dv]
        map_map_nth[OF assms(3)] primal_simps)
  from d_mean_rows[OF x assms(4,5)] obtain d where d: "d_mean (concat ?X) = Some d"
    "primal d = spec_mean B n (\<lambda>b t. primal (?X ! b ! t))" by blast
  have "primal d = spec_mean B n (\<lambda>b t. primal (LP ! b ! t) * (primal (LR ! b ! t) - primal (V ! b ! t)))"
    unfolding d(2) by (rule spec_mean_cong) (rule el)
  then show ?thesis using d(1) by (simp add: action_loss_def primal_simps)
qed

lemma entropy_loss_primal:
  assumes "mat_shape B n L" "0 < B" "0 < n"
  shows "\<exists>d. entropy_loss w L = Some d \<and>
     primal d = - w * spec_mean B n (\<lambda>b t. spec_entropy (map primal (L ! b ! t)))"
proof -
  let ?X = "map (map entropy) L"
  have x: "mat_shape B n ?X" using assms(1) by (rule map_map_shape)
  from d_mean_rows[OF x assms(2,3)] obtain d where d: "d_mean (concat ?X) = Some d"
    "primal d = spec_mean B n (\<lambda>b t. primal (?X ! b ! t))" by blast
  have "primal d = spec_mean B n (\<lambda>b t. spec_entropy (map primal (L ! b ! t)))"
    unfolding d(2) by (rule spec_mean_cong) (simp add: map_map_nth[OF assms(1)] primal_entropy)
  then show ?thesis using d(1) by (simp add: entropy_loss_def primal_simps)
qed

lemma mse_loss_primal:
  assumes "mat_shape B n V" "mat_shape B n LR" "0 < B" "0 < n"
  shows "\<exists>d. mse_loss V LR = Some d \<and>
     primal d = spec_mean B n (\<lambda>b t. (primal (V ! b ! t) - primal (LR ! b ! t))\<^sup>2)"
proof -
  let ?X = "map2 (map2 (\<lambda>v r. d_mul (d_sub v r) (d_sub v r))) V LR"
  have x: "mat_shape B n ?X" using assms(1,2) by (rule map2_shape)
  from d_mean_rows[OF x assms(3,4)] obtain d where d: "d_mean (concat ?X) = Some d"
    "primal d = spec_mean B n (\<lambda>b t. primal (?X ! b ! t))" by blast
  have "primal d = spec_mean B n (\<lambda>b t. (primal (V ! b ! t) - primal (LR ! b ! t))\<^sup>2)"
    unfolding d(2)
    by (rule spec_mean_cong) (simp add: map2_nth[OF assms(1,2)] primal_simps power2_eq_square)
  then show ?thesis using d(1) by (simp add: mse_loss_def)
qed

lemma log_probs_shape:
  assumes "mat_shape B n L" "mat_shape B n A"
  shows "mat_shape B n (map2 (map2 log_prob) L A)"
  using assms by (rule map2_shape)

lemma make_losses_Some:
  "loss_actions (make_losses (Some a) (Some v) (Some e)) = Some a"
  "loss_values (make_losses (Some a) (Some v) (Some e)) = Some v"
  "loss_entropy (make_losses (Some a) (Some v) (Some e)) = Some e"
  "loss_total (make_losses (Some a) (Some v) (Some e)) = Some (d_add (d_add a v) e)"
  by (simp_all add: make_losses_def add_opt_def)

lemma compute_loss_terms_aux:
  assumes sh: "rollout_shape B T out" and B: "0 < B" and T: "2 \<le> T"
    and c: "clr (rewards out) (map (map primal) (values out)) (ends out) gamma lam = Inr lr"
    and lr: "mat_shape B T lr"
  shows "\<exists>a0 a1 e0 e1 v.
     compute_loss clr out gamma lam w = Inr (make_losses (Some a0) (Some v) (Some e0),
        make_losses (Some a1) (Some v) (Some e1), rewards_total (rewards out)) \<and>
     primal a0 = - spec_mean B (T - 1) (\<lambda>b t.
        spec_log_prob (map primal (logits_actions0 out ! b ! t)) (actions0 out ! b ! t)
          * (lr ! b ! t - primal (values out ! b ! t))) \<and>
     primal a1 = - spec_mean B (T - 1) (\<lambda>b t.
        spec_log_prob (map primal (logits_actions1 out ! b ! t)) (actions1 out ! b ! t)
          * (lr ! b ! t - primal (values out ! b ! t))) \<and>
     primal e0 = - w * spec_mean B (T - 1) (\<lambda>b t. spec_entropy (map primal (logits_actions0 out ! b ! t))) \<and>
     primal e1 = - w * spec_mean B (T - 1) (\<lambda>b t. spec_entropy (map primal (logits_actions1 out ! b ! t))) \<and>
     primal v = spec_mean B (T - 1) (\<lambda>b t. (primal (values out ! b ! t) - lr ! b ! t)\<^sup>2)"
proof -
  let ?n = "T - 1"
  have n: "0 < ?n" using T by simp
  note s = sh[unfolded rollout_shape_def]
  from s have m: "mat_shape B T (logits_actions0 out)" "mat_shape B T (logits_actions1 out)"
    "mat_shape B T (actions0 out)" "mat_shape B T (actions1 out)" "mat_shape B T (values out)"
    by simp_all
  let ?l0 = "map butlast (logits_actions0 out)" and ?l1 = "map butlast (logits_actions1 out)"
  let ?a0 = "map butlast (actions0 out)" and ?a1 = "map butlast (actions1 out)"
  let ?V = "map butlast (values out)" and ?LR = "map (map const) (map butlast lr)"
  note b = butlast_shape[OF m(1)] butlast_shape[OF m(2)] butlast_shape[OF m(3)]
    butlast_shape[OF m(4)] butlast_shape[OF m(5)]
  have bl: "mat_shape B ?n ?LR" by (rule map_map_shape[OF butlast_shape[OF lr]])
  have LRnth: "primal (?LR ! b ! t) = lr ! b ! t" if "b < B" "t < ?n" for b t
  proof -
    have "?LR ! b ! t = const (map butlast lr ! b ! t)"
      by (rule map_map_nth[OF butlast_shape[OF lr] that])
    also have "map butlast lr ! b ! t = lr ! b ! t" by (rule butlast_nth[OF lr that])
    finally show ?thesis by (simp add: primal_simps)
  qed
  have Vnth: "?V ! b ! t = values out ! b ! t" if "b < B" "t < ?n" for b t
    using that by (rule butlast_nth[OF m(5)])
  have valid: "actions0 out ! b ! t < length (logits_actions0 out ! b ! t)"
    "actions1 out ! b ! t < length (logits_actions1 out ! b ! t)" if "b < B" "t < ?n" for b t
  proof -
    have t: "t < T" using that(2) by simp
    from s m that(1) t show "actions0 out ! b ! t < length (logits_actions0 out ! b ! t)"
      by (simp add: mat_shape_def list_all_length)
    from s m that(1) t show "actions1 out ! b ! t < length (logits_actions1 out ! b ! t)"
      by (simp add: mat_shape_def list_all_length)
  qed
  have LP0: "primal (map2 (map2 log_prob) ?l0 ?a0 ! b ! t)
      = spec_log_prob (map primal (logits_actions0 out ! b ! t)) (actions0 out ! b ! t)"
    if "b < B" "t < ?n" for b t
    using that valid(1)[OF that]
    by (simp add: map2_nth[OF b(1) b(3)] butlast_nth[OF m(1)] butlast_nth[OF m(3)] primal_log_prob)
  have LP1: "primal (map2 (map2 log_prob) ?l1 ?a1 ! b ! t)
      = spec_log_prob (map primal (logits_actions1 out ! b ! t)) (actions1 out ! b ! t)"
    if "b < B" "t < ?n" for b t
    using that valid(2)[OF that]
    by (simp add: map2_nth[OF b(2) b(4)] butlast_nth[OF m(2)] butlast_nth[OF m(4)] primal_log_prob)
  from action_loss_primal[OF log_probs_shape[OF b(1) b(3)] bl b(5) B n]
  obtain a0 where a0: "action_loss (map2 (map2 log_prob) ?l0 ?a0) ?LR ?V = Some a0"
    "primal a0 = - spec_mean B ?n (\<lambda>b t. primal (map2 (map2 log_prob) ?l0 ?a0 ! b ! t)
        * (primal (?LR ! b ! t) - primal (?V ! b ! t)))" by blast
  from action_loss_primal[OF log_probs_shape[OF b(2) b(4)] bl b(5) B n]
  obtain a1 where a1: "action_loss (map2 (map2 log_prob) ?l1 ?a1) ?LR ?V = Some a1"
    "primal a1 = - spec_mean B ?n (\<lambda>b t. primal (map2 (map2 log_prob) ?l1 ?a1 ! b ! t)
        * (primal (?LR ! b ! t) - primal (?V ! b ! t)))" by blast
  from entropy_loss_primal[OF b(1) B n, of w]
  obtain e0 where e0: "entropy_loss w ?l0 = Some e0"
    "primal e0 = - w * spec_mean B ?n (\<lambda>b t. spec_entropy (map primal (?l0 ! b ! t)))" by blast
  from entropy_loss_primal[OF b(2) B n, of w]
  obtain e1 where e1: "entropy_loss w ?l1 = Some e1"
    "primal e1 = - w * spec_mean B ?n (\<lambda>b t. spec_entropy (map primal (?l1 ! b ! t)))" by blast
  from mse_loss_primal[OF b(5) bl B n]
  obtain v where v: "mse_loss ?V ?LR = Some v"
    "primal v = spec_mean B ?n (\<lambda>b t. (primal (?V ! b ! t) - primal (?LR ! b ! t))\<^sup>2)" by blast
  have p_a0: "primal a0 = - spec_mean B ?n (\<lambda>b t.
        spec_log_prob (map primal (logits_actions0 out ! b ! t)) (actions0 out ! b ! t)
          * (lr ! b ! t - primal (values out ! b ! t)))"
    unfolding a0(2) by (intro arg_cong[where f = uminus] spec_mean_cong) (simp only: LP0 LRnth Vnth)
  have p_a1: "primal a1 = - spec_mean B ?n (\<lambda>b t.
        spec_log_prob (map primal (logits_actions1 out ! b ! t)) (actions1 out ! b ! t)
          * (lr ! b ! t - primal (values out ! b ! t)))"
    unfolding a1(2) by (intro arg_cong[where f = uminus] spec_mean_cong) (simp only: LP1 LRnth Vnth)
  have p_e0: "primal e0 = - w * spec_mean B ?n (\<lambda>b t. spec_entropy (map primal (logits_actions0 out ! b ! t)))"
    unfolding e0(2) by (intro arg_cong[where f = "times (- w)"] spec_mean_cong) (simp add: butlast_nth[OF m(1)])
  have p_e1: "primal e1 = - w * spec_mean B ?n (\<lambda>b t. spec_entropy (map primal (logits_actions1 out ! b ! t)))"
    unfolding e1(2) by (intro arg_cong[where f = "times (- w)"] spec_mean_cong) (simp add: butlast_nth[OF m(2)])
  have p_v: "primal v = spec_mean B ?n (\<lambda>b t. (primal (values out ! b ! t) - lr ! b ! t)\<^sup>2)"
    unfolding v(2) by (rule spec_mean_cong) (simp only: LRnth Vnth)
  have "compute_loss clr out gamma lam w = Inr (make_losses (Some a0) (Some v) (Some e0),
        make_losses (Some a1) (Some v) (Some e1), rewards_total (rewards out))"
    unfolding compute_loss_eq[of B T out clr gamma lam lr w, OF sh c lr B T] a0(1) a1(1) e0(1) e1(1) v(1) ..
  with p_a0 p_a1 p_e0 p_e1 p_v show ?thesis by blast
qed



lemma two_step_shape: "rollout_shape 1 2 two_step_rollout"
  by (simp add: rollout_shape_def two_step_rollout_def mat_shape_def)

lemma two_step_returns:
  "lambda_returns_or_raise (rewards two_step_rollout) (map (map primal) (values two_step_rollout))
     (ends two_step_rollout) (99 / 100) (95 / 100) = Inr [[199 / 100, 1]]"
  by (simp add: lambda_returns_or_raise_def compute_lambda_returns_def two_step_rollout_def)

section \<open>The losses\<close>

text \<open>
  C1.  For every rollout of shape \<open>(B, T)\<close> with at least two steps (and at least one
  row), on which the lambda-return function returns a tensor \<open>lr\<close> of that shape,
  \<open>compute_loss\<close> returns one bundle for each action head.  The action loss of a head
  is minus the mean, over the batch and over all steps but the last, of the
  log-probability of the action taken, under the categorical distribution of that
  head's logits, times the advantage \<open>lr - value\<close>.  The entropy loss of a head is minus
  \<open>entropy_weight\<close> times the mean entropy of that head's distributions.  The value
  loss is the mean of the squared differences of the values and the lambda-returns,
  over the same steps, and is the same in both bundles; each total is the sum of the
  three components, so the sum of the two totals holds the value loss twice.  The
  statement is about the values of the losses, on the reals.
\<close>

theorem compute_loss_terms:
  "rollout_shape B T out \<and> 0 < B \<and> 2 \<le> T \<and>
   clr (rewards out) (map (map primal) (values out)) (ends out) gamma lam = Inr lr \<and>
   mat_shape B T lr \<longrightarrow>
   (\<exists>L0 L1 rt a0 a1 e0 e1 v t0 t1.
      compute_loss clr out gamma lam w = Inr (L0, L1, rt) \<and>
      loss_actions L0 = Some a0 \<and> loss_actions L1 = Some a1 \<and>
      loss_entropy L0 = Some e0 \<and> loss_entropy L1 = Some e1 \<and>
      loss_values L0 = Some v \<and> loss_values L1 = Some v \<and>
      loss_total L0 = Some t0 \<and> loss_total L1 = Some t1 \<and>
      primal a0 = - spec_mean B (T - 1) (\<lambda>b t.
        spec_log_prob (map primal (logits_actions0 out ! b ! t)) (actions0 out ! b ! t)
          * (lr ! b ! t - primal (values out ! b ! t))) \<and>
      primal a1 = - spec_mean B (T - 1) (\<lambda>b t.
        spec_log_prob (map primal (logits_actions1 out ! b ! t)) (actions1 out ! b ! t)
          * (lr ! b ! t - primal (values out ! b ! t))) \<and>
      primal e0 = - w * spec_mean B (T - 1) (\<lambda>b t. spec_entropy (map primal (logits_actions0 out ! b ! t))) \<and>
      primal e1 = - w * spec_mean B (T - 1) (\<lambda>b t. spec_entropy (map primal (logits_actions1 out ! b ! t))) \<and>
      primal v = spec_mean B (T - 1) (\<lambda>b t. (primal (values out ! b ! t) - lr ! b ! t)\<^sup>2) \<and>
      primal t0 = primal a0 + primal v + primal e0 \<and>
      primal t1 = primal a1 + primal v + primal e1 \<and>
      primal (d_add t0 t1) = primal a0 + primal a1 + primal e0 + primal e1 + 2 * primal v)"
proof
  assume h: "rollout_shape B T out \<and> 0 < B \<and> 2 \<le> T \<and>
   clr (rewards out) (map (map primal) (values out)) (ends out) gamma lam = Inr lr \<and>
   mat_shape B T lr"
  then have sh: "rollout_shape B T out" and B: "0 < B" and T: "2 \<le> T"
    and c: "clr (rewards out) (map (map primal) (values out)) (ends out) gamma lam = Inr lr"
    and lr: "mat_shape B T lr" by simp_all
  from compute_loss_terms_aux[of B T out clr gamma lam lr w, OF sh B T c lr]
  obtain a0 a1 e0 e1 v where
    cl: "compute_loss clr out gamma lam w = Inr (make_losses (Some a0) (Some v) (Some e0),
        make_losses (Some a1) (Some v) (Some e1), rewards_total (rewards out))"
    and p: "primal a0 = - spec_mean B (T - 1) (\<lambda>b t.
        spec_log_prob (map primal (logits_actions0 out ! b ! t)) (actions0 out ! b ! t)
          * (lr ! b ! t - primal (values out ! b ! t)))"
     "primal a1 = - spec_mean B (T - 1) (\<lambda>b t.
        spec_log_prob (map primal (logits_actions1 out ! b ! t)) (actions1 out ! b ! t)
          * (lr ! b ! t - primal (values out ! b ! t)))"
     "primal e0 = - w * spec_mean B (T - 1) (\<lambda>b t. spec_entropy (map primal (logits_actions0 out ! b ! t)))"
     "primal e1 = - w * spec_mean B (T - 1) (\<lambda>b t. spec_entropy (map primal (logits_actions1 out ! b ! t)))"
     "primal v = spec_mean B (T - 1) (\<lambda>b t. (primal (values out ! b ! t) - lr ! b ! t)\<^sup>2)"
    by blast
  let ?t0 = "d_add (d_add a0 v) e0" and ?t1 = "d_add (d_add a1 v) e1"
  have t: "primal ?t0 = primal a0 + primal v + primal e0" "primal ?t1 = primal a1 + primal v + primal e1"
    "primal (d_add ?t0 ?t1) = primal a0 + primal a1 + primal e0 + primal e1 + 2 * primal v"
    by (simp_all add: primal_simps)
  show "\<exists>L0 L1 rt a0 a1 e0 e1 v t0 t1.
      compute_loss clr out gamma lam w = Inr (L0, L1, rt) \<and>
      loss_actions L0 = Some a0 \<and> loss_actions L1 = Some a1 \<and>
      loss_entropy L0 = Some e0 \<and> loss_entropy L1 = Some e1 \<and>
      loss_values L0 = Some v \<and> loss_values L1 = Some v \<and>
      loss_total L0 = Some t0 \<and> loss_total L1 = Some t1 \<and>
      primal a0 = - spec_mean B (T - 1) (\<lambda>b t.
        spec_log_prob (map primal (logits_actions0 out ! b ! t)) (actions0 out ! b ! t)
          * (lr ! b ! t - primal (values out ! b ! t))) \<and>
      primal a1 = - spec_mean B (T - 1) (\<lambda>b t.
        spec_log_prob (map primal (logits_actions1 out ! b ! t)) (actions1 out ! b ! t)
          * (lr ! b ! t - primal (values out ! b ! t))) \<and>
      primal e0 = - w * spec_mean B (T - 1) (\<lambda>b t. spec_entropy (map primal (logits_actions0 out ! b ! t))) \<and>
      primal e1 = - w * spec_mean B (T - 1) (\<lambda>b t. spec_entropy (map primal (logits_actions1 out ! b ! t))) \<and>
      primal v = spec_mean B (T - 1) (\<lambda>b t. (primal (values out ! b ! t) - lr ! b ! t)\<^sup>2) \<and>
      primal t0 = primal a0 + primal v + primal e0 \<and>
      primal t1 = primal a1 + primal v + primal e1 \<and>
      primal (d_add t0 t1) = primal a0 + primal a1 + primal e0 + primal e1 + 2 * primal v"
    apply (rule exI[of _ "make_losses (Some a0) (Some v) (Some e0)"])
    apply (rule exI[of _ "make_losses (Some a1) (Some v) (Some e1)"])
    apply (rule exI[of _ "rewards_total (rewards out)"])
    apply (rule exI[of _ a0], rule exI[of _ a1], rule exI[of _ e0], rule exI[of _ e1], rule exI[of _ v])
    apply (rule exI[of _ ?t0], rule exI[of _ ?t1])
    apply (intro conjI)
    apply (rule cl)
    apply (rule make_losses_Some)+
    apply (rule p(1), rule p(2), rule p(3), rule p(4), rule p(5), rule t(1), rule t(2), rule t(3))
    done
qed

theorem compute_loss_terms_witness:
  "rollout_shape 1 2 two_step_rollout \<and>
   lambda_returns_or_raise (rewards two_step_rollout) (map (map primal) (values two_step_rollout))
     (ends two_step_rollout) (99 / 100) (95 / 100) = Inr [[199 / 100, 1]] \<and>
   mat_shape 1 2 [[199 / 100, 1 :: real]] \<and>
   (\<exists>L0 L1 rt a0 a1 e0 e1 v t0 t1.
      compute_loss lambda_returns_or_raise two_step_rollout (99 / 100) (95 / 100) (1 / 1000) = Inr (L0, L1, rt) \<and>
      loss_actions L0 = Some a0 \<and> loss_actions L1 = Some a1 \<and>
      loss_entropy L0 = Some e0 \<and> loss_entropy L1 = Some e1 \<and>
      loss_values L0 = Some v \<and> loss_values L1 = Some v \<and>
      loss_total L0 = Some t0 \<and> loss_total L1 = Some t1 \<and>
      primal a0 = - spec_mean 1 (2 - 1) (\<lambda>b t.
        spec_log_prob (map primal (logits_actions0 two_step_rollout ! b ! t)) (actions0 two_step_rollout ! b ! t)
          * ([[199 / 100, 1]] ! b ! t - primal (values two_step_rollout ! b ! t))) \<and>
      primal a1 = - spec_mean 1 (2 - 1) (\<lambda>b t.
        spec_log_prob (map primal (logits_actions1 two_step_rollout ! b ! t)) (actions1 two_step_rollout ! b ! t)
          * ([[199 / 100, 1]] ! b ! t - primal (values two_step_rollout ! b ! t))) \<and>
      primal e0 = - (1 / 1000) * spec_mean 1 (2 - 1) (\<lambda>b t. spec_entropy (map primal (logits_actions0 two_step_rollout ! b ! t))) \<and>
      primal e1 = - (1 / 1000) * spec_mean 1 (2 - 1) (\<lambda>b t. spec_entropy (map primal (logits_actions1 two_step_rollout ! b ! t))) \<and>
      primal v = spec_mean 1 (2 - 1) (\<lambda>b t. (primal (values two_step_rollout ! b ! t) - [[199 / 100, 1]] ! b ! t)\<^sup>2) \<and>
      primal t0 = primal a0 + primal v + primal e0 \<and>
      primal t1 = primal a1 + primal v + primal e1 \<and>
      primal (d_add t0 t1) = primal a0 + primal a1 + primal e0 + primal e1 + 2 * primal v)"
proof -
  have m: "mat_shape 1 2 [[199 / 100, 1 :: real]]" by (simp add: mat_shape_def)
  have h: "rollout_shape 1 2 two_step_rollout \<and> 0 < (1::nat) \<and> 2 \<le> (2::nat) \<and>
    lambda_returns_or_raise (rewards two_step_rollout) (map (map primal) (values two_step_rollout))
      (ends two_step_rollout) (99 / 100) (95 / 100) = Inr [[199 / 100, 1]] \<and>
    mat_shape 1 2 [[199 / 100, 1 :: real]]"
    using two_step_shape two_step_returns m by simp
  note r = compute_loss_terms[of 1 2 two_step_rollout lambda_returns_or_raise "99 / 100" "95 / 100"
      "[[199 / 100, 1]]" "1 / 1000", rule_format, OF h]
  show ?thesis
    apply (rule conjI, rule two_step_shape)
    apply (rule conjI, rule two_step_returns)
    apply (rule conjI, rule m)
    apply (rule r)
    done
qed

lemma concat_empty_rows: "mat_shape B 0 X \<Longrightarrow> concat X = []"
  by (simp add: mat_shape_def list_all_iff)

lemma butlast_one_step:
  assumes "mat_shape B 1 X"
  shows "concat (map butlast X) = []"
  using concat_empty_rows[OF butlast_shape[OF assms, simplified]] .

lemma compute_loss_no_element:
  assumes "clr (rewards out) (map (map primal) (values out)) (ends out) gamma lam = Inr lr"
    "concat (map butlast (logits_actions0 out)) = []"
  shows "compute_loss clr out gamma lam w = Inl RuntimeError"
  using assms by (simp add: compute_loss_def Let_def numel_def)

lemma one_step_shape: "rollout_shape 1 1 one_step_rollout"
  by (simp add: rollout_shape_def one_step_rollout_def mat_shape_def)

lemma one_step_returns:
  "lambda_returns_or_raise (rewards one_step_rollout) (map (map primal) (values one_step_rollout))
     (ends one_step_rollout) (99 / 100) (95 / 100) = Inr [[1]]"
  by (simp add: lambda_returns_or_raise_def compute_lambda_returns_def one_step_rollout_def)

text \<open>
  C10, as stated, fails on the rollout of one environment and one step: the
  lambda-returns are returned, and \<open>compute_loss\<close> does not return bundles of NaN but
  raises \<open>RuntimeError\<close>, when line 107 builds the categorical distribution on the
  slice of the logits, which has no element.
\<close>

theorem compute_loss_one_step_counterexample:
  "rollout_shape 1 1 one_step_rollout \<and>
   lambda_returns_or_raise (rewards one_step_rollout) (map (map primal) (values one_step_rollout))
     (ends one_step_rollout) (99 / 100) (95 / 100) = Inr [[1]] \<and>
   compute_loss lambda_returns_or_raise one_step_rollout (99 / 100) (95 / 100) (1 / 1000)
     = Inl RuntimeError \<and>
   \<not> (\<exists>L0 L1 rt. compute_loss lambda_returns_or_raise one_step_rollout (99 / 100) (95 / 100) (1 / 1000)
          = Inr (L0, L1, rt))"
proof -
  have e: "concat (map butlast (logits_actions0 one_step_rollout)) = []"
    by (simp add: one_step_rollout_def)
  have r: "compute_loss lambda_returns_or_raise one_step_rollout (99 / 100) (95 / 100) (1 / 1000)
     = Inl RuntimeError"
    by (rule compute_loss_no_element[of lambda_returns_or_raise one_step_rollout "99 / 100" "95 / 100"
          "[[1]]" "1 / 1000", OF one_step_returns e])
  then have n: "\<not> (\<exists>L0 L1 rt. compute_loss lambda_returns_or_raise one_step_rollout
      (99 / 100) (95 / 100) (1 / 1000) = Inr (L0, L1, rt))" by simp
  from one_step_shape one_step_returns r n show ?thesis by (intro conjI)
qed

text \<open>
  C10, amended.  Every term of the losses leaves out the last step: on a rollout of
  one step (shape \<open>(B, 1)\<close>) the slices of the logits, the actions and the values have no
  element, and the mean of a tensor with no element is NaN (\<open>None\<close>).  No assertion of
  \<open>compute_loss\<close> guards this.  The call does not reach the means: when the
  lambda-return function has returned, \<open>compute_loss\<close> raises \<open>RuntimeError\<close>, from
  the argument validation of the categorical distribution built on the empty slice of
  the logits.
\<close>

theorem compute_loss_one_step_raises:
  "rollout_shape B 1 out \<and>
   clr (rewards out) (map (map primal) (values out)) (ends out) gamma lam = Inr lr \<longrightarrow>
   compute_loss clr out gamma lam w = Inl RuntimeError \<and>
   concat (map butlast (logits_actions0 out)) = [] \<and>
   concat (map butlast (logits_actions1 out)) = [] \<and>
   concat (map butlast (actions0 out)) = [] \<and>
   concat (map butlast (actions1 out)) = [] \<and>
   concat (map butlast (values out)) = [] \<and>
   d_mean [] = None"
proof
  assume h: "rollout_shape B 1 out \<and>
   clr (rewards out) (map (map primal) (values out)) (ends out) gamma lam = Inr lr"
  then have c: "clr (rewards out) (map (map primal) (values out)) (ends out) gamma lam = Inr lr"
    by simp
  from h have m: "mat_shape B 1 (logits_actions0 out)" "mat_shape B 1 (logits_actions1 out)"
    "mat_shape B 1 (actions0 out)" "mat_shape B 1 (actions1 out)" "mat_shape B 1 (values out)"
    by (simp_all add: rollout_shape_def)
  note e = butlast_one_step[OF m(1)] butlast_one_step[OF m(2)] butlast_one_step[OF m(3)]
    butlast_one_step[OF m(4)] butlast_one_step[OF m(5)]
  have r: "compute_loss clr out gamma lam w = Inl RuntimeError"
    by (rule compute_loss_no_element[of clr out gamma lam lr w, OF c e(1)])
  have d: "d_mean [] = None" by (simp add: d_mean_def)
  from r e d show "compute_loss clr out gamma lam w = Inl RuntimeError \<and>
   concat (map butlast (logits_actions0 out)) = [] \<and>
   concat (map butlast (logits_actions1 out)) = [] \<and>
   concat (map butlast (actions0 out)) = [] \<and>
   concat (map butlast (actions1 out)) = [] \<and>
   concat (map butlast (values out)) = [] \<and>
   d_mean [] = None" by (intro conjI)
qed

theorem compute_loss_one_step_raises_witness:
  "rollout_shape 1 1 (one_step_rollout\<lparr>rewards := [[0]], ends := [[False]]\<rparr>) \<and>
   lambda_returns_or_raise (rewards (one_step_rollout\<lparr>rewards := [[0]], ends := [[False]]\<rparr>))
     (map (map primal) (values (one_step_rollout\<lparr>rewards := [[0]], ends := [[False]]\<rparr>)))
     (ends (one_step_rollout\<lparr>rewards := [[0]], ends := [[False]]\<rparr>)) 1 1 = Inr [[1]] \<and>
   compute_loss lambda_returns_or_raise (one_step_rollout\<lparr>rewards := [[0]], ends := [[False]]\<rparr>) 1 1 0
     = Inl RuntimeError \<and>
   concat (map butlast (values (one_step_rollout\<lparr>rewards := [[0]], ends := [[False]]\<rparr>))) = []"
proof -
  let ?out = "one_step_rollout\<lparr>rewards := [[0]], ends := [[False]]\<rparr>"
  have s: "rollout_shape 1 1 ?out"
    by (simp add: rollout_shape_def one_step_rollout_def mat_shape_def)
  have c: "lambda_returns_or_raise (rewards ?out) (map (map primal) (values ?out)) (ends ?out) 1 1
      = Inr [[1]]"
    by (simp add: lambda_returns_or_raise_def compute_lambda_returns_def one_step_rollout_def)
  have h: "rollout_shape 1 1 ?out \<and>
    lambda_returns_or_raise (rewards ?out) (map (map primal) (values ?out)) (ends ?out) 1 1 = Inr [[1]]"
    using s c by (rule conjI)
  note r = compute_loss_one_step_raises[of 1 ?out lambda_returns_or_raise 1 1 "[[1]]" 0,
      rule_format, OF h]
  have a: "compute_loss lambda_returns_or_raise ?out 1 1 0 = Inl RuntimeError"
    using r by (rule conjunct1)
  have b: "concat (map butlast (values ?out)) = []"
    using r by (elim conjE)
  from s c a b show ?thesis by (intro conjI)
qed

section \<open>The gradient of the action loss\<close>

lemma detach_primal: "detach v = Dual (primal v) 0"
  by (simp add: detach_def)

lemma detach_rows:
  assumes "map (map primal) vs' = map (map primal) vs"
  shows "map (map detach) (map butlast vs') = map (map detach) (map butlast vs)"
proof -
  have d: "map (map detach) (map butlast X) = map (map (\<lambda>p. Dual p 0)) (map butlast (map (map primal) X))"
    for X :: "dual list list"
  proof -
    have e: "detach = (\<lambda>x. Dual (primal x) 0)" by (rule ext) (rule detach_primal)
    show ?thesis by (simp add: map_butlast e comp_def)
  qed
  show ?thesis unfolding d assms ..
qed

lemma dims_rows:
  assumes "map (map primal) vs' = map (map primal) vs"
  shows "dims (map butlast vs') = dims (map butlast vs)"
proof -
  have d: "dims (map butlast X) = dims (map butlast (map (map primal) X))" for X :: "dual list list"
    by (simp add: dims_def map_butlast comp_def)
  show ?thesis unfolding d[of vs'] d[of vs] assms ..
qed

lemma action_loss_detached:
  assumes "map (map detach) vals' = map (map detach) vals"
  shows "action_loss lp lr vals' = action_loss lp lr vals"
  by (simp add: action_loss_def assms)

lemma policy_losses_values:
  assumes "map (map primal) vs' = map (map primal) (values out)"
  shows "policy_losses (compute_loss clr (out\<lparr>values := vs'\<rparr>) gamma lam w)
     = policy_losses (compute_loss clr out gamma lam w)"
proof (cases "clr (rewards out) (map (map primal) (values out)) (ends out) gamma lam")
  case (Inl e)
  then show ?thesis by (simp add: compute_loss_def assms policy_losses_def)
next
  case (Inr lr)
  note a = action_loss_detached[OF detach_rows[OF assms]]
  show ?thesis
    by (simp add: compute_loss_def Inr assms dims_rows[OF assms] Let_def policy_losses_def a
        make_losses_def)
qed

lemma tangent_d_sum_zero:
  assumes "\<forall>x\<in>set xs. tangent x = 0"
  shows "tangent (d_sum xs) = 0"
proof -
  have "sum_list (map tangent xs) = 0" using assms by (induction xs) simp_all
  then show ?thesis by (simp add: tangent_d_sum)
qed

lemma tangent_d_mean_zero:
  assumes "d_mean xs = Some d" "\<forall>x\<in>set xs. tangent x = 0"
  shows "tangent d = 0"
proof -
  from assms(1) have "d = d_div (d_sum xs) (const (real (length xs)))"
    by (auto simp: d_mean_def split: if_splits)
  then show ?thesis by (simp add: tangent_simps primal_simps tangent_d_sum_zero[OF assms(2)])
qed

lemma tangent_log_prob_zero:
  assumes "a < length l" "\<forall>x\<in>set l. tangent x = 0"
  shows "tangent (log_prob l a) = 0"
proof -
  have "\<forall>x\<in>set (map d_exp l). tangent x = 0" using assms(2) by (simp add: tangent_simps)
  then have "tangent (d_sum (map d_exp l)) = 0" by (rule tangent_d_sum_zero)
  then have "tangent (logsumexp l) = 0" by (simp add: logsumexp_def tangent_simps)
  moreover have "tangent (l ! a) = 0" using assms by simp
  ultimately show ?thesis using assms(1) by (simp add: log_prob_def normalized_def tangent_simps)
qed

lemma concat_all_nth:
  assumes "mat_shape B n X" "\<And>b t. b < B \<Longrightarrow> t < n \<Longrightarrow> P (X ! b ! t)"
  shows "\<forall>x\<in>set (concat X). P x"
proof
  fix x assume "x \<in> set (concat X)"
  then obtain row where row: "row \<in> set X" "x \<in> set row" by auto
  then obtain b where b: "b < length X" "X ! b = row" by (auto simp: in_set_conv_nth)
  from row(2) obtain t where t: "t < length row" "row ! t = x" by (auto simp: in_set_conv_nth)
  have "length row = n" using assms(1) row(1) by (simp add: mat_shape_def list_all_iff)
  with assms b t show "P x" by (auto simp: mat_shape_def)
qed

lemma action_loss_tangent_zero:
  assumes "mat_shape B n LP" "mat_shape B n L" "mat_shape B n V"
    "\<And>b t. b < B \<Longrightarrow> t < n \<Longrightarrow> tangent (LP ! b ! t) = 0"
    "action_loss LP (map (map const) L) V = Some d"
  shows "tangent d = 0"
proof -
  let ?LR = "map (map const) L"
  let ?A = "map2 (map2 d_sub) ?LR (map (map detach) V)"
  let ?X = "map2 (map2 d_mul) LP ?A"
  have lr: "mat_shape B n ?LR" using assms(2) by (rule map_map_shape)
  have dv: "mat_shape B n (map (map detach) V)" using assms(3) by (rule map_map_shape)
  have a: "mat_shape B n ?A" using lr dv by (rule map2_shape)
  have x: "mat_shape B n ?X" using assms(1) a by (rule map2_shape)
  have el: "tangent (?X ! b ! t) = 0" if "b < B" "t < n" for b t
    using that assms(4)[OF that]
    by (simp add: map2_nth[OF assms(1) a] map2_nth[OF lr dv] map_map_nth[OF assms(2)]
        map_map_nth[OF assms(3)] tangent_simps)
  have all: "\<forall>x\<in>set (concat ?X). tangent x = 0" by (rule concat_all_nth[OF x]) (rule el)
  from assms(5) obtain d' where d': "d_mean (concat ?X) = Some d'" "d = d_mul (const (- 1)) d'"
    by (auto simp: action_loss_def)
  from tangent_d_mean_zero[OF d'(1) all] d'(2) show ?thesis by (simp add: tangent_simps)
qed

lemma action_losses_no_value_gradient:
  assumes sh: "rollout_shape B T out" and B: "0 < B" and T: "2 \<le> T"
    and c: "clr (rewards out) (map (map primal) (values out)) (ends out) gamma lam = Inr lr"
    and lr: "mat_shape B T lr"
    and z0: "list_all (list_all (list_all (\<lambda>x. tangent x = 0))) (logits_actions0 out)"
    and z1: "list_all (list_all (list_all (\<lambda>x. tangent x = 0))) (logits_actions1 out)"
  shows "\<exists>L0 L1 rt a0 a1. compute_loss clr out gamma lam w = Inr (L0, L1, rt) \<and>
     loss_actions L0 = Some a0 \<and> tangent a0 = 0 \<and> loss_actions L1 = Some a1 \<and> tangent a1 = 0"
proof -
  let ?n = "T - 1"
  have n: "0 < ?n" using T by simp
  note s = sh[unfolded rollout_shape_def]
  from s have m: "mat_shape B T (logits_actions0 out)" "mat_shape B T (logits_actions1 out)"
    "mat_shape B T (actions0 out)" "mat_shape B T (actions1 out)" "mat_shape B T (values out)"
    by simp_all
  let ?l0 = "map butlast (logits_actions0 out)" and ?l1 = "map butlast (logits_actions1 out)"
  let ?a0 = "map butlast (actions0 out)" and ?a1 = "map butlast (actions1 out)"
  let ?V = "map butlast (values out)" and ?LR = "map (map const) (map butlast lr)"
  note b = butlast_shape[OF m(1)] butlast_shape[OF m(2)] butlast_shape[OF m(3)]
    butlast_shape[OF m(4)] butlast_shape[OF m(5)]
  note bl0 = butlast_shape[OF lr]
  have bl: "mat_shape B ?n ?LR" by (rule map_map_shape[OF bl0])
  have t0: "tangent (map2 (map2 log_prob) ?l0 ?a0 ! b ! t) = 0" if "b < B" "t < ?n" for b t
  proof -
    have t: "t < T" using that(2) by simp
    from s m that(1) t have v: "actions0 out ! b ! t < length (logits_actions0 out ! b ! t)"
      by (simp add: mat_shape_def list_all_length)
    have "logits_actions0 out ! b \<in> set (logits_actions0 out)"
      using m(1) that(1) by (simp add: mat_shape_def)
    moreover have "logits_actions0 out ! b ! t \<in> set (logits_actions0 out ! b)"
      using m(1) that(1) t by (simp add: mat_shape_def list_all_length)
    ultimately have z: "\<forall>x\<in>set (logits_actions0 out ! b ! t). tangent x = 0"
      using z0 by (auto simp: list_all_iff)
    from tangent_log_prob_zero[OF v z] that show ?thesis
      by (simp add: map2_nth[OF b(1) b(3)] butlast_nth[OF m(1)] butlast_nth[OF m(3)])
  qed
  have t1: "tangent (map2 (map2 log_prob) ?l1 ?a1 ! b ! t) = 0" if "b < B" "t < ?n" for b t
  proof -
    have t: "t < T" using that(2) by simp
    from s m that(1) t have v: "actions1 out ! b ! t < length (logits_actions1 out ! b ! t)"
      by (simp add: mat_shape_def list_all_length)
    have "logits_actions1 out ! b \<in> set (logits_actions1 out)"
      using m(2) that(1) by (simp add: mat_shape_def)
    moreover have "logits_actions1 out ! b ! t \<in> set (logits_actions1 out ! b)"
      using m(2) that(1) t by (simp add: mat_shape_def list_all_length)
    ultimately have z: "\<forall>x\<in>set (logits_actions1 out ! b ! t). tangent x = 0"
      using z1 by (auto simp: list_all_iff)
    from tangent_log_prob_zero[OF v z] that show ?thesis
      by (simp add: map2_nth[OF b(2) b(4)] butlast_nth[OF m(2)] butlast_nth[OF m(4)])
  qed
  from action_loss_primal[OF log_probs_shape[OF b(1) b(3)] bl b(5) B n]
  obtain a0 where a0: "action_loss (map2 (map2 log_prob) ?l0 ?a0) ?LR ?V = Some a0" by blast
  from action_loss_primal[OF log_probs_shape[OF b(2) b(4)] bl b(5) B n]
  obtain a1 where a1: "action_loss (map2 (map2 log_prob) ?l1 ?a1) ?LR ?V = Some a1" by blast
  have z_a0: "tangent a0 = 0"
    by (rule action_loss_tangent_zero[OF log_probs_shape[OF b(1) b(3)] bl0 b(5) t0 a0])
  have z_a1: "tangent a1 = 0"
    by (rule action_loss_tangent_zero[OF log_probs_shape[OF b(2) b(4)] bl0 b(5) t1 a1])
  note cl = compute_loss_eq[of B T out clr gamma lam lr w, OF sh c lr B T, unfolded a0 a1]
  have "loss_actions (make_losses (Some a0) lv le) = Some a0" for lv le
    by (simp add: make_losses_def)
  moreover have "loss_actions (make_losses (Some a1) lv le) = Some a1" for lv le
    by (simp add: make_losses_def)
  ultimately show ?thesis using cl z_a0 z_a1 by blast
qed

text \<open>
  C2.  In the action loss the advantage is the lambda-return, a constant computed under
  \<^verbatim>\<open>torch.no_grad()\<close>, minus the detached value: its derivative with respect to any
  parameter is zero.  So the action loss and the entropy loss of each head, with their
  derivatives, do not change when only the derivatives carried by the values change;
  and with respect to a parameter on which the logits do not depend (a parameter of
  the value head alone) the derivative of each action loss is zero, whatever the
  derivatives of the values: no gradient of the action losses reaches the value head.
\<close>

theorem action_loss_gradient_decoupled:
  "tangent (d_sub (const r) (detach x)) = 0 \<and>
   primal (d_sub (const r) (detach x)) = r - primal x \<and>
   (map (map primal) vs' = map (map primal) (values out) \<longrightarrow>
      policy_losses (compute_loss clr (out\<lparr>values := vs'\<rparr>) gamma lam w)
        = policy_losses (compute_loss clr out gamma lam w)) \<and>
   (rollout_shape B T out \<and> 0 < B \<and> 2 \<le> T \<and>
    clr (rewards out) (map (map primal) (values out)) (ends out) gamma lam = Inr lr \<and>
    mat_shape B T lr \<and>
    list_all (list_all (list_all (\<lambda>x. tangent x = 0))) (logits_actions0 out) \<and>
    list_all (list_all (list_all (\<lambda>x. tangent x = 0))) (logits_actions1 out) \<longrightarrow>
      (\<exists>L0 L1 rt a0 a1. compute_loss clr out gamma lam w = Inr (L0, L1, rt) \<and>
         loss_actions L0 = Some a0 \<and> tangent a0 = 0 \<and>
         loss_actions L1 = Some a1 \<and> tangent a1 = 0))"
proof (intro conjI impI)
  show "tangent (d_sub (const r) (detach x)) = 0" by (simp add: tangent_simps)
  show "primal (d_sub (const r) (detach x)) = r - primal x" by (simp add: primal_simps)
next
  assume "map (map primal) vs' = map (map primal) (values out)"
  then show "policy_losses (compute_loss clr (out\<lparr>values := vs'\<rparr>) gamma lam w)
        = policy_losses (compute_loss clr out gamma lam w)"
    by (rule policy_losses_values)
next
  assume h: "rollout_shape B T out \<and> 0 < B \<and> 2 \<le> T \<and>
    clr (rewards out) (map (map primal) (values out)) (ends out) gamma lam = Inr lr \<and>
    mat_shape B T lr \<and>
    list_all (list_all (list_all (\<lambda>x. tangent x = 0))) (logits_actions0 out) \<and>
    list_all (list_all (list_all (\<lambda>x. tangent x = 0))) (logits_actions1 out)"
  then have sh: "rollout_shape B T out" and B: "0 < B" and T: "2 \<le> T"
    and c: "clr (rewards out) (map (map primal) (values out)) (ends out) gamma lam = Inr lr"
    and lr: "mat_shape B T lr"
    and z0: "list_all (list_all (list_all (\<lambda>x. tangent x = 0))) (logits_actions0 out)"
    and z1: "list_all (list_all (list_all (\<lambda>x. tangent x = 0))) (logits_actions1 out)"
    by simp_all
  show "\<exists>L0 L1 rt a0 a1. compute_loss clr out gamma lam w = Inr (L0, L1, rt) \<and>
         loss_actions L0 = Some a0 \<and> tangent a0 = 0 \<and>
         loss_actions L1 = Some a1 \<and> tangent a1 = 0"
    by (rule action_losses_no_value_gradient[of B T out clr gamma lam lr w, OF sh B T c lr z0 z1])
qed

theorem action_loss_gradient_decoupled_witness:
  "map (map primal) [[Dual 1 5, Dual 1 7]] = map (map primal) (values two_step_rollout) \<and>
   policy_losses (compute_loss lambda_returns_or_raise (two_step_rollout\<lparr>values := [[Dual 1 5, Dual 1 7]]\<rparr>)
       (99 / 100) (95 / 100) (1 / 1000))
     = policy_losses (compute_loss lambda_returns_or_raise two_step_rollout (99 / 100) (95 / 100) (1 / 1000)) \<and>
   rollout_shape 1 2 critic_rollout \<and>
   lambda_returns_or_raise (rewards critic_rollout) (map (map primal) (values critic_rollout))
     (ends critic_rollout) (99 / 100) (95 / 100) = Inr [[199 / 100, 1]] \<and>
   list_all (list_all (list_all (\<lambda>x. tangent x = 0))) (logits_actions0 critic_rollout) \<and>
   list_all (list_all (list_all (\<lambda>x. tangent x = 0))) (logits_actions1 critic_rollout) \<and>
   (\<exists>L0 L1 rt a0 a1.
      compute_loss lambda_returns_or_raise critic_rollout (99 / 100) (95 / 100) (1 / 1000) = Inr (L0, L1, rt) \<and>
      loss_actions L0 = Some a0 \<and> tangent a0 = 0 \<and> loss_actions L1 = Some a1 \<and> tangent a1 = 0)"
proof -
  have p: "map (map primal) [[Dual 1 5, Dual 1 7]] = map (map primal) (values two_step_rollout)"
    by (simp add: two_step_rollout_def)
  note a = action_loss_gradient_decoupled[where vs' = "[[Dual 1 5, Dual 1 7]]" and out = two_step_rollout
      and clr = lambda_returns_or_raise and gamma = "99 / 100" and lam = "95 / 100" and w = "1 / 1000",
      THEN conjunct2, THEN conjunct2, THEN conjunct1, rule_format, OF p]
  have s: "rollout_shape 1 2 critic_rollout"
    by (simp add: rollout_shape_def critic_rollout_def two_step_rollout_def mat_shape_def)
  have c: "lambda_returns_or_raise (rewards critic_rollout) (map (map primal) (values critic_rollout))
     (ends critic_rollout) (99 / 100) (95 / 100) = Inr [[199 / 100, 1]]"
    by (simp add: lambda_returns_or_raise_def compute_lambda_returns_def critic_rollout_def
        two_step_rollout_def)
  have m: "mat_shape 1 2 [[199 / 100, 1 :: real]]" by (simp add: mat_shape_def)
  have z0: "list_all (list_all (list_all (\<lambda>x. tangent x = 0))) (logits_actions0 critic_rollout)"
    and z1: "list_all (list_all (list_all (\<lambda>x. tangent x = 0))) (logits_actions1 critic_rollout)"
    by (simp_all add: critic_rollout_def list_all_iff)
  have h: "rollout_shape 1 2 critic_rollout \<and> 0 < (1::nat) \<and> 2 \<le> (2::nat) \<and>
    lambda_returns_or_raise (rewards critic_rollout) (map (map primal) (values critic_rollout))
      (ends critic_rollout) (99 / 100) (95 / 100) = Inr [[199 / 100, 1]] \<and>
    mat_shape 1 2 [[199 / 100, 1 :: real]] \<and>
    list_all (list_all (list_all (\<lambda>x. tangent x = 0))) (logits_actions0 critic_rollout) \<and>
    list_all (list_all (list_all (\<lambda>x. tangent x = 0))) (logits_actions1 critic_rollout)"
    using s c m z0 z1 by simp
  note b = action_loss_gradient_decoupled[where B = 1 and T = 2 and out = critic_rollout
      and clr = lambda_returns_or_raise and gamma = "99 / 100" and lam = "95 / 100"
      and lr = "[[199 / 100, 1]]" and w = "1 / 1000",
      THEN conjunct2, THEN conjunct2, THEN conjunct2, rule_format, OF h]
  from p a s c z0 z1 b show ?thesis by (intro conjI)
qed

end
